theory Spec2Isabelle
  imports Main "HOL-Library.Sublist"
begin

section \<open>JavaScript strings\<close>

text \<open>
  A file text or a name is a \<^typ>\<open>string\<close>: a list of UTF-16 code units, restricted to
  the units below 256 (ASCII and Latin-1). \<open>None\<close> stands for the index \<open>-1\<close> that
  \<^verbatim>\<open>indexOf\<close> and \<^verbatim>\<open>lastIndexOf\<close> return when nothing is found.
\<close>

definition isWhiteSpace :: "char \<Rightarrow> bool" where
  \<comment> \<open>the class \<^verbatim>\<open>\s\<close>, which is also what \<^verbatim>\<open>trim\<close> strips: TAB, LF, VT, FF, CR, SP, NBSP\<close>
  "isWhiteSpace c \<longleftrightarrow>
     c \<in> set [CHR 0x09, CHR 0x0A, CHR 0x0B, CHR 0x0C, CHR 0x0D, CHR 0x20, CHR 0xA0]"

fun indexOf :: "string \<Rightarrow> string \<Rightarrow> nat option" where
  "indexOf [] p = (if p = [] then Some 0 else None)"
| "indexOf (x # xs) p =
     (if prefix p (x # xs) then Some 0 else map_option Suc (indexOf xs p))"

definition indexOfFrom :: "string \<Rightarrow> string \<Rightarrow> nat option \<Rightarrow> nat option" where
  \<comment> \<open>\<^verbatim>\<open>s.indexOf(p, from)\<close>; a negative \<^verbatim>\<open>from\<close> (here: \<open>None\<close>) is clamped to 0,
      a \<^verbatim>\<open>from\<close> beyond the end to the length\<close>
  "indexOfFrom s p from =
     (let k = (case from of None \<Rightarrow> 0 | Some i \<Rightarrow> min i (length s))
      in map_option (\<lambda>i. i + k) (indexOf (drop k s) p))"

fun lastIndexOf :: "string \<Rightarrow> string \<Rightarrow> nat option" where
  "lastIndexOf [] p = (if p = [] then Some 0 else None)"
| "lastIndexOf (x # xs) p =
     (case lastIndexOf xs p of
        Some i \<Rightarrow> Some (Suc i)
      | None \<Rightarrow> if prefix p (x # xs) then Some 0 else None)"

definition includes_str :: "string \<Rightarrow> string \<Rightarrow> bool" where
  "includes_str s p \<longleftrightarrow> indexOf s p \<noteq> None"

definition trimEnd :: "string \<Rightarrow> string" where
  "trimEnd s = rev (dropWhile isWhiteSpace (rev s))"

definition trim :: "string \<Rightarrow> string" where
  "trim s = trimEnd (dropWhile isWhiteSpace s)"

fun splitOn :: "char \<Rightarrow> string \<Rightarrow> string list" where
  \<comment> \<open>\<^verbatim>\<open>s.split(sep)\<close> for a one-character separator\<close>
  "splitOn sep [] = [[]]"
| "splitOn sep (c # cs) =
     (if c = sep then [] # splitOn sep cs
      else (case splitOn sep cs of [] \<Rightarrow> [[c]] | p # ps \<Rightarrow> (c # p) # ps))"

definition lowerLetters :: string where
  "lowerLetters = ''abcdefghijklmnopqrstuvwxyz''"

definition upperLetters :: string where
  "upperLetters = ''ABCDEFGHIJKLMNOPQRSTUVWXYZ''"

definition digitChars :: string where
  "digitChars = ''0123456789''"

definition upperChar :: "char \<Rightarrow> char" where
  \<comment> \<open>\<^verbatim>\<open>toUpperCase\<close> on one ASCII character; the accented letters of Latin-1 are outside
      what the generator accepts as a name and are left as they are\<close>
  "upperChar c = (case map_of (zip lowerLetters upperLetters) c of Some u \<Rightarrow> u | None \<Rightarrow> c)"

definition toUpperCase :: "string \<Rightarrow> string" where
  "toUpperCase s = map upperChar s"

fun getSubstitution :: "string \<Rightarrow> string \<Rightarrow> string \<Rightarrow> string \<Rightarrow> string" where
  \<comment> \<open>ECMAScript GetSubstitution for a pattern without capture groups: in the replacement
      text \<^verbatim>\<open>$$\<close> is a dollar, \<^verbatim>\<open>$&\<close> the matched text, \<^verbatim>\<open>$`\<close> the text before the
      match and \<^verbatim>\<open>$'\<close> the text after it; \<^verbatim>\<open>$1\<close>, \<^verbatim>\<open>$<\<close> and any other dollar stay
      as written\<close>
  "getSubstitution matched pre post [] = []"
| "getSubstitution matched pre post [c] = [c]"
| "getSubstitution matched pre post (c # d # t) =
     (if c \<noteq> CHR ''$'' then c # getSubstitution matched pre post (d # t)
      else if d = CHR ''$'' then CHR ''$'' # getSubstitution matched pre post t
      else if d = CHR ''&'' then matched @ getSubstitution matched pre post t
      else if d = CHR 0x60 then pre @ getSubstitution matched pre post t
      else if d = CHR 0x27 then post @ getSubstitution matched pre post t
      else c # getSubstitution matched pre post (d # t))"

definition replaceString :: "string \<Rightarrow> string \<Rightarrow> string \<Rightarrow> string" where
  \<comment> \<open>\<^verbatim>\<open>s.replace(pat, repl)\<close> with a string pattern: the first occurrence only\<close>
  "replaceString s pat repl =
     (case indexOf s pat of
        None \<Rightarrow> s
      | Some i \<Rightarrow>
          (let pre = take i s; post = drop (i + length pat) s
           in pre @ getSubstitution pat pre post repl @ post))"

fun stripTrailingComma :: "string \<Rightarrow> string" where
  \<comment> \<open>\<^verbatim>\<open>s.replace(/,\s*$/, "")\<close>: the leftmost comma followed by white space only, and
      all that follows it, is removed\<close>
  "stripTrailingComma [] = []"
| "stripTrailingComma (c # cs) =
     (if c = CHR '','' \<and> list_all isWhiteSpace cs then [] else c # stripTrailingComma cs)"

section \<open>Name transforms (create-page.ts)\<close>

datatype error =
    Error string        \<comment> \<open>\<^verbatim>\<open>throw new Error(msg)\<close>\<close>
  | ProcessExit nat     \<comment> \<open>\<^verbatim>\<open>process.exit(code)\<close>\<close>
  | IoError string      \<comment> \<open>a rejected file-system call on the given path\<close>

definition isLowerAlnum :: "char \<Rightarrow> bool" where
  "isLowerAlnum c \<longleftrightarrow> c \<in> set lowerLetters \<or> c \<in> set digitChars"

definition segmentOk :: "string \<Rightarrow> bool" where
  \<comment> \<open>\<^verbatim>\<open>/^[a-z0-9]+$/.test(part)\<close>\<close>
  "segmentOk part \<longleftrightarrow> part \<noteq> [] \<and> list_all isLowerAlnum part"

definition capitalize :: "string \<Rightarrow> string" where
  \<comment> \<open>\<^verbatim>\<open>part.charAt(0).toUpperCase() + part.slice(1)\<close>\<close>
  "capitalize part = (case part of [] \<Rightarrow> [] | c # cs \<Rightarrow> upperChar c # cs)"

definition nameParts :: "string \<Rightarrow> string list" where
  \<comment> \<open>\<^verbatim>\<open>name.split("-").filter((part) => part.length > 0)\<close>\<close>
  "nameParts name = filter (\<lambda>part. length part > 0) (splitOn (CHR ''-'') name)"

definition invalidPart :: "string \<Rightarrow> error" where
  "invalidPart part =
     Error (''Invalid name part \"'' @ part @
            ''\": must contain only lowercase letters and numbers'')"

definition toPascalCase :: "string \<Rightarrow> error + string" where
  "toPascalCase name =
     (if name = [] then Inl (Error ''Invalid name: must be a non-empty string'')
      else let parts = nameParts name in
        if length parts = 0 then Inl (Error ''Invalid name: contains only hyphens'')
        else (case find (\<lambda>part. \<not> segmentOk part) parts of
                Some part \<Rightarrow> Inl (invalidPart part)
              | None \<Rightarrow> Inr (concat (map capitalize parts))))"

definition toCamelCase :: "string \<Rightarrow> error + string" where
  "toCamelCase name =
     (if name = [] then Inl (Error ''Invalid name: must be a non-empty string'')
      else let parts = nameParts name in
        if length parts = 0 then Inl (Error ''Invalid name: contains only hyphens'')
        else (case find (\<lambda>part. \<not> segmentOk part) parts of
                Some part \<Rightarrow> Inl (invalidPart part)
              | None \<Rightarrow>
                  (case parts of
                     [] \<Rightarrow> Inr []
                   | first # others \<Rightarrow> Inr (first @ concat (map capitalize others)))))"

definition toScreamingSnakeCase :: "string \<Rightarrow> string" where
  \<comment> \<open>\<^verbatim>\<open>name.toUpperCase().replace(/-/g, "_")\<close>\<close>
  "toScreamingSnakeCase name =
     map (\<lambda>c. if c = CHR ''-'' then CHR ''_'' else c) (toUpperCase name)"

definition shapeOk :: "string \<Rightarrow> bool" where
  \<comment> \<open>\<^verbatim>\<open>/^[a-z][a-z0-9-]*$/.test(name)\<close>\<close>
  "shapeOk name \<longleftrightarrow>
     (case name of
        [] \<Rightarrow> False
      | c # cs \<Rightarrow> c \<in> set lowerLetters \<and> list_all (\<lambda>d. isLowerAlnum d \<or> d = CHR ''-'') cs)"

definition alnumChars :: "char set" where
  "alnumChars = set lowerLetters \<union> set upperLetters \<union> set digitChars"

section \<open>The file system and the console\<close>

text \<open>
  All state is the text of the files on disk. A path is the string the code passes to
  \<^verbatim>\<open>fs\<close>, resolved against the working directory of the process. Every call on the file
  system and every line on the console or the spinner is appended to \<open>trace\<close>; chalk's
  colours and the pictographs of the messages are left out. Reading is rejected where
  the path is no regular file, and \<^verbatim>\<open>outputFile\<close> where the path or one of its parents
  is in the way. The program calls \<^verbatim>\<open>writeFile\<close> only on a path it has just read, and
  that call is taken to succeed.
\<close>

datatype event =
    ConsoleLog string
  | ConsoleWarn string
  | ConsoleError string
  | Prompted string
  | SpinnerStart string
  | SpinnerText string
  | SpinnerWarn string
  | SpinnerSucceed string
  | SpinnerFail string
  | FsPathExists string
  | FsReadFile string
  | FsWriteFile string string
  | FsOutputFile string string

record world =
  files :: "string \<rightharpoonup> string"
  dirs :: "string set"
  trace :: "event list"

type_synonym 'a io = "world \<Rightarrow> (error + 'a) \<times> world"

definition io_return :: "'a \<Rightarrow> 'a io" where
  "io_return x = (\<lambda>w. (Inr x, w))"

definition io_throw :: "error \<Rightarrow> 'a io" where
  "io_throw e = (\<lambda>w. (Inl e, w))"

definition io_bind :: "'a io \<Rightarrow> ('a \<Rightarrow> 'b io) \<Rightarrow> 'b io" where
  \<comment> \<open>\<^verbatim>\<open>const x = await m; f(x)\<close>: a rejection of \<open>m\<close> skips \<open>f\<close>\<close>
  "io_bind m f = (\<lambda>w. case m w of (Inl e, w') \<Rightarrow> (Inl e, w') | (Inr x, w') \<Rightarrow> f x w')"

definition io_then :: "unit io \<Rightarrow> 'b io \<Rightarrow> 'b io" where
  "io_then m k = io_bind m (\<lambda>_. k)"

definition io_catch :: "unit io \<Rightarrow> (error \<Rightarrow> unit io) \<Rightarrow> unit io" where
  \<comment> \<open>\<^verbatim>\<open>try { m } catch (error) { h(error) }\<close>; leaving the process is not caught\<close>
  "io_catch m h =
     (\<lambda>w. case m w of
            (Inl (ProcessExit n), w') \<Rightarrow> (Inl (ProcessExit n), w')
          | (Inl e, w') \<Rightarrow> h e w'
          | (Inr x, w') \<Rightarrow> (Inr x, w'))"

definition emit :: "event \<Rightarrow> unit io" where
  "emit e = (\<lambda>w. (Inr (), w\<lparr>trace := trace w @ [e]\<rparr>))"

definition isPath :: "world \<Rightarrow> string \<Rightarrow> bool" where
  "isPath w p \<longleftrightarrow> files w p \<noteq> None \<or> p \<in> dirs w"

definition pathExists :: "string \<Rightarrow> bool io" where
  "pathExists p = (\<lambda>w. (Inr (isPath w p), w\<lparr>trace := trace w @ [FsPathExists p]\<rparr>))"

definition readFile :: "string \<Rightarrow> string io" where
  "readFile p =
     (\<lambda>w. (case files w p of None \<Rightarrow> Inl (IoError p) | Some text \<Rightarrow> Inr text,
           w\<lparr>trace := trace w @ [FsReadFile p]\<rparr>))"

definition writeFile :: "string \<Rightarrow> string \<Rightarrow> unit io" where
  "writeFile p text =
     (\<lambda>w. (Inr (), w\<lparr>files := (files w)(p \<mapsto> text), trace := trace w @ [FsWriteFile p text]\<rparr>))"

fun dirPrefixes :: "string \<Rightarrow> string \<Rightarrow> string list" where
  "dirPrefixes acc [] = []"
| "dirPrefixes acc (c # cs) =
     (if c = CHR ''/'' \<and> acc \<noteq> [] then acc # dirPrefixes (acc @ [c]) cs
      else dirPrefixes (acc @ [c]) cs)"

definition outputFile :: "string \<Rightarrow> string \<Rightarrow> unit io" where
  \<comment> \<open>\<^verbatim>\<open>fs.outputFile\<close> creates the missing parent directories, then writes. It is
      rejected where the path is a directory (\<^verbatim>\<open>EISDIR\<close>) or one of its parents is a
      regular file (\<^verbatim>\<open>ENOTDIR\<close>, \<^verbatim>\<open>EEXIST\<close>); nothing is created then\<close>
  "outputFile p text =
     (\<lambda>w. if p \<in> dirs w \<or> list_ex (\<lambda>d. files w d \<noteq> None) (dirPrefixes [] p)
          then (Inl (IoError p), w\<lparr>trace := trace w @ [FsOutputFile p text]\<rparr>)
          else (Inr (), w\<lparr>files := (files w)(p \<mapsto> text),
                             dirs := dirs w \<union> set (dirPrefixes [] p),
                             trace := trace w @ [FsOutputFile p text]\<rparr>))"

section \<open>The create-page command (create-page.ts, lines 956 to 1181)\<close>

definition reservedKeywords :: "string list" where
  "reservedKeywords =
     [''abstract'', ''arguments'', ''await'', ''boolean'', ''break'', ''byte'', ''case'',
      ''catch'', ''char'', ''class'', ''const'', ''continue'', ''debugger'', ''default'',
      ''delete'', ''do'', ''double'', ''else'', ''enum'', ''eval'', ''export'', ''extends'',
      ''false'', ''final'', ''finally'', ''float'', ''for'', ''function'', ''goto'', ''if'',
      ''implements'', ''import'', ''in'', ''instanceof'', ''int'', ''interface'', ''let'',
      ''long'', ''native'', ''new'', ''null'', ''package'', ''private'', ''protected'',
      ''public'', ''return'', ''short'', ''static'', ''super'', ''switch'', ''synchronized'',
      ''this'', ''throw'', ''throws'', ''transient'', ''true'', ''try'', ''typeof'', ''var'',
      ''void'', ''volatile'', ''while'', ''with'', ''yield'']"

definition reservedNames :: "string list" where
  "reservedNames = [''index'', ''default'', ''constructor'', ''prototype'']"

definition errorMessage :: "error \<Rightarrow> string" where
  \<comment> \<open>\<^verbatim>\<open>error instanceof Error ? error.message : "Unknown error"\<close>\<close>
  "errorMessage e = (case e of Error msg \<Rightarrow> msg | _ \<Rightarrow> ''Unknown error'')"

definition validateName :: "string \<Rightarrow> string option" where
  \<comment> \<open>the checks of the action in their order; \<open>Some msg\<close> is the line written to the
      error stream before \<^verbatim>\<open>process.exit(1)\<close>\<close>
  "validateName name =
     (if name = [] \<or> length (trim name) = 0 then Some ''Page name cannot be empty''
      else if list_ex isWhiteSpace name
        then Some ''Page name cannot contain spaces or whitespace''
      else if \<not> shapeOk name
        then Some (''Page name must start with a letter and contain only '' @
                   ''lowercase letters, numbers, and hyphens'')
      else if includes_str name ''--''
        then Some ''Page name cannot contain consecutive hyphens''
      else if prefix ''-'' name \<or> suffix ''-'' name
        then Some ''Page name cannot start or end with a hyphen''
      else if name \<in> set reservedKeywords
        then Some (''Page name \"'' @ name @
                   ''\" is a reserved JavaScript/TypeScript keyword'')
      else if name \<in> set reservedNames
        then Some (''Page name \"'' @ name @
                   ''\" is a reserved name and might cause conflicts'')
      else (case toPascalCase name of
              Inl e \<Rightarrow> Some (''Invalid page name: '' @ errorMessage e)
            | Inr _ \<Rightarrow>
                (case toCamelCase name of
                   Inl e \<Rightarrow> Some (''Invalid page name: '' @ errorMessage e)
                 | Inr _ \<Rightarrow> None)))"

record options =
  pageType :: string    \<comment> \<open>\<^verbatim>\<open>--type\<close>\<close>
  schemas :: string     \<comment> \<open>\<^verbatim>\<open>--schemas\<close>\<close>
  routes :: string      \<comment> \<open>\<^verbatim>\<open>--routes\<close>\<close>
  userShard :: string   \<comment> \<open>\<^verbatim>\<open>--user-shard\<close>\<close>
  yes :: bool           \<comment> \<open>\<^verbatim>\<open>--yes\<close>\<close>

text \<open>
  The three generation flows write the template files of a page. The action is modelled
  over any three flows, and over the answer the user gives to the confirmation prompt.
\<close>

record flows =
  createStaticPageFlow :: "string \<Rightarrow> unit io"
  createFeedPageFlow :: "string \<Rightarrow> string \<Rightarrow> string \<Rightarrow> string \<Rightarrow> unit io"
  createDashboardPageFlow :: "string \<Rightarrow> string \<Rightarrow> string \<Rightarrow> string \<Rightarrow> unit io"

definition pagePathOf :: "string \<Rightarrow> string" where
  "pagePathOf name = ''src/client/'' @ name"

definition reportSuccess :: "string \<Rightarrow> options \<Rightarrow> unit io" where
  "reportSuccess name opts =
     io_then (emit (ConsoleLog (capitalize (pageType opts) @ '' page \"'' @ name @
                                ''\" created successfully!'')))
    (io_then (emit (ConsoleLog ''Next steps:''))
    (io_then (emit (ConsoleLog (''1. Navigate to http://localhost:3000/'' @ name)))
    (io_then (emit (ConsoleLog ''2. Customize the page content''))
      (if pageType opts = ''dashboard''
       then io_then (emit (ConsoleLog ''3. Update the load endpoint in your server''))
           (io_then (emit (ConsoleLog ''4. Add change event handlers if needed''))
                    (emit (ConsoleLog ''5. Customize the views and context as needed'')))
       else io_return ()))))"

definition runFlow :: "flows \<Rightarrow> string \<Rightarrow> options \<Rightarrow> unit io" where
  "runFlow fl name opts =
     (if pageType opts = ''static'' then createStaticPageFlow fl name
      else if pageType opts = ''feed''
        then createFeedPageFlow fl name (schemas opts) (routes opts) (userShard opts)
      else createDashboardPageFlow fl name (schemas opts) (routes opts) (userShard opts))"

definition createPageAction :: "flows \<Rightarrow> bool \<Rightarrow> string \<Rightarrow> options \<Rightarrow> unit io" where
  "createPageAction fl answer name opts =
     io_then (emit (ConsoleLog (''Creating '' @ pageType opts @ '' page: '' @ name)))
       (case validateName name of
          Some msg \<Rightarrow> io_then (emit (ConsoleError msg)) (io_throw (ProcessExit 1))
        | None \<Rightarrow>
            io_bind (pathExists (pagePathOf name)) (\<lambda>found.
              if found
              then io_then (emit (ConsoleError (''Page \"'' @ name @ ''\" already exists at '' @
                                                pagePathOf name)))
                           (io_throw (ProcessExit 1))
              else io_bind
                     (if \<not> yes opts
                      then io_then (emit (Prompted (''Create a '' @ pageType opts @
                                                    '' page at '' @ pagePathOf name @ ''?'')))
                                   (io_return answer)
                      else io_return True)
                     (\<lambda>go.
                        if \<not> go then emit (ConsoleLog ''Page creation cancelled'')
                        else io_catch
                               (io_then (runFlow fl name opts) (reportSuccess name opts))
                               (\<lambda>e. io_then (emit (SpinnerFail ''Page creation failed''))
                                    (io_then (emit (ConsoleError (''Error: '' @ errorMessage e)))
                                             (io_throw (ProcessExit 1)))))))"

section \<open>Regular expressions of the patchers\<close>

text \<open>
  Each pattern of the patchers is a sequence of literals, greedy runs of a character
  class and optional literals in which the item after a run never starts with a
  character of the run. Backtracking can therefore not find a match where the greedy
  scan fails, and the match at a position is computed by one scan from left to right.
  A scanner returns the text that remains after the item it matched.
  \<^verbatim>\<open>regexMatch\<close> is \<^verbatim>\<open>s.match(re)\<close> for a pattern without the \<^verbatim>\<open>g\<close> flag: the leftmost
  match, as the text before it, the matched text, capture group 1 and the text after it.
\<close>

definition lit :: "string \<Rightarrow> string \<Rightarrow> string option" where
  "lit p s = (if prefix p s then Some (drop (length p) s) else None)"

definition spaces1 :: "string \<Rightarrow> string option" where
  \<comment> \<open>\<^verbatim>\<open>\s+\<close>\<close>
  "spaces1 s =
     (case s of [] \<Rightarrow> None
      | c # cs \<Rightarrow> if isWhiteSpace c then Some (dropWhile isWhiteSpace cs) else None)"

definition quoteChar :: "string \<Rightarrow> string option" where
  \<comment> \<open>\<^verbatim>\<open>["']\<close>\<close>
  "quoteChar s =
     (case s of [] \<Rightarrow> None
      | c # cs \<Rightarrow> if c = CHR 0x22 \<or> c = CHR 0x27 then Some cs else None)"

definition optSemicolon :: "string \<Rightarrow> string" where
  \<comment> \<open>\<^verbatim>\<open>;?\<close>\<close>
  "optSemicolon s = (case s of [] \<Rightarrow> [] | c # cs \<Rightarrow> if c = CHR '';'' then cs else c # cs)"

definition notBrace :: "char \<Rightarrow> bool" where
  \<comment> \<open>\<^verbatim>\<open>[^}]\<close>\<close>
  "notBrace c \<longleftrightarrow> c \<noteq> CHR ''}''"

fun regexSearch :: "(string \<Rightarrow> (string \<times> string) option) \<Rightarrow> string \<Rightarrow>
    (nat \<times> string \<times> string) option" where
  "regexSearch at [] = map_option (\<lambda>(cap, rest). (0, cap, rest)) (at [])"
| "regexSearch at (c # cs) =
     (case at (c # cs) of
        Some (cap, rest) \<Rightarrow> Some (0, cap, rest)
      | None \<Rightarrow> map_option (\<lambda>(i, cap, rest). (Suc i, cap, rest)) (regexSearch at cs))"

definition regexMatch :: "(string \<Rightarrow> (string \<times> string) option) \<Rightarrow> string \<Rightarrow>
    (string \<times> string \<times> string \<times> string) option" where
  "regexMatch at s =
     map_option
       (\<lambda>(i, cap, rest). (take i s, take (length s - i - length rest) (drop i s), cap, rest))
       (regexSearch at s)"

definition replaceRegex :: "(string \<Rightarrow> (string \<times> string) option) \<Rightarrow> string \<Rightarrow> string \<Rightarrow>
    string" where
  \<comment> \<open>\<^verbatim>\<open>s.replace(re, repl)\<close> for a pattern without the \<^verbatim>\<open>g\<close> flag and without
      capture groups\<close>
  "replaceRegex at s repl =
     (case regexMatch at s of
        None \<Rightarrow> s
      | Some (pre, matched, cap, post) \<Rightarrow> pre @ getSubstitution matched pre post repl @ post)"

definition honoImportAt :: "string \<Rightarrow> (string \<times> string) option" where
  \<comment> \<open>\<^verbatim>\<open>/import\s+{([^}]+)}\s+from\s+["']hono\/utils\/http-status["'];?/\<close>\<close>
  "honoImportAt s =
     Option.bind (lit ''import'' s) (\<lambda>r.
     Option.bind (spaces1 r) (\<lambda>r.
     Option.bind (lit ''{'' r) (\<lambda>r.
     if takeWhile notBrace r = [] then None else
     Option.bind (lit ''}'' (dropWhile notBrace r)) (\<lambda>r'.
     Option.bind (spaces1 r') (\<lambda>r'.
     Option.bind (lit ''from'' r') (\<lambda>r'.
     Option.bind (spaces1 r') (\<lambda>r'.
     Option.bind (quoteChar r') (\<lambda>r'.
     Option.bind (lit ''hono/utils/http-status'' r') (\<lambda>r'.
     Option.bind (quoteChar r') (\<lambda>r'.
     Some (takeWhile notBrace r, optSemicolon r')))))))))))"

definition schemasImportAt :: "bool \<Rightarrow> string \<Rightarrow> (string \<times> string) option" where
  \<comment> \<open>\<^verbatim>\<open>/import {([^}]+)} from ["']@shared\/types\/request-response-schemas["'];/\<close>, and
      with \<open>True\<close> the pattern of the shard patcher, which has \<^verbatim>\<open>(?:type )?\<close> after
      \<^verbatim>\<open>import \<close>\<close>
  "schemasImportAt typeAllowed s =
     Option.bind (lit ''import '' s) (\<lambda>r0.
     Option.bind (lit ''{'' (if typeAllowed
                             then (case lit ''type '' r0 of Some r1 \<Rightarrow> r1 | None \<Rightarrow> r0)
                             else r0)) (\<lambda>r.
     if takeWhile notBrace r = [] then None else
     Option.bind (lit ''} from '' (dropWhile notBrace r)) (\<lambda>r'.
     Option.bind (quoteChar r') (\<lambda>r'.
     Option.bind (lit ''@shared/types/request-response-schemas'' r') (\<lambda>r'.
     Option.bind (quoteChar r') (\<lambda>r'.
     Option.bind (lit '';'' r') (\<lambda>r'.
     Some (takeWhile notBrace r, r'))))))))"

definition inputMappingAt :: "string \<Rightarrow> (string \<times> string) option" where
  \<comment> \<open>\<^verbatim>\<open>/input:\s*{([^}]*)}/s\<close>\<close>
  "inputMappingAt s =
     Option.bind (lit ''input:'' s) (\<lambda>r.
     Option.bind (lit ''{'' (dropWhile isWhiteSpace r)) (\<lambda>r.
     Option.bind (lit ''}'' (dropWhile notBrace r)) (\<lambda>r'.
     Some (takeWhile notBrace r, r'))))"

section \<open>updateViteConfig (utils/vite.ts)\<close>

definition viteConfigPath :: string where
  "viteConfigPath = ''vite.config.ts''"

definition newEntry :: "string \<Rightarrow> string" where
  \<open>newEntry pageName =
     ''        '' @ pageName @ '': resolve(__dirname, "src/client/'' @ pageName @
     ''/index.html"),''\<close>

definition updateViteConfig :: "string \<Rightarrow> unit io" where
  "updateViteConfig pageName =
     io_bind (pathExists viteConfigPath) (\<lambda>found.
       if \<not> found
       then emit (ConsoleWarn (''vite.config.ts not found. Please manually add the page '' @
                               ''to your Vite configuration.''))
       else io_bind (readFile viteConfigPath) (\<lambda>content.
         case regexMatch inputMappingAt content of
           None \<Rightarrow>
             emit (ConsoleWarn (''Could not find rollupOptions.input in vite.config.ts. '' @
                                ''Please manually add the page.''))
         | Some (pre, matched, inputContent, post) \<Rightarrow>
             if \<not> includes_str inputContent (pageName @ '':'')
             then (let updatedInput = trimEnd inputContent @ ''\<newline>'' @ newEntry pageName
                   in writeFile viteConfigPath
                        (replaceRegex inputMappingAt content
                           (''input: {'' @ updatedInput @ ''\<newline>      }'')))
             else io_return ()))"

section \<open>addRoutesToIndex (create-page.ts, lines 2361 to 2520)\<close>

definition routesToAdd :: "string \<Rightarrow> string \<Rightarrow> string" where
  \<open>routesToAdd name capitalizedName =
     ''\<newline>'' @
     ''// '' @ capitalizedName @ '' endpoints\<newline>'' @
     ''app.get("/api/'' @ name @ ''/load", async (c) => {\<newline>'' @
     ''  const user = await getAuthenticatedUser(c);\<newline>'' @
     ''  if (!user) {\<newline>'' @
     ''    return sendError(c, 401, "Unauthorized");\<newline>'' @
     ''  }\<newline>'' @
     ''\<newline>'' @
     ''  const shardId = c.env.USER_SHARD.idFromName(user.id);\<newline>'' @
     ''  const userShard = c.env.USER_SHARD.get(shardId);\<newline>'' @
     ''\<newline>'' @
     ''  const result = await userShard.load'' @ capitalizedName @ ''(user.id);\<newline>'' @
     ''\<newline>'' @
     ''  if ("error" in result) {\<newline>'' @
     ''    return sendError(c, 500, result.error);\<newline>'' @
     ''  }\<newline>'' @
     ''\<newline>'' @
     ''  return send(c, Load'' @ capitalizedName @ ''ResponseSchema, result, 200);\<newline>'' @
     ''});\<newline>'' @
     ''\<newline>'' @
     ''app.post(\<newline>'' @
     ''  "/api/'' @ name @ ''/save",\<newline>'' @
     ''  zValidator("json", Save'' @ capitalizedName @ ''RequestSchema),\<newline>'' @
     ''  async (c) => {\<newline>'' @
     ''    try {\<newline>'' @
     ''      const user = await getAuthenticatedUser(c);\<newline>'' @
     ''      if (!user) {\<newline>'' @
     ''        return sendError(c, 401, "Unauthorized");\<newline>'' @
     ''      }\<newline>'' @
     ''\<newline>'' @
     ''      const { events } = c.req.valid("json");\<newline>'' @
     ''\<newline>'' @
     ''      const shardId = c.env.USER_SHARD.idFromName(user.id);\<newline>'' @
     ''      const userShard = c.env.USER_SHARD.get(shardId);\<newline>'' @
     ''\<newline>'' @
     ''      const result = await userShard.save'' @ capitalizedName @ ''(user.id, events);\<newline>'' @
     ''      if ("error" in result) {\<newline>'' @
     ''        return sendError(c, result.statusCode as ContentfulStatusCode, result.error);\<newline>'' @
     ''      }\<newline>'' @
     ''\<newline>'' @
     ''      return send(c, Save'' @ capitalizedName @ ''ResponseSchema, result, 200);\<newline>'' @
     ''    } catch (error) {\<newline>'' @
     ''      console.error("Error saving '' @ name @ '':", error);\<newline>'' @
     ''      return sendError(c, 500, "Internal server error");\<newline>'' @
     ''    }\<newline>'' @
     ''  }\<newline>'' @
     '');\<newline>''\<close>

definition contentfulImport :: string where
  \<open>contentfulImport = ''import { ContentfulStatusCode } from "hono/utils/http-status";\<newline>''\<close>

definition addContentfulImport :: "string \<Rightarrow> string" where
  \<comment> \<open>lines 2382 to 2407, where \<^verbatim>\<open>updatedContent\<close> still is \<^verbatim>\<open>routesContent\<close>\<close>
  \<open>addContentfulImport routesContent =
     (if includes_str routesContent ''ContentfulStatusCode'' then routesContent
      else (case regexMatch honoImportAt routesContent of
              None \<Rightarrow>
                (case indexOfFrom routesContent ''\<newline>'' (indexOf routesContent ''import'') of
                   None \<Rightarrow> routesContent
                 | Some firstImportEnd \<Rightarrow>
                     take (firstImportEnd + 1) routesContent @ contentfulImport @
                     drop (firstImportEnd + 1) routesContent)
            | Some (pre, matched, cap, post) \<Rightarrow>
                (let existingImports = trim cap in
                 if includes_str existingImports ''ContentfulStatusCode'' then routesContent
                 else (let newImports =
                             stripTrailingComma existingImports @ '', ContentfulStatusCode''
                       in replaceString routesContent matched
                            (''import { '' @ newImports @
                             '' } from "hono/utils/http-status";'')))))\<close>

definition schemaImportToAdd :: "string \<Rightarrow> string" where
  \<open>schemaImportToAdd capitalizedName =
     ''import {\<newline>'' @
     ''  Load'' @ capitalizedName @ ''ResponseSchema,\<newline>'' @
     ''  Save'' @ capitalizedName @ ''RequestSchema,\<newline>'' @
     ''  Save'' @ capitalizedName @ ''ResponseSchema,\<newline>'' @
     ''} from "@shared/types/request-response-schemas";\<newline>''\<close>

definition addSchemaImports :: "string \<Rightarrow> string \<Rightarrow> string \<Rightarrow> string" where
  \<comment> \<open>lines 2409 to 2443: the presence test and the pattern look at \<^verbatim>\<open>routesContent\<close>,
      the text as read; the edit is made on \<^verbatim>\<open>updatedContent\<close>\<close>
  \<open>addSchemaImports capitalizedName routesContent updatedContent =
     (if includes_str routesContent (''Load'' @ capitalizedName @ ''ResponseSchema'')
      then updatedContent
      else (case regexMatch (schemasImportAt False) routesContent of
              Some (pre, matched, cap, post) \<Rightarrow>
                (let existingImports = trim cap;
                     cleanedImports = stripTrailingComma existingImports;
                     newImports = cleanedImports @ '',\<newline>'' @
                       ''  Load'' @ capitalizedName @ ''ResponseSchema,\<newline>'' @
                       ''  Save'' @ capitalizedName @ ''RequestSchema,\<newline>'' @
                       ''  Save'' @ capitalizedName @ ''ResponseSchema''
                 in replaceString updatedContent matched
                      (''import {'' @ newImports @ ''\<newline>'' @
                       ''} from "@shared/types/request-response-schemas";''))
            | None \<Rightarrow>
                (case indexOf updatedContent ''import'' of
                   None \<Rightarrow> updatedContent
                 | Some firstImportIndex \<Rightarrow>
                     take firstImportIndex updatedContent @
                     schemaImportToAdd capitalizedName @
                     drop firstImportIndex updatedContent)))\<close>

definition insertRoutes :: "string \<Rightarrow> string \<Rightarrow> string \<Rightarrow> string" where
  \<comment> \<open>lines 2495 to 2516\<close>
  \<open>insertRoutes name capitalizedName updatedContent =
     (case indexOf updatedContent ''app.get("*"'' of
        Some catchallIndex \<Rightarrow>
          take catchallIndex updatedContent @ routesToAdd name capitalizedName @
          ''\<newline>'' @ drop catchallIndex updatedContent
      | None \<Rightarrow>
          (case lastIndexOf updatedContent ''export default'' of
             Some exportDefaultIndex \<Rightarrow>
               take exportDefaultIndex updatedContent @ routesToAdd name capitalizedName @
               ''\<newline>'' @ drop exportDefaultIndex updatedContent
           | None \<Rightarrow> updatedContent @ routesToAdd name capitalizedName))\<close>

definition patchRoutes :: "string \<Rightarrow> string \<Rightarrow> string \<Rightarrow> string" where
  \<comment> \<open>the text written back for the text read\<close>
  "patchRoutes name capitalizedName routesContent =
     insertRoutes name capitalizedName
       (addSchemaImports capitalizedName routesContent (addContentfulImport routesContent))"

definition addRoutesToIndex :: "string \<Rightarrow> string \<Rightarrow> unit io" where
  "addRoutesToIndex name routesPath =
     io_then (emit (SpinnerStart ''Adding routes to index.ts...''))
       (case toPascalCase name of
          Inl e \<Rightarrow> io_throw e
        | Inr capitalizedName \<Rightarrow>
            io_bind (pathExists routesPath) (\<lambda>found.
              if \<not> found
              then emit (SpinnerWarn (''Routes file not found at '' @ routesPath @
                                      '', skipping route generation''))
              else io_bind (readFile routesPath) (\<lambda>routesContent.
                     io_then (writeFile routesPath (patchRoutes name capitalizedName routesContent))
                             (emit (SpinnerSucceed ''Added routes to index.ts'')))))"

section \<open>addUserShardFunctions (create-page.ts, lines 2522 to 2698)\<close>

definition functionsToAdd :: "string \<Rightarrow> string \<Rightarrow> string" where
  \<open>functionsToAdd name capitalizedName =
     ''\<newline>'' @
     ''  async load'' @ capitalizedName @ ''(userId: string): Promise<Load'' @ capitalizedName @ ''Response | ErrorResponse> {\<newline>'' @
     ''    try {\<newline>'' @
     ''      // TODO: Implement load logic for '' @ name @ ''\<newline>'' @
     ''      // Example: Query your schema tables and return data\<newline>'' @
     ''      const data = {\<newline>'' @
     ''        // Add your data loading logic here\<newline>'' @
     ''      };\<newline>'' @
     ''\<newline>'' @
     ''      return {\<newline>'' @
     ''        data,\<newline>'' @
     ''        // Add other response fields as needed\<newline>'' @
     ''      } as Load'' @ capitalizedName @ ''Response;\<newline>'' @
     ''    } catch (error) {\<newline>'' @
     ''      console.error("Error loading '' @ name @ '':", error);\<newline>'' @
     ''      return {\<newline>'' @
     ''        error: "Failed to load '' @ name @ ''",\<newline>'' @
     ''        success: false,\<newline>'' @
     ''        statusCode: 500,\<newline>'' @
     ''      };\<newline>'' @
     ''    }\<newline>'' @
     ''  }\<newline>'' @
     ''\<newline>'' @
     ''  async save'' @ capitalizedName @ ''(\<newline>'' @
     ''    userId: string,\<newline>'' @
     ''    events: '' @ capitalizedName @ ''Event[]\<newline>'' @
     ''  ): Promise<Save'' @ capitalizedName @ ''Response | ErrorResponse> {\<newline>'' @
     ''    try {\<newline>'' @
     ''      const results: '' @ capitalizedName @ ''EventResult[] = [];\<newline>'' @
     ''      let processedCount = 0;\<newline>'' @
     ''\<newline>'' @
     ''      for (const event of events) {\<newline>'' @
     ''        try {\<newline>'' @
     ''          // Server adds persistence metadata\<newline>'' @
     ''          const change: '' @ capitalizedName @ ''Change = {\<newline>'' @
     ''            ...event,\<newline>'' @
     ''            id: crypto.randomUUID(),\<newline>'' @
     ''            timestamp: Date.now(),\<newline>'' @
     ''            description: `${event.type} event`,\<newline>'' @
     ''          };\<newline>'' @
     ''\<newline>'' @
     ''          const result = await handle'' @ capitalizedName @ ''Change(\<newline>'' @
     ''            this.env.DB,\<newline>'' @
     ''            this.shardDb,\<newline>'' @
     ''            change\<newline>'' @
     ''          );\<newline>'' @
     ''\<newline>'' @
     ''          if (result.success && result.result) {\<newline>'' @
     ''            results.push(result.result);\<newline>'' @
     ''            processedCount++;\<newline>'' @
     ''          }\<newline>'' @
     ''        } catch (error) {\<newline>'' @
     ''          console.error("Error processing '' @ name @ '' event:", error, event);\<newline>'' @
     ''        }\<newline>'' @
     ''      }\<newline>'' @
     ''\<newline>'' @
     ''      return {\<newline>'' @
     ''        success: true,\<newline>'' @
     ''        processedCount,\<newline>'' @
     ''        totalChanges: events.length,\<newline>'' @
     ''        results,\<newline>'' @
     ''      } as Save'' @ capitalizedName @ ''Response;\<newline>'' @
     ''    } catch (error) {\<newline>'' @
     ''      console.error("Error saving '' @ name @ '':", error);\<newline>'' @
     ''      return {\<newline>'' @
     ''        error: "Failed to save '' @ name @ '' changes",\<newline>'' @
     ''        success: false,\<newline>'' @
     ''        statusCode: 500,\<newline>'' @
     ''      };\<newline>'' @
     ''    }\<newline>'' @
     ''  }\<newline>''\<close>

fun joinWith :: "string \<Rightarrow> string list \<Rightarrow> string" where
  \<comment> \<open>\<^verbatim>\<open>xs.join(sep)\<close>\<close>
  "joinWith sep [] = []"
| "joinWith sep [x] = x"
| "joinWith sep (x # y # ys) = x @ sep @ joinWith sep (y # ys)"

definition addShardSchemaImports :: "string \<Rightarrow> string \<Rightarrow> string" where
  \<comment> \<open>lines 2544 to 2583\<close>
  \<open>addShardSchemaImports capitalizedName updatedContent =
     (if includes_str updatedContent (''Load'' @ capitalizedName @ ''Response'')
      then updatedContent
      else (case regexMatch (schemasImportAt True) updatedContent of
              Some (pre, matched, cap, post) \<Rightarrow>
                (let existingImports = trim cap;
                     existingImportsList = map trim (splitOn (CHR '','') existingImports);
                     importsToAdd =
                       (if ''ErrorResponse'' \<in> set existingImportsList then []
                        else [''ErrorResponse'']) @
                       [''Load'' @ capitalizedName @ ''Response'',
                        ''Save'' @ capitalizedName @ ''Response''];
                     newImportsList =
                       filter (\<lambda>imp. imp \<notin> set existingImportsList) importsToAdd
                 in if length newImportsList > 0
                    then (let cleanedImports = stripTrailingComma existingImports;
                              newImports = cleanedImports @ '', '' @
                                           joinWith '', '' newImportsList
                          in replaceString updatedContent matched
                               (''import { '' @ newImports @
                                '' } from "@shared/types/request-response-schemas";''))
                    else updatedContent)
            | None \<Rightarrow>
                (case indexOf updatedContent ''import'' of
                   None \<Rightarrow> updatedContent
                 | Some firstImportIndex \<Rightarrow>
                     take firstImportIndex updatedContent @
                     ''import { ErrorResponse, Load'' @ capitalizedName @ ''Response, Save'' @
                     capitalizedName @
                     ''Response } from "@shared/types/request-response-schemas";\<newline>'' @
                     drop firstImportIndex updatedContent)))\<close>

text \<open>
  The pattern for an existing events import is written as a regular-expression literal,
  \<^verbatim>\<open>/import (?:type )?{([^}]+)} from ["']@shared\/types\/${camelName}Events["'];/\<close>.
  In a literal \<^verbatim>\<open>${camelName}\<close> is not interpolated: \<^verbatim>\<open>$\<close> asserts the end of the
  input and is followed by ordinary characters that must still match, so the pattern
  matches no text and the branch for a new import is always taken.
\<close>

definition addShardEventsImports :: "string \<Rightarrow> string \<Rightarrow> string \<Rightarrow> string" where
  \<comment> \<open>lines 2585 to 2610; \<^verbatim>\<open>slice\<close> counts a negative index from the end\<close>
  \<open>addShardEventsImports capitalizedName camelName updatedContent =
     (if includes_str updatedContent (capitalizedName @ ''Event'') then updatedContent
      else (case indexOf updatedContent ''@shared/types/request-response-schemas'' of
              None \<Rightarrow> updatedContent
            | Some schemasImportIndex \<Rightarrow>
                (let lineEndIndex =
                       (case indexOfFrom updatedContent ''\<newline>'' (Some schemasImportIndex) of
                          None \<Rightarrow> length updatedContent - 1
                        | Some i \<Rightarrow> i);
                     importToAdd =
                       ''\<newline>import { '' @ capitalizedName @ ''Event, '' @ capitalizedName @
                       ''Change, '' @ capitalizedName @ ''EventResult, handle'' @
                       capitalizedName @ ''Change } from "@shared/types/'' @ camelName @
                       ''Events";''
                 in take lineEndIndex updatedContent @ importToAdd @
                    drop lineEndIndex updatedContent)))\<close>

definition insertFunctions :: "string \<Rightarrow> string \<Rightarrow> string \<Rightarrow> string" where
  \<comment> \<open>lines 2686 to 2694\<close>
  \<open>insertFunctions name capitalizedName updatedContent =
     (case lastIndexOf updatedContent ''}'' of
        Some lastBraceIndex \<Rightarrow>
          take lastBraceIndex updatedContent @ functionsToAdd name capitalizedName @
          ''\<newline>'' @ drop lastBraceIndex updatedContent
      | None \<Rightarrow> updatedContent)\<close>

definition addUserShardFunctions :: "string \<Rightarrow> string \<Rightarrow> unit io" where
  "addUserShardFunctions name userShardPath =
     io_then (emit (SpinnerStart ''Adding UserShard functions...''))
       (case toPascalCase name of
          Inl e \<Rightarrow> io_throw e
        | Inr capitalizedName \<Rightarrow>
            (case toCamelCase name of
               Inl e \<Rightarrow> io_throw e
             | Inr camelName \<Rightarrow>
                 io_bind (pathExists userShardPath) (\<lambda>found.
                   if \<not> found
                   then emit (SpinnerWarn (''UserShard file not found at '' @ userShardPath @
                                           '', skipping UserShard generation''))
                   else io_bind (readFile userShardPath) (\<lambda>userShardContent.
                          io_then
                            (writeFile userShardPath
                               (insertFunctions name capitalizedName
                                  (addShardEventsImports capitalizedName camelName
                                     (addShardSchemaImports capitalizedName userShardContent))))
                            (emit (SpinnerSucceed ''Added UserShard functions''))))))"

section \<open>Steps of createDashboardPageFlow (create-page.ts, lines 1437 to 2359)\<close>

definition typesToAppend :: "string \<Rightarrow> string \<Rightarrow> string" where
  \<open>typesToAppend capitalizedName camelName =
     ''\<newline>'' @
     ''// '' @ capitalizedName @ '' API Types\<newline>'' @
     ''import type { '' @ capitalizedName @ ''Event, '' @ capitalizedName @ ''EventResult } from "./'' @ camelName @ ''Events";\<newline>'' @
     ''\<newline>'' @
     ''export const Load'' @ capitalizedName @ ''RequestSchema = z.object({});\<newline>'' @
     ''\<newline>'' @
     ''export const Load'' @ capitalizedName @ ''ResponseSchema = z.object({\<newline>'' @
     ''  data: z.any(), // Update this with your specific data schema\<newline>'' @
     ''  // Add your response properties here\<newline>'' @
     ''});\<newline>'' @
     ''\<newline>'' @
     ''export const Save'' @ capitalizedName @ ''RequestSchema = z.object({\<newline>'' @
     ''  events: z.array(z.custom<'' @ capitalizedName @ ''Event>()),\<newline>'' @
     ''});\<newline>'' @
     ''\<newline>'' @
     ''export const Save'' @ capitalizedName @ ''ResponseSchema = z.object({\<newline>'' @
     ''  success: z.boolean(),\<newline>'' @
     ''  processedCount: z.number(),\<newline>'' @
     ''  totalChanges: z.number(),\<newline>'' @
     ''  results: z.array(z.custom<'' @ capitalizedName @ ''EventResult>()),\<newline>'' @
     ''});\<newline>'' @
     ''\<newline>'' @
     ''export type Load'' @ capitalizedName @ ''Request = z.infer<typeof Load'' @ capitalizedName @ ''RequestSchema>;\<newline>'' @
     ''export type Load'' @ capitalizedName @ ''Response = z.infer<typeof Load'' @ capitalizedName @ ''ResponseSchema>;\<newline>'' @
     ''export type Save'' @ capitalizedName @ ''Request = z.infer<typeof Save'' @ capitalizedName @ ''RequestSchema>;\<newline>'' @
     ''export type Save'' @ capitalizedName @ ''Response = z.infer<typeof Save'' @ capitalizedName @ ''ResponseSchema>;''\<close>

definition schemasContent :: "string \<Rightarrow> string \<Rightarrow> string" where
  \<open>schemasContent capitalizedName camelName =
     ''import { z } from "zod";\<newline>'' @
     ''\<newline>'' @
     ''export const ErrorResponseSchema = z.object({\<newline>'' @
     ''  success: z.literal(false),\<newline>'' @
     ''  error: z.string(),\<newline>'' @
     ''  statusCode: z.number(),\<newline>'' @
     ''});\<newline>'' @
     ''\<newline>'' @
     ''export type ErrorResponse = z.infer<typeof ErrorResponseSchema>;\<newline>'' @
     typesToAppend capitalizedName camelName\<close>

definition appendTypesToSchemas :: "string \<Rightarrow> string \<Rightarrow> string \<Rightarrow> unit io" where
  \<comment> \<open>lines 2097 to 2147, the second half of step 8\<close>
  "appendTypesToSchemas capitalizedName camelName schemasPath =
     io_then
       (io_bind (pathExists schemasPath) (\<lambda>found.
          if found
          then io_bind (readFile schemasPath) (\<lambda>existingContent.
                 io_then (writeFile schemasPath
                            (existingContent @ typesToAppend capitalizedName camelName))
                         (emit (SpinnerText ''Created API client and updated schemas'')))
          else io_then (outputFile schemasPath (schemasContent capitalizedName camelName))
                       (emit (SpinnerText ''Created API client and schemas file''))))
       (emit (SpinnerSucceed ''Created API client and updated types''))"

definition schemaStep :: "string \<Rightarrow> string \<Rightarrow> unit io" where
  \<comment> \<open>the schema step with the two forms of the name as the flow computes them at its
      head (lines 1444 and 1445)\<close>
  "schemaStep name schemasPath =
     (case toPascalCase name of
        Inl e \<Rightarrow> io_throw e
      | Inr capitalizedName \<Rightarrow>
          (case toCamelCase name of
             Inl e \<Rightarrow> io_throw e
           | Inr camelName \<Rightarrow> appendTypesToSchemas capitalizedName camelName schemasPath))"

definition createEventsFile :: "(string \<Rightarrow> string \<Rightarrow> string \<Rightarrow> string) \<Rightarrow> string \<Rightarrow> unit io" where
  \<comment> \<open>lines 2700 to 2797; \<open>eventsContent\<close> stands for the template of the events file,
      a text in the three forms of the name\<close>
  "createEventsFile eventsContent name =
     io_then (emit (SpinnerStart ''Creating events file...''))
       (case toPascalCase name of
          Inl e \<Rightarrow> io_throw e
        | Inr capitalizedName \<Rightarrow>
            (case toCamelCase name of
               Inl e \<Rightarrow> io_throw e
             | Inr camelName \<Rightarrow>
                 io_then
                   (outputFile (''shared/types/'' @ camelName @ ''Events.ts'')
                      (eventsContent capitalizedName camelName (toScreamingSnakeCase name)))
                   (emit (SpinnerSucceed ''Created events file''))))"

definition wireDashboard :: "(string \<Rightarrow> string \<Rightarrow> string \<Rightarrow> string) \<Rightarrow> string \<Rightarrow> string \<Rightarrow>
    string \<Rightarrow> unit io" where
  \<comment> \<open>lines 2294 to 2306: steps 11 to 14 of the flow\<close>
  "wireDashboard eventsContent name routesPath userShardPath =
     io_then (addRoutesToIndex name routesPath)
    (io_then (addUserShardFunctions name userShardPath)
    (io_then (createEventsFile eventsContent name)
    (io_then (emit (SpinnerStart ''Updating vite.config.ts...''))
    (io_then (updateViteConfig name)
             (emit (SpinnerSucceed ''Updated vite.config.ts''))))))"

section \<open>updateMainServer (utils/endpoints.ts)\<close>

definition serverFile :: string where
  "serverFile = ''src/server/index.ts''"

definition routerName :: "string \<Rightarrow> string" where
  "routerName routeName =
     (if includes_str routeName ''webhook'' then ''webhookRouter'' else routeName @ ''Router'')"

definition importStatement :: "string \<Rightarrow> string" where
  \<open>importStatement routeName =
     ''import { '' @ routerName routeName @ '' } from \'./'' @
     (if includes_str routeName ''webhook'' then routeName else ''api/'' @ routeName) @
     ''\';''\<close>

definition mountStatement :: "string \<Rightarrow> string" where
  \<open>mountStatement routeName = ''app.route(\'/\', '' @ routerName routeName @ '');''\<close>

definition addImport :: "string \<Rightarrow> string \<Rightarrow> string" where
  \<comment> \<open>lines 40 to 45; \<^verbatim>\<open>slice(0, nextLineIndex + 1)\<close> is empty when no line end is found\<close>
  \<open>addImport routeName content =
     (if \<not> includes_str content (importStatement routeName)
      then (let lastImportIndex = lastIndexOf content ''import '';
                nextLineIndex = indexOfFrom content ''\<newline>'' lastImportIndex;
                cut = (case nextLineIndex of None \<Rightarrow> 0 | Some i \<Rightarrow> i + 1)
            in take cut content @ importStatement routeName @ ''\<newline>'' @ drop cut content)
      else content)\<close>

definition addMount :: "string \<Rightarrow> string \<Rightarrow> string" where
  \<comment> \<open>lines 50 to 56\<close>
  \<open>addMount routeName content =
     (if \<not> includes_str content (mountStatement routeName)
      then (case indexOf content ''app.listen'' of
              Some listenIndex \<Rightarrow>
                take listenIndex content @ mountStatement routeName @ ''\<newline>\<newline>'' @
                drop listenIndex content
            | None \<Rightarrow> content)
      else content)\<close>

definition updateMainServer :: "string \<Rightarrow> unit io" where
  "updateMainServer routeName =
     io_bind (pathExists serverFile) (\<lambda>found.
       if \<not> found
       then emit (ConsoleWarn (''Warning: '' @ serverFile @
                               '' not found. Please manually import and mount the router.''))
       else io_bind (readFile serverFile) (\<lambda>content.
              writeFile serverFile (addMount routeName (addImport routeName content))))"

definition addApiEndpoint :: "string \<Rightarrow> string \<Rightarrow> unit io" where
  "addApiEndpoint name content =
     io_then (outputFile (''src/server/api/'' @ name @ ''.ts'') content) (updateMainServer name)"

definition addWebhookEndpoint :: "string \<Rightarrow> string \<Rightarrow> unit io" where
  "addWebhookEndpoint provider content =
     io_then (outputFile (''src/server/webhooks/'' @ provider @ ''.ts'') content)
             (updateMainServer (''webhooks/'' @ provider))"

section \<open>addToSchema (utils/schema.ts)\<close>

datatype schemaKind = MainSchema | ShardedSchema

definition schemaFile :: "schemaKind \<Rightarrow> string" where
  "schemaFile kind =
     (case kind of MainSchema \<Rightarrow> ''src/server/db/schema.ts''
      | ShardedSchema \<Rightarrow> ''src/server/db/sharded-schema.ts'')"

definition baseSchema :: string where
  \<open>baseSchema =
     ''import { sqliteTable, text, integer, real, blob } from "drizzle-orm/sqlite-core";\<newline>'' @
     ''import { sql } from "drizzle-orm";\<newline>'' @
     ''\<newline>''\<close>

definition addToSchema :: "schemaKind \<Rightarrow> string \<Rightarrow> unit io" where
  "addToSchema kind content =
     io_bind (pathExists (schemaFile kind)) (\<lambda>found.
       io_bind (if found then readFile (schemaFile kind) else io_return baseSchema)
         (\<lambda>existingContent.
            outputFile (schemaFile kind) (existingContent @ ''\<newline>'' @ content)))"

section \<open>Texts without an anchor for the routes\<close>

definition anchorFree :: "string \<Rightarrow> bool" where
  \<comment> \<open>neither a catch-all route nor a default export\<close>
  "anchorFree s \<longleftrightarrow>
     \<not> includes_str s ''app.get(\"*\"'' \<and> \<not> includes_str s ''export default''"

definition rewrittenImportLists :: "string \<Rightarrow> string \<Rightarrow> string list" where
  \<comment> \<open>the import lists that the two import steps of \<open>addRoutesToIndex\<close> copy into a
      replacement text of \<^verbatim>\<open>String.replace\<close>\<close>
  "rewrittenImportLists capitalizedName routesContent =
     (if includes_str routesContent ''ContentfulStatusCode'' then []
      else (case regexMatch honoImportAt routesContent of
              None \<Rightarrow> []
            | Some (pre, matched, existingImports, post) \<Rightarrow> [existingImports])) @
     (if includes_str routesContent (''Load'' @ capitalizedName @ ''ResponseSchema'') then []
      else (case regexMatch (schemasImportAt False) routesContent of
              None \<Rightarrow> []
            | Some (pre, matched, existingImports, post) \<Rightarrow> [existingImports]))"

section \<open>Example worlds\<close>

definition emptyWorld :: world where
  "emptyWorld = \<lparr>files = Map.empty, dirs = {}, trace = []\<rparr>"

definition noFlows :: flows where
  "noFlows = \<lparr>createStaticPageFlow = (\<lambda>_. io_return ()),
              createFeedPageFlow = (\<lambda>_ _ _ _. io_return ()),
              createDashboardPageFlow = (\<lambda>_ _ _ _. io_return ())\<rparr>"

definition defaultOptions :: options where
  "defaultOptions = \<lparr>pageType = ''static'',
                     schemas = ''shared/types/request-response-schemas.ts'',
                     routes = ''src/index.ts'',
                     userShard = ''src/durable-objects/user-shard/UserShard.ts'',
                     yes = True\<rparr>"

definition afterFirstRun :: world where
  "afterFirstRun = snd (outputFile ''src/client/user-profile/index.html'' ''<!doctype html>'' emptyWorld)"

definition schemaWorld :: world where
  \<open>schemaWorld =
     \<lparr>files = [''schemas.ts'' \<mapsto> ''import { z } from "zod";\<newline>''], dirs = {}, trace = []\<rparr>\<close>

definition userProfileTypes :: string where
  \<comment> \<open>the declarations the schema step generates for \<^verbatim>\<open>user-profile\<close>\<close>
  \<open>userProfileTypes =
     ''\<newline>'' @
     ''// UserProfile API Types\<newline>'' @
     ''import type { UserProfileEvent, UserProfileEventResult } from "./userProfileEvents";\<newline>'' @
     ''\<newline>'' @
     ''export const LoadUserProfileRequestSchema = z.object({});\<newline>'' @
     ''\<newline>'' @
     ''export const LoadUserProfileResponseSchema = z.object({\<newline>'' @
     ''  data: z.any(), // Update this with your specific data schema\<newline>'' @
     ''  // Add your response properties here\<newline>'' @
     ''});\<newline>'' @
     ''\<newline>'' @
     ''export const SaveUserProfileRequestSchema = z.object({\<newline>'' @
     ''  events: z.array(z.custom<UserProfileEvent>()),\<newline>'' @
     ''});\<newline>'' @
     ''\<newline>'' @
     ''export const SaveUserProfileResponseSchema = z.object({\<newline>'' @
     ''  success: z.boolean(),\<newline>'' @
     ''  processedCount: z.number(),\<newline>'' @
     ''  totalChanges: z.number(),\<newline>'' @
     ''  results: z.array(z.custom<UserProfileEventResult>()),\<newline>'' @
     ''});\<newline>'' @
     ''\<newline>'' @
     ''export type LoadUserProfileRequest = z.infer<typeof LoadUserProfileRequestSchema>;\<newline>'' @
     ''export type LoadUserProfileResponse = z.infer<typeof LoadUserProfileResponseSchema>;\<newline>'' @
     ''export type SaveUserProfileRequest = z.infer<typeof SaveUserProfileRequestSchema>;\<newline>'' @
     ''export type SaveUserProfileResponse = z.infer<typeof SaveUserProfileResponseSchema>;''\<close>

definition blockedWorld :: world where
  \<comment> \<open>a regular file stands where the directory of the schema file should be\<close>
  "blockedWorld =
     \<lparr>files = [''shared/types'' \<mapsto> ''not a directory''], dirs = {''shared''}, trace = []\<rparr>"

definition eventsStub :: "string \<Rightarrow> string \<Rightarrow> string \<Rightarrow> string" where
  \<comment> \<open>a short text in place of the template of the events file\<close>
  \<open>eventsStub capitalizedName camelName snakeName =
     ''export type '' @ capitalizedName @ ''Event = { type: "'' @ snakeName @ ''" };\<newline>''\<close>

definition shardOnlyWorld :: world where
  \<comment> \<open>the UserShard file is in place, the routes file is not\<close>
  "shardOnlyWorld =
     \<lparr>files = [''src/durable-objects/user-shard/UserShard.ts'' \<mapsto> ''export class UserShard {}''],
      dirs = {}, trace = []\<rparr>"

definition plainViteWorld :: world where
  "plainViteWorld =
     \<lparr>files = [''vite.config.ts'' \<mapsto> ''export default defineConfig({ plugins: [solid()] });''],
      dirs = {}, trace = []\<rparr>"

definition routesText :: string where
  \<open>routesText =
     ''import { Hono } from "hono";\<newline>'' @
     ''const app = new Hono();\<newline>'' @
     ''export default app;\<newline>''\<close>

definition routesWorld :: world where
  "routesWorld = \<lparr>files = [''src/index.ts'' \<mapsto> routesText], dirs = {}, trace = []\<rparr>"

definition routesHead :: string where
  \<comment> \<open>\<open>routesText\<close> after the two import steps for \<^verbatim>\<open>user-profile\<close>, up to its last line\<close>
  \<open>routesHead =
     ''import {\<newline>'' @
     ''  LoadUserProfileResponseSchema,\<newline>'' @
     ''  SaveUserProfileRequestSchema,\<newline>'' @
     ''  SaveUserProfileResponseSchema,\<newline>'' @
     ''} from "@shared/types/request-response-schemas";\<newline>'' @
     ''import { Hono } from "hono";\<newline>'' @
     ''import { ContentfulStatusCode } from "hono/utils/http-status";\<newline>'' @
     ''const app = new Hono();\<newline>''\<close>

definition serverWorld :: "string \<Rightarrow> world" where
  "serverWorld text = \<lparr>files = [''src/server/index.ts'' \<mapsto> text], dirs = {}, trace = []\<rparr>"

definition baseViteText :: string where
  \<open>baseViteText =
     ''export default defineConfig({\<newline>'' @
     ''  build: {\<newline>'' @
     ''    rollupOptions: {\<newline>'' @
     ''      input: {\<newline>'' @
     ''        main: resolve(__dirname, "src/client/index.html"),\<newline>'' @
     ''      },\<newline>'' @
     ''    },\<newline>'' @
     ''  },\<newline>'' @
     ''});\<newline>''\<close>

definition adminViteText :: string where
  \<comment> \<open>\<open>baseViteText\<close> after \<^verbatim>\<open>create-page admin-user-profile\<close>\<close>
  \<open>adminViteText =
     ''export default defineConfig({\<newline>'' @
     ''  build: {\<newline>'' @
     ''    rollupOptions: {\<newline>'' @
     ''      input: {\<newline>'' @
     ''        main: resolve(__dirname, "src/client/index.html"),\<newline>'' @
     ''        admin-user-profile: resolve(__dirname, "src/client/admin-user-profile/index.html"),\<newline>'' @
     ''      },\<newline>'' @
     ''    },\<newline>'' @
     ''  },\<newline>'' @
     ''});\<newline>''\<close>

definition viteWorld :: "string \<Rightarrow> world" where
  "viteWorld text = \<lparr>files = [''vite.config.ts'' \<mapsto> text], dirs = {}, trace = []\<rparr>"

definition plainRoutesText :: string where
  \<comment> \<open>a route file with neither a catch-all route nor a default export\<close>
  \<open>plainRoutesText =
     ''import { Hono } from "hono";\<newline>'' @
     ''const app = new Hono();\<newline>''\<close>

definition dollarRoutesText :: string where
  \<comment> \<open>one line, in which an imported name ends in \<^verbatim>\<open>$'\<close>\<close>
  \<open>dollarRoutesText =
     ''import {app.get($\', } from "@shared/types/request-response-schemas";"*"''\<close>

definition userProfileRoutes :: string where
  \<comment> \<open>the route block for \<^verbatim>\<open>user-profile\<close>\<close>
  \<open>userProfileRoutes =
     ''\<newline>'' @
     ''// UserProfile endpoints\<newline>'' @
     ''app.get("/api/user-profile/load", async (c) => {\<newline>'' @
     ''  const user = await getAuthenticatedUser(c);\<newline>'' @
     ''  if (!user) {\<newline>'' @
     ''    return sendError(c, 401, "Unauthorized");\<newline>'' @
     ''  }\<newline>'' @
     ''\<newline>'' @
     ''  const shardId = c.env.USER_SHARD.idFromName(user.id);\<newline>'' @
     ''  const userShard = c.env.USER_SHARD.get(shardId);\<newline>'' @
     ''\<newline>'' @
     ''  const result = await userShard.loadUserProfile(user.id);\<newline>'' @
     ''\<newline>'' @
     ''  if ("error" in result) {\<newline>'' @
     ''    return sendError(c, 500, result.error);\<newline>'' @
     ''  }\<newline>'' @
     ''\<newline>'' @
     ''  return send(c, LoadUserProfileResponseSchema, result, 200);\<newline>'' @
     ''});\<newline>'' @
     ''\<newline>'' @
     ''app.post(\<newline>'' @
     ''  "/api/user-profile/save",\<newline>'' @
     ''  zValidator("json", SaveUserProfileRequestSchema),\<newline>'' @
     ''  async (c) => {\<newline>'' @
     ''    try {\<newline>'' @
     ''      const user = await getAuthenticatedUser(c);\<newline>'' @
     ''      if (!user) {\<newline>'' @
     ''        return sendError(c, 401, "Unauthorized");\<newline>'' @
     ''      }\<newline>'' @
     ''\<newline>'' @
     ''      const { events } = c.req.valid("json");\<newline>'' @
     ''\<newline>'' @
     ''      const shardId = c.env.USER_SHARD.idFromName(user.id);\<newline>'' @
     ''      const userShard = c.env.USER_SHARD.get(shardId);\<newline>'' @
     ''\<newline>'' @
     ''      const result = await userShard.saveUserProfile(user.id, events);\<newline>'' @
     ''      if ("error" in result) {\<newline>'' @
     ''        return sendError(c, result.statusCode as ContentfulStatusCode, result.error);\<newline>'' @
     ''      }\<newline>'' @
     ''\<newline>'' @
     ''      return send(c, SaveUserProfileResponseSchema, result, 200);\<newline>'' @
     ''    } catch (error) {\<newline>'' @
     ''      console.error("Error saving user-profile:", error);\<newline>'' @
     ''      return sendError(c, 500, "Internal server error");\<newline>'' @
     ''    }\<newline>'' @
     ''  }\<newline>'' @
     '');\<newline>''\<close>

definition backtickRoutesText :: string where
  \<comment> \<open>one line, in which an imported name ends in a dollar sign and a backquote\<close>
  \<open>backtickRoutesText =
     ''"*"import {app.get($`} from "hono/utils/http-status"''\<close>

definition templateRoutesText :: string where
  \<comment> \<open>a route file without an anchor, with dollar signs in an import list and in a
      template literal\<close>
  \<open>templateRoutesText =
     ''import { $fetch } from "hono/utils/http-status";\<newline>'' @
     ''const greet = (n) => `hi ${n}`;\<newline>''\<close>

definition templateHead :: string where
  \<comment> \<open>\<open>templateRoutesText\<close> after the two import steps for \<^verbatim>\<open>user-profile\<close>\<close>
  \<open>templateHead =
     ''import {\<newline>'' @
     ''  LoadUserProfileResponseSchema,\<newline>'' @
     ''  SaveUserProfileRequestSchema,\<newline>'' @
     ''  SaveUserProfileResponseSchema,\<newline>'' @
     ''} from "@shared/types/request-response-schemas";\<newline>'' @
     ''import { $fetch, ContentfulStatusCode } from "hono/utils/http-status";\<newline>'' @
     ''const greet = (n) => `hi ${n}`;\<newline>''\<close>

definition routesFileWorld :: "string \<Rightarrow> world" where
  "routesFileWorld text = \<lparr>files = [''src/index.ts'' \<mapsto> text], dirs = {}, trace = []\<rparr>"

section \<open>Properties of the name transforms\<close>

lemma splitOn_not_Nil: "splitOn sep s \<noteq> []"
  by (induction s) (auto split: list.splits)

lemma splitOn_parts: "p \<in> set (splitOn sep s) \<Longrightarrow> set p \<subseteq> set s \<and> sep \<notin> set p"
proof (induction s arbitrary: p)
  case Nil
  then show ?case by simp
next
  case (Cons c cs)
  show ?case
  proof (cases "c = sep")
    case True
    with Cons show ?thesis by auto
  next
    case False
    obtain q qs where q: "splitOn sep cs = q # qs"
      using splitOn_not_Nil by (cases "splitOn sep cs") auto
    with False Cons.prems have "p = c # q \<or> p \<in> set qs" by auto
    then show ?thesis
    proof
      assume "p = c # q"
      moreover have "set q \<subseteq> set cs \<and> sep \<notin> set q" using Cons.IH[of q] q by simp
      ultimately show ?thesis using False by auto
    next
      assume "p \<in> set qs"
      then have "p \<in> set (splitOn sep cs)" using q by simp
      from Cons.IH[OF this] show ?thesis by auto
    qed
  qed
qed

lemma splitOn_head: "c \<noteq> sep \<Longrightarrow> \<exists>p ps. splitOn sep (c # cs) = (c # p) # ps"
  using splitOn_not_Nil[of sep cs] by (cases "splitOn sep cs") auto

lemma upperChar_lower: "c \<in> set lowerLetters \<Longrightarrow> upperChar c \<in> set upperLetters"
  by (auto simp: lowerLetters_def upperLetters_def upperChar_def)

lemma upperChar_alnum:
  "isLowerAlnum c \<Longrightarrow> upperChar c \<in> set upperLetters \<union> set digitChars"
  by (auto simp: isLowerAlnum_def lowerLetters_def upperLetters_def digitChars_def upperChar_def)

lemma hyphen_not_alnum: "\<not> isLowerAlnum (CHR ''-'')"
  by (simp add: isLowerAlnum_def lowerLetters_def digitChars_def)

lemma lower_is_alnum: "c \<in> set lowerLetters \<Longrightarrow> isLowerAlnum c"
  by (simp add: isLowerAlnum_def)

lemma shapeOk_parts:
  assumes "shapeOk x"
  shows "\<forall>p \<in> set (nameParts x). segmentOk p"
    and "\<exists>c p ps. c \<in> set lowerLetters \<and> nameParts x = (c # p) # ps"
proof -
  from assms obtain c cs where x: "x = c # cs" and c: "c \<in> set lowerLetters"
    and cs: "list_all (\<lambda>d. isLowerAlnum d \<or> d = CHR ''-'') cs"
    by (auto simp: shapeOk_def split: list.splits)
  have all: "\<forall>d \<in> set x. isLowerAlnum d \<or> d = CHR ''-''"
    using x c cs by (auto simp: list_all_iff lower_is_alnum)
  show "\<forall>p \<in> set (nameParts x). segmentOk p"
  proof
    fix p assume "p \<in> set (nameParts x)"
    then have p: "p \<in> set (splitOn (CHR ''-'') x)" and ne: "p \<noteq> []"
      by (auto simp: nameParts_def)
    from splitOn_parts[OF p] all have "\<forall>d \<in> set p. isLowerAlnum d" by auto
    with ne show "segmentOk p" by (simp add: segmentOk_def list_all_iff)
  qed
  have "c \<noteq> CHR ''-''" using c hyphen_not_alnum lower_is_alnum by auto
  from splitOn_head[OF this, of cs] obtain p ps where "splitOn (CHR ''-'') x = (c # p) # ps"
    using x by auto
  then show "\<exists>c p ps. c \<in> set lowerLetters \<and> nameParts x = (c # p) # ps"
    using c by (auto simp: nameParts_def)
qed

lemma find_None_segments: "\<forall>p \<in> set ps. segmentOk p \<Longrightarrow> find (\<lambda>part. \<not> segmentOk part) ps = None"
  by (simp add: find_None_iff)

lemma capitalize_chars:
  "segmentOk p \<Longrightarrow> set (capitalize p) \<subseteq> set lowerLetters \<union> set upperLetters \<union> set digitChars"
proof -
  assume a: "segmentOk p"
  then obtain c cs where p: "p = c # cs" by (cases p) (auto simp: segmentOk_def)
  with a have "isLowerAlnum c" and "\<forall>d \<in> set cs. isLowerAlnum d"
    by (auto simp: segmentOk_def list_all_iff)
  then show ?thesis using p upperChar_alnum[of c]
    by (auto simp: capitalize_def isLowerAlnum_def)
qed

lemma segment_chars: "segmentOk p \<Longrightarrow> set p \<subseteq> alnumChars"
  by (auto simp: segmentOk_def list_all_iff isLowerAlnum_def alnumChars_def)

lemma toPascalCase_shape:
  assumes "shapeOk x"
  shows "\<exists>u rest. u \<in> set upperLetters \<and> toPascalCase x = Inr (u # rest) \<and> set (u # rest) \<subseteq> alnumChars"
proof -
  from shapeOk_parts[OF assms] obtain c p ps where
    seg: "\<forall>q \<in> set (nameParts x). segmentOk q" and c: "c \<in> set lowerLetters"
    and parts: "nameParts x = (c # p) # ps" by blast
  have ne: "x \<noteq> []" using assms by (auto simp: shapeOk_def)
  have r: "toPascalCase x = Inr (upperChar c # p @ concat (map capitalize ps))"
    using ne parts find_None_segments[OF seg]
    by (simp add: toPascalCase_def Let_def capitalize_def)
  have "set (concat (map capitalize (nameParts x))) \<subseteq> alnumChars"
    using seg capitalize_chars by (fastforce simp: alnumChars_def)
  then have "set (upperChar c # p @ concat (map capitalize ps)) \<subseteq> alnumChars"
    using parts by (simp add: capitalize_def)
  with r upperChar_lower[OF c] show ?thesis by blast
qed

lemma toCamelCase_shape:
  assumes "shapeOk x"
  shows "\<exists>l rest. l \<in> set lowerLetters \<and> toCamelCase x = Inr (l # rest) \<and> set (l # rest) \<subseteq> alnumChars"
proof -
  from shapeOk_parts[OF assms] obtain c p ps where
    seg: "\<forall>q \<in> set (nameParts x). segmentOk q" and c: "c \<in> set lowerLetters"
    and parts: "nameParts x = (c # p) # ps" by blast
  have ne: "x \<noteq> []" using assms by (auto simp: shapeOk_def)
  have r: "toCamelCase x = Inr (c # p @ concat (map capitalize ps))"
    using ne parts find_None_segments[OF seg]
    by (simp add: toCamelCase_def Let_def)
  have "set (c # p) \<subseteq> alnumChars" using seg parts segment_chars[of "c # p"] by simp
  moreover have "set (concat (map capitalize ps)) \<subseteq> alnumChars"
    using seg parts capitalize_chars by (fastforce simp: alnumChars_def)
  ultimately have "set (c # p @ concat (map capitalize ps)) \<subseteq> alnumChars" by simp
  with r c show ?thesis by blast
qed

lemma hyphen_not_alnumChars: "CHR ''-'' \<notin> alnumChars"
  by (simp add: alnumChars_def lowerLetters_def upperLetters_def digitChars_def)

text \<open>
  Claim C4. On every name of the shape \<^verbatim>\<open>^[a-z][a-z0-9-]*$\<close> both \<open>toPascalCase\<close> and
  \<open>toCamelCase\<close> return a value (\<open>Inr\<close>, no exception); being functions they return
  the same value on the same name. The camel-case form starts with a lower-case letter,
  the Pascal-case form with an upper-case letter, and neither contains a hyphen.
\<close>

theorem name_transforms_total:
  assumes "shapeOk x"
  shows "\<exists>l ls u us. toCamelCase x = Inr (l # ls) \<and> toPascalCase x = Inr (u # us) \<and>
           l \<in> set lowerLetters \<and> u \<in> set upperLetters \<and>
           CHR ''-'' \<notin> set (l # ls) \<and> CHR ''-'' \<notin> set (u # us)"
proof -
  from toPascalCase_shape[OF assms] obtain u us where
    "u \<in> set upperLetters" "toPascalCase x = Inr (u # us)" "set (u # us) \<subseteq> alnumChars" by blast
  moreover from toCamelCase_shape[OF assms] obtain l ls where
    "l \<in> set lowerLetters" "toCamelCase x = Inr (l # ls)" "set (l # ls) \<subseteq> alnumChars" by blast
  ultimately show ?thesis using hyphen_not_alnumChars by blast
qed

lemma shape_user_profile: "shapeOk ''user-profile''"
  by (simp add: shapeOk_def lowerLetters_def digitChars_def isLowerAlnum_def)

lemmas name_eval = toPascalCase_def toCamelCase_def toScreamingSnakeCase_def toUpperCase_def
  nameParts_def segmentOk_def isLowerAlnum_def lowerLetters_def digitChars_def
  capitalize_def upperChar_def upperLetters_def

lemma pascal_user_profile: "toPascalCase ''user-profile'' = Inr ''UserProfile''"
  by (simp add: name_eval)
lemma camel_user_profile: "toCamelCase ''user-profile'' = Inr ''userProfile''"
  by (simp add: name_eval)
lemma snake_user_profile: "toScreamingSnakeCase ''user-profile'' = ''USER_PROFILE''"
  by (simp add: name_eval)

theorem name_transforms_total_witness:
  "shapeOk ''user-profile'' \<and>
   (\<exists>l ls u us. toCamelCase ''user-profile'' = Inr (l # ls) \<and>
      toPascalCase ''user-profile'' = Inr (u # us) \<and>
      l \<in> set lowerLetters \<and> u \<in> set upperLetters \<and>
      CHR ''-'' \<notin> set (l # ls) \<and> CHR ''-'' \<notin> set (u # us))"
  using name_transforms_total[OF shape_user_profile] shape_user_profile by simp

section \<open>Properties of the command\<close>

lemmas io_defs = io_bind_def io_then_def io_return_def io_throw_def io_catch_def emit_def
  pathExists_def readFile_def writeFile_def outputFile_def

lemmas validate_eval = validateName_def trim_def trimEnd_def isWhiteSpace_def shapeOk_def
  isLowerAlnum_def lowerLetters_def digitChars_def includes_str_def reservedKeywords_def
  reservedNames_def suffix_def

lemma validate_class:
  "validateName ''class'' = Some ''Page name \"class\" is a reserved JavaScript/TypeScript keyword''"
  by (simp add: validate_eval)

lemma validate_import:
  "validateName ''import'' = Some ''Page name \"import\" is a reserved JavaScript/TypeScript keyword''"
  by (simp add: validate_eval)

lemma validate_default:
  "validateName ''default'' = Some ''Page name \"default\" is a reserved JavaScript/TypeScript keyword''"
  by (simp add: validate_eval)

lemma validate_index:
  "validateName ''index'' = Some ''Page name \"index\" is a reserved name and might cause conflicts''"
  by (simp add: validate_eval)

lemma action_rejects:
  "validateName name = Some msg \<Longrightarrow>
   createPageAction fl answer name opts w =
     (Inl (ProcessExit 1),
      w\<lparr>trace := trace w @ [ConsoleLog (''Creating '' @ pageType opts @ '' page: '' @ name),
                            ConsoleError msg]\<rparr>)"
  by (simp add: createPageAction_def io_defs)

lemma action_collision:
  "validateName name = None \<Longrightarrow> isPath w (pagePathOf name) \<Longrightarrow>
   createPageAction fl answer name opts w =
     (Inl (ProcessExit 1),
      w\<lparr>trace := trace w @ [ConsoleLog (''Creating '' @ pageType opts @ '' page: '' @ name),
                            FsPathExists (pagePathOf name),
                            ConsoleError (''Page \"'' @ name @ ''\" already exists at '' @
                                          pagePathOf name)]\<rparr>)"
  by (simp add: createPageAction_def io_defs isPath_def)

text \<open>
  Claim C6. The names \<open>class\<close>, \<open>import\<close>, \<open>index\<close> and \<open>default\<close> are rejected: the
  action leaves the process with code 1 after one line on the error stream, and the
  world it leaves differs from the one it found by two console lines only, so no file
  was read or written.
\<close>

theorem reserved_names_rejected:
  "createPageAction fl answer ''class'' opts w =
     (Inl (ProcessExit 1),
      w\<lparr>trace := trace w @
         [ConsoleLog (''Creating '' @ pageType opts @ '' page: class''),
          ConsoleError ''Page name \"class\" is a reserved JavaScript/TypeScript keyword'']\<rparr>) \<and>
   createPageAction fl answer ''import'' opts w =
     (Inl (ProcessExit 1),
      w\<lparr>trace := trace w @
         [ConsoleLog (''Creating '' @ pageType opts @ '' page: import''),
          ConsoleError ''Page name \"import\" is a reserved JavaScript/TypeScript keyword'']\<rparr>) \<and>
   createPageAction fl answer ''index'' opts w =
     (Inl (ProcessExit 1),
      w\<lparr>trace := trace w @
         [ConsoleLog (''Creating '' @ pageType opts @ '' page: index''),
          ConsoleError ''Page name \"index\" is a reserved name and might cause conflicts'']\<rparr>) \<and>
   createPageAction fl answer ''default'' opts w =
     (Inl (ProcessExit 1),
      w\<lparr>trace := trace w @
         [ConsoleLog (''Creating '' @ pageType opts @ '' page: default''),
          ConsoleError ''Page name \"default\" is a reserved JavaScript/TypeScript keyword'']\<rparr>)"
  using action_rejects[OF validate_class] action_rejects[OF validate_import]
    action_rejects[OF validate_index] action_rejects[OF validate_default]
  by simp

theorem reserved_names_rejected_witness:
  "fst (createPageAction noFlows True ''class'' defaultOptions emptyWorld) = Inl (ProcessExit 1) \<and>
   fst (createPageAction noFlows True ''import'' defaultOptions emptyWorld) = Inl (ProcessExit 1) \<and>
   fst (createPageAction noFlows True ''index'' defaultOptions emptyWorld) = Inl (ProcessExit 1) \<and>
   fst (createPageAction noFlows True ''default'' defaultOptions emptyWorld) = Inl (ProcessExit 1) \<and>
   trace (snd (createPageAction noFlows True ''index'' defaultOptions emptyWorld)) =
     [ConsoleLog ''Creating static page: index'',
      ConsoleError ''Page name \"index\" is a reserved name and might cause conflicts'']"
  using reserved_names_rejected[of noFlows True defaultOptions emptyWorld]
  by (simp add: defaultOptions_def emptyWorld_def)

text \<open>
  Claim C5. While the page directory \<^verbatim>\<open>src/client/<name>\<close> exists, the action leaves the
  process with code 1 and the world it leaves differs from the one it found by console
  lines and one existence test only: no file is written. For a name that passes the
  checks the line on the error stream is the collision message.
\<close>

theorem collision_guard:
  assumes "isPath w (pagePathOf name)"
  shows "createPageAction fl answer name opts w =
     (Inl (ProcessExit 1),
      w\<lparr>trace := trace w @
         (case validateName name of
            Some msg \<Rightarrow>
              [ConsoleLog (''Creating '' @ pageType opts @ '' page: '' @ name),
               ConsoleError msg]
          | None \<Rightarrow>
              [ConsoleLog (''Creating '' @ pageType opts @ '' page: '' @ name),
               FsPathExists (pagePathOf name),
               ConsoleError (''Page \"'' @ name @ ''\" already exists at '' @
                             pagePathOf name)])\<rparr>)"
proof (cases "validateName name")
  case None
  then show ?thesis using action_collision[OF None assms] by simp
next
  case (Some msg)
  then show ?thesis using action_rejects[OF Some] by simp
qed

lemma validate_user_profile: "validateName ''user-profile'' = None"
  by (simp add: validate_eval name_eval)

lemma afterFirstRun_dir: "isPath afterFirstRun (pagePathOf ''user-profile'')"
  by (simp add: afterFirstRun_def outputFile_def emptyWorld_def isPath_def pagePathOf_def)

theorem collision_guard_witness:
  "isPath afterFirstRun (pagePathOf ''user-profile'') \<and>
   createPageAction noFlows True ''user-profile'' defaultOptions afterFirstRun =
     (Inl (ProcessExit 1),
      afterFirstRun\<lparr>trace := trace afterFirstRun @
         [ConsoleLog ''Creating static page: user-profile'',
          FsPathExists ''src/client/user-profile'',
          ConsoleError ''Page \"user-profile\" already exists at src/client/user-profile'']\<rparr>)"
  using collision_guard[OF afterFirstRun_dir, of noFlows True defaultOptions] afterFirstRun_dir
  by (simp add: validate_user_profile defaultOptions_def pagePathOf_def)

section \<open>Missing collaborator files\<close>

lemma isPath_trace [simp]: "isPath (w\<lparr>trace := t\<rparr>) p = isPath w p"
  by (simp add: isPath_def)

lemma addRoutesToIndex_missing:
  assumes "toPascalCase name = Inr capitalizedName" and "\<not> isPath w routesPath"
  shows "addRoutesToIndex name routesPath w =
     (Inr (),
      w\<lparr>trace := trace w @
         [SpinnerStart ''Adding routes to index.ts...'',
          FsPathExists routesPath,
          SpinnerWarn (''Routes file not found at '' @ routesPath @
                       '', skipping route generation'')]\<rparr>)"
  using assms by (simp add: addRoutesToIndex_def io_defs)

lemma addUserShardFunctions_missing:
  assumes "toPascalCase name = Inr capitalizedName" and "toCamelCase name = Inr camelName"
    and "\<not> isPath w userShardPath"
  shows "addUserShardFunctions name userShardPath w =
     (Inr (),
      w\<lparr>trace := trace w @
         [SpinnerStart ''Adding UserShard functions...'',
          FsPathExists userShardPath,
          SpinnerWarn (''UserShard file not found at '' @ userShardPath @
                       '', skipping UserShard generation'')]\<rparr>)"
  using assms by (simp add: addUserShardFunctions_def io_defs)

lemma addRoutesToIndex_patches:
  assumes "toPascalCase name = Inr cap" and "files w routesPath = Some c"
  shows "addRoutesToIndex name routesPath w =
     (Inr (),
      w\<lparr>files := (files w)(routesPath \<mapsto> patchRoutes name cap c),
        trace := trace w @
          [SpinnerStart ''Adding routes to index.ts...'',
           FsPathExists routesPath,
           FsReadFile routesPath,
           FsWriteFile routesPath (patchRoutes name cap c),
           SpinnerSucceed ''Added routes to index.ts'']\<rparr>)"
  using assms by (simp add: addRoutesToIndex_def io_defs isPath_def)

lemma addRoutesToIndex_isPath:
  "isPath (snd (addRoutesToIndex name routesPath w)) p \<longleftrightarrow> isPath w p"
  by (auto simp: addRoutesToIndex_def io_defs isPath_def split: sum.splits option.splits)

text \<open>
  Claim C7. For a name of the identifier shape: when the routes file does not exist,
  \<open>addRoutesToIndex\<close> returns normally after a warning on the spinner, and when the
  UserShard file does not exist, \<open>addUserShardFunctions\<close> does; in both cases the world
  changes by the trace only, so no file is modified. The sequence of steps 11 to 14 of
  the dashboard flow goes on in each case. When the routes file is missing, the flow
  is the UserShard step and the later steps (the events file and the build-tool
  config), run in the world with the three trace events of the skipped step. When the
  UserShard file is missing and the routes step has returned, the flow is the later
  steps, run in the world the routes step left with the three trace events of the
  skipped UserShard step. When both are missing, it is the later steps after the six
  trace events.
\<close>

theorem missing_collaborators_skipped:
  assumes "shapeOk name"
  shows
    "let routesSkipped =
           [SpinnerStart ''Adding routes to index.ts...'',
            FsPathExists routesPath,
            SpinnerWarn (''Routes file not found at '' @ routesPath @
                         '', skipping route generation'')];
         shardSkipped =
           [SpinnerStart ''Adding UserShard functions...'',
            FsPathExists userShardPath,
            SpinnerWarn (''UserShard file not found at '' @ userShardPath @
                         '', skipping UserShard generation'')];
         laterSteps =
           io_then (createEventsFile eventsContent name)
             (io_then (emit (SpinnerStart ''Updating vite.config.ts...''))
                (io_then (updateViteConfig name)
                   (emit (SpinnerSucceed ''Updated vite.config.ts''))))
     in (\<not> isPath w routesPath \<longrightarrow>
           addRoutesToIndex name routesPath w =
             (Inr (), w\<lparr>trace := trace w @ routesSkipped\<rparr>)) \<and>
        (\<not> isPath w userShardPath \<longrightarrow>
           addUserShardFunctions name userShardPath w =
             (Inr (), w\<lparr>trace := trace w @ shardSkipped\<rparr>)) \<and>
        (\<not> isPath w routesPath \<longrightarrow>
           wireDashboard eventsContent name routesPath userShardPath w =
             io_then (addUserShardFunctions name userShardPath) laterSteps
               (w\<lparr>trace := trace w @ routesSkipped\<rparr>)) \<and>
        (\<not> isPath w userShardPath \<and> addRoutesToIndex name routesPath w = (Inr (), w') \<longrightarrow>
           wireDashboard eventsContent name routesPath userShardPath w =
             laterSteps (w'\<lparr>trace := trace w' @ shardSkipped\<rparr>)) \<and>
        (\<not> isPath w routesPath \<and> \<not> isPath w userShardPath \<longrightarrow>
           wireDashboard eventsContent name routesPath userShardPath w =
             laterSteps (w\<lparr>trace := trace w @ routesSkipped @ shardSkipped\<rparr>))"
proof -
  from toPascalCase_shape[OF assms] obtain u us where p: "toPascalCase name = Inr (u # us)"
    by blast
  from toCamelCase_shape[OF assms] obtain l ls where c: "toCamelCase name = Inr (l # ls)"
    by blast
  let ?rs = "[SpinnerStart ''Adding routes to index.ts...'',
              FsPathExists routesPath,
              SpinnerWarn (''Routes file not found at '' @ routesPath @
                           '', skipping route generation'')]"
  let ?ss = "[SpinnerStart ''Adding UserShard functions...'',
              FsPathExists userShardPath,
              SpinnerWarn (''UserShard file not found at '' @ userShardPath @
                           '', skipping UserShard generation'')]"
  let ?later = "io_then (createEventsFile eventsContent name)
                  (io_then (emit (SpinnerStart ''Updating vite.config.ts...''))
                     (io_then (updateViteConfig name)
                        (emit (SpinnerSucceed ''Updated vite.config.ts''))))"
  note r = addRoutesToIndex_missing[OF p]
  note s = addUserShardFunctions_missing[OF p c]
  have k1: "addRoutesToIndex name routesPath w = (Inr (), w\<lparr>trace := trace w @ ?rs\<rparr>)"
    if "\<not> isPath w routesPath"
    using r[OF that] .
  have k2: "addUserShardFunctions name userShardPath w = (Inr (), w\<lparr>trace := trace w @ ?ss\<rparr>)"
    if "\<not> isPath w userShardPath"
    using s[OF that] .
  have step: "wireDashboard eventsContent name routesPath userShardPath w =
                io_then (addUserShardFunctions name userShardPath) ?later v"
    if "addRoutesToIndex name routesPath w = (Inr (), v)" for v
    unfolding wireDashboard_def using that by (simp add: io_then_def io_bind_def)
  have skip: "io_then (addUserShardFunctions name userShardPath) ?later v =
                ?later (v\<lparr>trace := trace v @ ?ss\<rparr>)"
    if "\<not> isPath v userShardPath" for v
    using s[OF that] by (simp add: io_then_def io_bind_def)
  have k3: "wireDashboard eventsContent name routesPath userShardPath w =
              io_then (addUserShardFunctions name userShardPath) ?later
                (w\<lparr>trace := trace w @ ?rs\<rparr>)"
    if "\<not> isPath w routesPath"
    by (rule step) (rule k1[OF that])
  have k4: "wireDashboard eventsContent name routesPath userShardPath w =
              ?later (v\<lparr>trace := trace v @ ?ss\<rparr>)"
    if a: "\<not> isPath w userShardPath" and b: "addRoutesToIndex name routesPath w = (Inr (), v)"
    for v
  proof -
    have "isPath v userShardPath \<longleftrightarrow> isPath w userShardPath"
      using addRoutesToIndex_isPath[of name routesPath w userShardPath] b by simp
    then have "\<not> isPath v userShardPath" using a by simp
    from skip[OF this] step[OF b] show ?thesis by simp
  qed
  have k5: "wireDashboard eventsContent name routesPath userShardPath w =
              ?later (w\<lparr>trace := trace w @ ?rs @ ?ss\<rparr>)"
    if a: "\<not> isPath w routesPath" and b: "\<not> isPath w userShardPath"
    using k4[OF b k1[OF a]] by simp
  show ?thesis
    unfolding Let_def using k1 k2 k3 k4 k5 by blast
qed

lemma shardOnlyWorld_paths:
  "\<not> isPath shardOnlyWorld ''src/index.ts''"
  "isPath shardOnlyWorld ''src/durable-objects/user-shard/UserShard.ts''"
  by (simp_all add: shardOnlyWorld_def isPath_def)

lemma routesFileWorld_file: "files (routesFileWorld text) ''src/index.ts'' = Some text"
  by (simp add: routesFileWorld_def)

lemma routesFileWorld_paths:
  "isPath (routesFileWorld text) ''src/index.ts''"
  "\<not> isPath (routesFileWorld text) ''src/durable-objects/user-shard/UserShard.ts''"
  by (simp_all add: routesFileWorld_def isPath_def)

lemma emptyWorld_paths: "\<not> isPath emptyWorld p"
  by (simp add: emptyWorld_def isPath_def)

lemma emptyWorld_trace: "trace emptyWorld = []"
  by (simp add: emptyWorld_def)

lemma laterSteps_emptyWorld:
  "io_then (createEventsFile eventsStub ''user-profile'')
     (io_then (emit (SpinnerStart ''Updating vite.config.ts...''))
        (io_then (updateViteConfig ''user-profile'')
           (emit (SpinnerSucceed ''Updated vite.config.ts''))))
     (emptyWorld\<lparr>trace := t\<rparr>) =
   (Inr (),
    \<lparr>files = [''shared/types/userProfileEvents.ts'' \<mapsto>
                 eventsStub ''UserProfile'' ''userProfile'' ''USER_PROFILE''],
     dirs = {''shared'', ''shared/types''},
     trace = t @
       [SpinnerStart ''Creating events file...'',
        FsOutputFile ''shared/types/userProfileEvents.ts''
          (eventsStub ''UserProfile'' ''userProfile'' ''USER_PROFILE''),
        SpinnerSucceed ''Created events file'',
        SpinnerStart ''Updating vite.config.ts...'',
        FsPathExists ''vite.config.ts'',
        ConsoleWarn (''vite.config.ts not found. Please manually add the page '' @
                     ''to your Vite configuration.''),
        SpinnerSucceed ''Updated vite.config.ts'']\<rparr>)"
  by (simp add: createEventsFile_def pascal_user_profile camel_user_profile snake_user_profile
      updateViteConfig_def viteConfigPath_def io_defs isPath_def emptyWorld_def)

theorem missing_collaborators_skipped_witness:
  "shapeOk ''user-profile'' \<and>
   \<not> isPath emptyWorld ''src/index.ts'' \<and>
   \<not> isPath emptyWorld ''src/durable-objects/user-shard/UserShard.ts'' \<and>
   addRoutesToIndex ''user-profile'' ''src/index.ts'' emptyWorld =
     (Inr (),
      emptyWorld\<lparr>trace :=
         [SpinnerStart ''Adding routes to index.ts...'',
          FsPathExists ''src/index.ts'',
          SpinnerWarn ''Routes file not found at src/index.ts, skipping route generation'']\<rparr>) \<and>
   addUserShardFunctions ''user-profile'' ''src/durable-objects/user-shard/UserShard.ts'' emptyWorld =
     (Inr (),
      emptyWorld\<lparr>trace :=
         [SpinnerStart ''Adding UserShard functions...'',
          FsPathExists ''src/durable-objects/user-shard/UserShard.ts'',
          SpinnerWarn (''UserShard file not found at '' @
                       ''src/durable-objects/user-shard/UserShard.ts'' @
                       '', skipping UserShard generation'')]\<rparr>) \<and>
   wireDashboard eventsStub ''user-profile'' ''src/index.ts''
       ''src/durable-objects/user-shard/UserShard.ts'' emptyWorld =
     (Inr (),
      \<lparr>files = [''shared/types/userProfileEvents.ts'' \<mapsto>
                  eventsStub ''UserProfile'' ''userProfile'' ''USER_PROFILE''],
       dirs = {''shared'', ''shared/types''},
       trace =
         [SpinnerStart ''Adding routes to index.ts...'',
          FsPathExists ''src/index.ts'',
          SpinnerWarn ''Routes file not found at src/index.ts, skipping route generation'',
          SpinnerStart ''Adding UserShard functions...'',
          FsPathExists ''src/durable-objects/user-shard/UserShard.ts'',
          SpinnerWarn (''UserShard file not found at '' @
                       ''src/durable-objects/user-shard/UserShard.ts'' @
                       '', skipping UserShard generation''),
          SpinnerStart ''Creating events file...'',
          FsOutputFile ''shared/types/userProfileEvents.ts''
            (eventsStub ''UserProfile'' ''userProfile'' ''USER_PROFILE''),
          SpinnerSucceed ''Created events file'',
          SpinnerStart ''Updating vite.config.ts...'',
          FsPathExists ''vite.config.ts'',
          ConsoleWarn (''vite.config.ts not found. Please manually add the page '' @
                       ''to your Vite configuration.''),
          SpinnerSucceed ''Updated vite.config.ts'']\<rparr>) \<and>
   \<not> isPath shardOnlyWorld ''src/index.ts'' \<and>
   isPath shardOnlyWorld ''src/durable-objects/user-shard/UserShard.ts'' \<and>
   wireDashboard eventsStub ''user-profile'' ''src/index.ts''
       ''src/durable-objects/user-shard/UserShard.ts'' shardOnlyWorld =
     io_then (addUserShardFunctions ''user-profile''
                ''src/durable-objects/user-shard/UserShard.ts'')
       (io_then (createEventsFile eventsStub ''user-profile'')
          (io_then (emit (SpinnerStart ''Updating vite.config.ts...''))
             (io_then (updateViteConfig ''user-profile'')
                (emit (SpinnerSucceed ''Updated vite.config.ts'')))))
       (shardOnlyWorld\<lparr>trace :=
          [SpinnerStart ''Adding routes to index.ts...'',
           FsPathExists ''src/index.ts'',
           SpinnerWarn ''Routes file not found at src/index.ts, skipping route generation'']\<rparr>) \<and>
   isPath (routesFileWorld plainRoutesText) ''src/index.ts'' \<and>
   \<not> isPath (routesFileWorld plainRoutesText) ''src/durable-objects/user-shard/UserShard.ts'' \<and>
   wireDashboard eventsStub ''user-profile'' ''src/index.ts''
       ''src/durable-objects/user-shard/UserShard.ts'' (routesFileWorld plainRoutesText) =
     io_then (createEventsFile eventsStub ''user-profile'')
       (io_then (emit (SpinnerStart ''Updating vite.config.ts...''))
          (io_then (updateViteConfig ''user-profile'')
             (emit (SpinnerSucceed ''Updated vite.config.ts''))))
       \<lparr>files = [''src/index.ts'' \<mapsto> patchRoutes ''user-profile'' ''UserProfile'' plainRoutesText],
        dirs = {},
        trace =
          [SpinnerStart ''Adding routes to index.ts...'',
           FsPathExists ''src/index.ts'',
           FsReadFile ''src/index.ts'',
           FsWriteFile ''src/index.ts''
             (patchRoutes ''user-profile'' ''UserProfile'' plainRoutesText),
           SpinnerSucceed ''Added routes to index.ts'',
           SpinnerStart ''Adding UserShard functions...'',
           FsPathExists ''src/durable-objects/user-shard/UserShard.ts'',
           SpinnerWarn (''UserShard file not found at '' @
                        ''src/durable-objects/user-shard/UserShard.ts'' @
                        '', skipping UserShard generation'')]\<rparr>"
proof -
  note t = missing_collaborators_skipped[OF shape_user_profile, unfolded Let_def,
      of _ "''src/index.ts''" "''src/durable-objects/user-shard/UserShard.ts''" eventsStub]
  note e = emptyWorld_paths[of "''src/index.ts''"]
    emptyWorld_paths[of "''src/durable-objects/user-shard/UserShard.ts''"]
  from t[of emptyWorld] e
  have a1: "addRoutesToIndex ''user-profile'' ''src/index.ts'' emptyWorld =
     (Inr (),
      emptyWorld\<lparr>trace :=
         [SpinnerStart ''Adding routes to index.ts...'',
          FsPathExists ''src/index.ts'',
          SpinnerWarn ''Routes file not found at src/index.ts, skipping route generation'']\<rparr>)"
    and a2: "addUserShardFunctions ''user-profile''
        ''src/durable-objects/user-shard/UserShard.ts'' emptyWorld =
     (Inr (),
      emptyWorld\<lparr>trace :=
         [SpinnerStart ''Adding UserShard functions...'',
          FsPathExists ''src/durable-objects/user-shard/UserShard.ts'',
          SpinnerWarn (''UserShard file not found at '' @
                       ''src/durable-objects/user-shard/UserShard.ts'' @
                       '', skipping UserShard generation'')]\<rparr>)"
    by (simp_all add: emptyWorld_def)
  from t[of emptyWorld] e
  have "wireDashboard eventsStub ''user-profile'' ''src/index.ts''
       ''src/durable-objects/user-shard/UserShard.ts'' emptyWorld =
     io_then (createEventsFile eventsStub ''user-profile'')
       (io_then (emit (SpinnerStart ''Updating vite.config.ts...''))
          (io_then (updateViteConfig ''user-profile'')
             (emit (SpinnerSucceed ''Updated vite.config.ts''))))
       (emptyWorld\<lparr>trace := trace emptyWorld @
          [SpinnerStart ''Adding routes to index.ts...'',
           FsPathExists ''src/index.ts'',
           SpinnerWarn (''Routes file not found at '' @ ''src/index.ts'' @
                        '', skipping route generation'')] @
          [SpinnerStart ''Adding UserShard functions...'',
           FsPathExists ''src/durable-objects/user-shard/UserShard.ts'',
           SpinnerWarn (''UserShard file not found at '' @
                        ''src/durable-objects/user-shard/UserShard.ts'' @
                        '', skipping UserShard generation'')]\<rparr>)"
    by blast
  then have a3: "wireDashboard eventsStub ''user-profile'' ''src/index.ts''
       ''src/durable-objects/user-shard/UserShard.ts'' emptyWorld =
     (Inr (),
      \<lparr>files = [''shared/types/userProfileEvents.ts'' \<mapsto>
                  eventsStub ''UserProfile'' ''userProfile'' ''USER_PROFILE''],
       dirs = {''shared'', ''shared/types''},
       trace =
         [SpinnerStart ''Adding routes to index.ts...'',
          FsPathExists ''src/index.ts'',
          SpinnerWarn ''Routes file not found at src/index.ts, skipping route generation'',
          SpinnerStart ''Adding UserShard functions...'',
          FsPathExists ''src/durable-objects/user-shard/UserShard.ts'',
          SpinnerWarn (''UserShard file not found at '' @
                       ''src/durable-objects/user-shard/UserShard.ts'' @
                       '', skipping UserShard generation''),
          SpinnerStart ''Creating events file...'',
          FsOutputFile ''shared/types/userProfileEvents.ts''
            (eventsStub ''UserProfile'' ''userProfile'' ''USER_PROFILE''),
          SpinnerSucceed ''Created events file'',
          SpinnerStart ''Updating vite.config.ts...'',
          FsPathExists ''vite.config.ts'',
          ConsoleWarn (''vite.config.ts not found. Please manually add the page '' @
                       ''to your Vite configuration.''),
          SpinnerSucceed ''Updated vite.config.ts'']\<rparr>)"
    by (simp add: laterSteps_emptyWorld emptyWorld_trace)
  from t[of shardOnlyWorld] shardOnlyWorld_paths(1)
  have "wireDashboard eventsStub ''user-profile'' ''src/index.ts''
       ''src/durable-objects/user-shard/UserShard.ts'' shardOnlyWorld =
     io_then (addUserShardFunctions ''user-profile''
                ''src/durable-objects/user-shard/UserShard.ts'')
       (io_then (createEventsFile eventsStub ''user-profile'')
          (io_then (emit (SpinnerStart ''Updating vite.config.ts...''))
             (io_then (updateViteConfig ''user-profile'')
                (emit (SpinnerSucceed ''Updated vite.config.ts'')))))
       (shardOnlyWorld\<lparr>trace := trace shardOnlyWorld @
          [SpinnerStart ''Adding routes to index.ts...'',
           FsPathExists ''src/index.ts'',
           SpinnerWarn (''Routes file not found at '' @ ''src/index.ts'' @
                        '', skipping route generation'')]\<rparr>)"
    by blast
  then have b1: "wireDashboard eventsStub ''user-profile'' ''src/index.ts''
       ''src/durable-objects/user-shard/UserShard.ts'' shardOnlyWorld =
     io_then (addUserShardFunctions ''user-profile''
                ''src/durable-objects/user-shard/UserShard.ts'')
       (io_then (createEventsFile eventsStub ''user-profile'')
          (io_then (emit (SpinnerStart ''Updating vite.config.ts...''))
             (io_then (updateViteConfig ''user-profile'')
                (emit (SpinnerSucceed ''Updated vite.config.ts'')))))
       (shardOnlyWorld\<lparr>trace :=
          [SpinnerStart ''Adding routes to index.ts...'',
           FsPathExists ''src/index.ts'',
           SpinnerWarn ''Routes file not found at src/index.ts, skipping route generation'']\<rparr>)"
    by (simp add: shardOnlyWorld_def)
  let ?W = "routesFileWorld plainRoutesText"
  note p = addRoutesToIndex_patches[OF pascal_user_profile routesFileWorld_file, of plainRoutesText]
  from t[of ?W] routesFileWorld_paths(2)[of plainRoutesText] p
  have "wireDashboard eventsStub ''user-profile'' ''src/index.ts''
       ''src/durable-objects/user-shard/UserShard.ts'' ?W =
     io_then (createEventsFile eventsStub ''user-profile'')
       (io_then (emit (SpinnerStart ''Updating vite.config.ts...''))
          (io_then (updateViteConfig ''user-profile'')
             (emit (SpinnerSucceed ''Updated vite.config.ts''))))
       ((?W\<lparr>files := (files ?W)(''src/index.ts'' \<mapsto>
                   patchRoutes ''user-profile'' ''UserProfile'' plainRoutesText),
            trace := trace ?W @
              [SpinnerStart ''Adding routes to index.ts...'',
               FsPathExists ''src/index.ts'',
               FsReadFile ''src/index.ts'',
               FsWriteFile ''src/index.ts''
                 (patchRoutes ''user-profile'' ''UserProfile'' plainRoutesText),
               SpinnerSucceed ''Added routes to index.ts'']\<rparr>)
          \<lparr>trace := trace (?W\<lparr>files := (files ?W)(''src/index.ts'' \<mapsto>
                   patchRoutes ''user-profile'' ''UserProfile'' plainRoutesText),
            trace := trace ?W @
              [SpinnerStart ''Adding routes to index.ts...'',
               FsPathExists ''src/index.ts'',
               FsReadFile ''src/index.ts'',
               FsWriteFile ''src/index.ts''
                 (patchRoutes ''user-profile'' ''UserProfile'' plainRoutesText),
               SpinnerSucceed ''Added routes to index.ts'']\<rparr>) @
          [SpinnerStart ''Adding UserShard functions...'',
           FsPathExists ''src/durable-objects/user-shard/UserShard.ts'',
           SpinnerWarn (''UserShard file not found at '' @
                        ''src/durable-objects/user-shard/UserShard.ts'' @
                        '', skipping UserShard generation'')]\<rparr>)"
    by blast
  then have b2: "wireDashboard eventsStub ''user-profile'' ''src/index.ts''
       ''src/durable-objects/user-shard/UserShard.ts'' ?W =
     io_then (createEventsFile eventsStub ''user-profile'')
       (io_then (emit (SpinnerStart ''Updating vite.config.ts...''))
          (io_then (updateViteConfig ''user-profile'')
             (emit (SpinnerSucceed ''Updated vite.config.ts''))))
       \<lparr>files = [''src/index.ts'' \<mapsto> patchRoutes ''user-profile'' ''UserProfile'' plainRoutesText],
        dirs = {},
        trace =
          [SpinnerStart ''Adding routes to index.ts...'',
           FsPathExists ''src/index.ts'',
           FsReadFile ''src/index.ts'',
           FsWriteFile ''src/index.ts''
             (patchRoutes ''user-profile'' ''UserProfile'' plainRoutesText),
           SpinnerSucceed ''Added routes to index.ts'',
           SpinnerStart ''Adding UserShard functions...'',
           FsPathExists ''src/durable-objects/user-shard/UserShard.ts'',
           SpinnerWarn (''UserShard file not found at '' @
                        ''src/durable-objects/user-shard/UserShard.ts'' @
                        '', skipping UserShard generation'')]\<rparr>"
    by (simp add: routesFileWorld_def)
  from shape_user_profile e a1 a2 a3 shardOnlyWorld_paths b1
    routesFileWorld_paths[of plainRoutesText] b2
  show ?thesis by blast
qed

section \<open>The schema file\<close>

lemma schemaStep_creates:
  assumes "toPascalCase name = Inr capitalizedName" and "toCamelCase name = Inr camelName"
    and "\<not> isPath w schemasPath"
    and "\<forall>d \<in> set (dirPrefixes [] schemasPath). files w d = None"
  shows "schemaStep name schemasPath w =
     (Inr (),
      w\<lparr>files := (files w)(schemasPath \<mapsto> schemasContent capitalizedName camelName),
        dirs := dirs w \<union> set (dirPrefixes [] schemasPath),
        trace := trace w @
          [FsPathExists schemasPath,
           FsOutputFile schemasPath (schemasContent capitalizedName camelName),
           SpinnerText ''Created API client and schemas file'',
           SpinnerSucceed ''Created API client and updated types'']\<rparr>)"
  using assms
  by (simp add: schemaStep_def appendTypesToSchemas_def io_defs isPath_def list_ex_iff)

lemma schemaStep_appends:
  assumes "toPascalCase name = Inr capitalizedName" and "toCamelCase name = Inr camelName"
    and "files w schemasPath = Some existingContent"
  shows "schemaStep name schemasPath w =
     (Inr (),
      w\<lparr>files := (files w)(schemasPath \<mapsto>
              existingContent @ typesToAppend capitalizedName camelName),
        trace := trace w @
          [FsPathExists schemasPath,
           FsReadFile schemasPath,
           FsWriteFile schemasPath (existingContent @ typesToAppend capitalizedName camelName),
           SpinnerText ''Created API client and updated schemas'',
           SpinnerSucceed ''Created API client and updated types'']\<rparr>)"
  using assms
  by (simp add: schemaStep_def appendTypesToSchemas_def io_defs isPath_def)

lemma schemaStep_blocked:
  assumes "toPascalCase name = Inr capitalizedName" and "toCamelCase name = Inr camelName"
    and "\<not> isPath w schemasPath"
    and "\<exists>d \<in> set (dirPrefixes [] schemasPath). files w d \<noteq> None"
  shows "schemaStep name schemasPath w =
     (Inl (IoError schemasPath),
      w\<lparr>trace := trace w @
          [FsPathExists schemasPath,
           FsOutputFile schemasPath (schemasContent capitalizedName camelName)]\<rparr>)"
  using assms
  by (simp add: schemaStep_def appendTypesToSchemas_def io_defs isPath_def list_ex_iff)

lemma schemaStep_directory:
  assumes "toPascalCase name = Inr capitalizedName" and "toCamelCase name = Inr camelName"
    and "files w schemasPath = None" and "schemasPath \<in> dirs w"
  shows "schemaStep name schemasPath w =
     (Inl (IoError schemasPath),
      w\<lparr>trace := trace w @ [FsPathExists schemasPath, FsReadFile schemasPath]\<rparr>)"
  using assms
  by (simp add: schemaStep_def appendTypesToSchemas_def io_defs isPath_def)

text \<open>
  Claim C8. Let the two forms of the name be those of the transforms. When nothing
  exists at the path of the type-schema file and no parent of the path is a regular
  file, the schema step of the dashboard flow creates the file: its text is the fixed
  preamble (the zod import, the \<open>ErrorResponseSchema\<close> declaration and the
  \<open>ErrorResponse\<close> type) followed by the generated declarations for the name. When the
  file exists, the same declarations are appended to its text. The step is rejected,
  and no file changes, when a parent of the missing path is a regular file or the path
  is a directory.
\<close>

theorem schema_file_created_or_extended:
  assumes "toPascalCase name = Inr capitalizedName" and "toCamelCase name = Inr camelName"
  shows
    \<open>let declarations =
               ''\<newline>'' @
               ''// '' @ capitalizedName @ '' API Types\<newline>'' @
               ''import type { '' @ capitalizedName @ ''Event, '' @ capitalizedName @ ''EventResult } from "./'' @ camelName @ ''Events";\<newline>'' @
               ''\<newline>'' @
               ''export const Load'' @ capitalizedName @ ''RequestSchema = z.object({});\<newline>'' @
               ''\<newline>'' @
               ''export const Load'' @ capitalizedName @ ''ResponseSchema = z.object({\<newline>'' @
               ''  data: z.any(), // Update this with your specific data schema\<newline>'' @
               ''  // Add your response properties here\<newline>'' @
               ''});\<newline>'' @
               ''\<newline>'' @
               ''export const Save'' @ capitalizedName @ ''RequestSchema = z.object({\<newline>'' @
               ''  events: z.array(z.custom<'' @ capitalizedName @ ''Event>()),\<newline>'' @
               ''});\<newline>'' @
               ''\<newline>'' @
               ''export const Save'' @ capitalizedName @ ''ResponseSchema = z.object({\<newline>'' @
               ''  success: z.boolean(),\<newline>'' @
               ''  processedCount: z.number(),\<newline>'' @
               ''  totalChanges: z.number(),\<newline>'' @
               ''  results: z.array(z.custom<'' @ capitalizedName @ ''EventResult>()),\<newline>'' @
               ''});\<newline>'' @
               ''\<newline>'' @
               ''export type Load'' @ capitalizedName @ ''Request = z.infer<typeof Load'' @ capitalizedName @ ''RequestSchema>;\<newline>'' @
               ''export type Load'' @ capitalizedName @ ''Response = z.infer<typeof Load'' @ capitalizedName @ ''ResponseSchema>;\<newline>'' @
               ''export type Save'' @ capitalizedName @ ''Request = z.infer<typeof Save'' @ capitalizedName @ ''RequestSchema>;\<newline>'' @
               ''export type Save'' @ capitalizedName @ ''Response = z.infer<typeof Save'' @ capitalizedName @ ''ResponseSchema>;''
     in (\<not> isPath w schemasPath \<and> (\<forall>d \<in> set (dirPrefixes [] schemasPath). files w d = None) \<longrightarrow>
           schemaStep name schemasPath w =
             (Inr (),
              w\<lparr>files := (files w)(schemasPath \<mapsto>
                      ''import { z } from "zod";\<newline>'' @
                      ''\<newline>'' @
                      ''export const ErrorResponseSchema = z.object({\<newline>'' @
                      ''  success: z.literal(false),\<newline>'' @
                      ''  error: z.string(),\<newline>'' @
                      ''  statusCode: z.number(),\<newline>'' @
                      ''});\<newline>'' @
                      ''\<newline>'' @
                      ''export type ErrorResponse = z.infer<typeof ErrorResponseSchema>;\<newline>'' @
                      declarations),
                dirs := dirs w \<union> set (dirPrefixes [] schemasPath),
                trace := trace w @
                  [FsPathExists schemasPath,
                   FsOutputFile schemasPath
                     (''import { z } from "zod";\<newline>'' @
                      ''\<newline>'' @
                      ''export const ErrorResponseSchema = z.object({\<newline>'' @
                      ''  success: z.literal(false),\<newline>'' @
                      ''  error: z.string(),\<newline>'' @
                      ''  statusCode: z.number(),\<newline>'' @
                      ''});\<newline>'' @
                      ''\<newline>'' @
                      ''export type ErrorResponse = z.infer<typeof ErrorResponseSchema>;\<newline>'' @
                      declarations),
                   SpinnerText ''Created API client and schemas file'',
                   SpinnerSucceed ''Created API client and updated types'']\<rparr>)) \<and>
        (files w schemasPath = Some existingContent \<longrightarrow>
           schemaStep name schemasPath w =
             (Inr (),
              w\<lparr>files := (files w)(schemasPath \<mapsto> existingContent @ declarations),
                trace := trace w @
                  [FsPathExists schemasPath,
                   FsReadFile schemasPath,
                   FsWriteFile schemasPath (existingContent @ declarations),
                   SpinnerText ''Created API client and updated schemas'',
                   SpinnerSucceed ''Created API client and updated types'']\<rparr>)) \<and>
        (\<not> isPath w schemasPath \<and> (\<exists>d \<in> set (dirPrefixes [] schemasPath). files w d \<noteq> None) \<longrightarrow>
           fst (schemaStep name schemasPath w) = Inl (IoError schemasPath) \<and>
           files (snd (schemaStep name schemasPath w)) = files w \<and>
           dirs (snd (schemaStep name schemasPath w)) = dirs w) \<and>
        (files w schemasPath = None \<and> schemasPath \<in> dirs w \<longrightarrow>
           schemaStep name schemasPath w =
             (Inl (IoError schemasPath),
              w\<lparr>trace := trace w @ [FsPathExists schemasPath, FsReadFile schemasPath]\<rparr>))\<close>
proof -
  note a = schemaStep_creates[OF assms, of w schemasPath,
      unfolded schemasContent_def typesToAppend_def]
  note b = schemaStep_appends[OF assms, of w schemasPath existingContent,
      unfolded typesToAppend_def]
  have c: "fst (schemaStep name schemasPath w) = Inl (IoError schemasPath) \<and>
           files (snd (schemaStep name schemasPath w)) = files w \<and>
           dirs (snd (schemaStep name schemasPath w)) = dirs w"
    if "\<not> isPath w schemasPath"
      and "\<exists>d \<in> set (dirPrefixes [] schemasPath). files w d \<noteq> None"
    using schemaStep_blocked[OF assms that] by simp
  note d = schemaStep_directory[OF assms, of w schemasPath]
  show ?thesis
    unfolding Let_def
    apply (rule conjI, rule impI, erule conjE, erule (1) a)
    apply (rule conjI, rule impI, erule b)
    apply (rule conjI, rule impI, erule conjE, erule (1) c)
    apply (rule impI, erule conjE, erule (1) d)
    done
qed

lemma userProfileTypes_eq: "typesToAppend ''UserProfile'' ''userProfile'' = userProfileTypes"
  by (simp add: typesToAppend_def userProfileTypes_def)

lemma blockedWorld_parent:
  "\<exists>d \<in> set (dirPrefixes [] ''shared/types/request-response-schemas.ts'').
     files blockedWorld d \<noteq> None"
  by (simp add: blockedWorld_def)

theorem schema_file_created_or_extended_witness:
  \<open>toPascalCase ''user-profile'' = Inr ''UserProfile'' \<and>
   toCamelCase ''user-profile'' = Inr ''userProfile'' \<and>
   \<not> isPath emptyWorld ''shared/types/request-response-schemas.ts'' \<and>
   schemaStep ''user-profile'' ''shared/types/request-response-schemas.ts'' emptyWorld =
     (Inr (),
      \<lparr>files = [''shared/types/request-response-schemas.ts'' \<mapsto>
                  ''import { z } from "zod";\<newline>'' @
                  ''\<newline>'' @
                  ''export const ErrorResponseSchema = z.object({\<newline>'' @
                  ''  success: z.literal(false),\<newline>'' @
                  ''  error: z.string(),\<newline>'' @
                  ''  statusCode: z.number(),\<newline>'' @
                  ''});\<newline>'' @
                  ''\<newline>'' @
                  ''export type ErrorResponse = z.infer<typeof ErrorResponseSchema>;\<newline>'' @
                  userProfileTypes],
       dirs = {''shared'', ''shared/types''},
       trace =
         [FsPathExists ''shared/types/request-response-schemas.ts'',
          FsOutputFile ''shared/types/request-response-schemas.ts''
            (''import { z } from "zod";\<newline>'' @
             ''\<newline>'' @
             ''export const ErrorResponseSchema = z.object({\<newline>'' @
             ''  success: z.literal(false),\<newline>'' @
             ''  error: z.string(),\<newline>'' @
             ''  statusCode: z.number(),\<newline>'' @
             ''});\<newline>'' @
             ''\<newline>'' @
             ''export type ErrorResponse = z.infer<typeof ErrorResponseSchema>;\<newline>'' @
             userProfileTypes),
          SpinnerText ''Created API client and schemas file'',
          SpinnerSucceed ''Created API client and updated types'']\<rparr>) \<and>
   files schemaWorld ''schemas.ts'' = Some ''import { z } from "zod";\<newline>'' \<and>
   schemaStep ''user-profile'' ''schemas.ts'' schemaWorld =
     (Inr (),
      \<lparr>files = [''schemas.ts'' \<mapsto> ''import { z } from "zod";\<newline>'' @ userProfileTypes],
       dirs = {},
       trace =
         [FsPathExists ''schemas.ts'',
          FsReadFile ''schemas.ts'',
          FsWriteFile ''schemas.ts'' (''import { z } from "zod";\<newline>'' @ userProfileTypes),
          SpinnerText ''Created API client and updated schemas'',
          SpinnerSucceed ''Created API client and updated types'']\<rparr>) \<and>
   \<not> isPath blockedWorld ''shared/types/request-response-schemas.ts'' \<and>
   files blockedWorld ''shared/types'' = Some ''not a directory'' \<and>
   fst (schemaStep ''user-profile'' ''shared/types/request-response-schemas.ts'' blockedWorld) =
     Inl (IoError ''shared/types/request-response-schemas.ts'') \<and>
   files (snd (schemaStep ''user-profile'' ''shared/types/request-response-schemas.ts''
                 blockedWorld)) = files blockedWorld\<close>
proof -
  have a: "\<not> isPath emptyWorld ''shared/types/request-response-schemas.ts''"
    and a': "\<forall>d \<in> set (dirPrefixes [] ''shared/types/request-response-schemas.ts'').
              files emptyWorld d = None"
    by (simp_all add: emptyWorld_def isPath_def)
  have b: \<open>files schemaWorld ''schemas.ts'' = Some ''import { z } from "zod";\<newline>''\<close>
    by (simp add: schemaWorld_def)
  have c: "\<not> isPath blockedWorld ''shared/types/request-response-schemas.ts''"
    and c': "files blockedWorld ''shared/types'' = Some ''not a directory''"
    by (simp_all add: blockedWorld_def isPath_def)
  note t = schema_file_created_or_extended[OF pascal_user_profile camel_user_profile,
      unfolded Let_def, folded typesToAppend_def, unfolded userProfileTypes_eq]
  note t1 = t[of emptyWorld "''shared/types/request-response-schemas.ts''"]
  note t2 = t[of schemaWorld "''schemas.ts''" \<open>''import { z } from "zod";\<newline>''\<close>]
  note t3 = t[of blockedWorld "''shared/types/request-response-schemas.ts''"]
  from t1 a a' have \<open>schemaStep ''user-profile'' ''shared/types/request-response-schemas.ts''
      emptyWorld =
     (Inr (),
      emptyWorld\<lparr>files := (files emptyWorld)(''shared/types/request-response-schemas.ts'' \<mapsto>
                  ''import { z } from "zod";\<newline>'' @
                  ''\<newline>'' @
                  ''export const ErrorResponseSchema = z.object({\<newline>'' @
                  ''  success: z.literal(false),\<newline>'' @
                  ''  error: z.string(),\<newline>'' @
                  ''  statusCode: z.number(),\<newline>'' @
                  ''});\<newline>'' @
                  ''\<newline>'' @
                  ''export type ErrorResponse = z.infer<typeof ErrorResponseSchema>;\<newline>'' @
                  userProfileTypes),
       dirs := dirs emptyWorld \<union> set (dirPrefixes [] ''shared/types/request-response-schemas.ts''),
       trace := trace emptyWorld @
         [FsPathExists ''shared/types/request-response-schemas.ts'',
          FsOutputFile ''shared/types/request-response-schemas.ts''
            (''import { z } from "zod";\<newline>'' @
             ''\<newline>'' @
             ''export const ErrorResponseSchema = z.object({\<newline>'' @
             ''  success: z.literal(false),\<newline>'' @
             ''  error: z.string(),\<newline>'' @
             ''  statusCode: z.number(),\<newline>'' @
             ''});\<newline>'' @
             ''\<newline>'' @
             ''export type ErrorResponse = z.infer<typeof ErrorResponseSchema>;\<newline>'' @
             userProfileTypes),
          SpinnerText ''Created API client and schemas file'',
          SpinnerSucceed ''Created API client and updated types'']\<rparr>)\<close>
    by blast
  then have c1: \<open>schemaStep ''user-profile'' ''shared/types/request-response-schemas.ts''
      emptyWorld =
     (Inr (),
      \<lparr>files = [''shared/types/request-response-schemas.ts'' \<mapsto>
                  ''import { z } from "zod";\<newline>'' @
                  ''\<newline>'' @
                  ''export const ErrorResponseSchema = z.object({\<newline>'' @
                  ''  success: z.literal(false),\<newline>'' @
                  ''  error: z.string(),\<newline>'' @
                  ''  statusCode: z.number(),\<newline>'' @
                  ''});\<newline>'' @
                  ''\<newline>'' @
                  ''export type ErrorResponse = z.infer<typeof ErrorResponseSchema>;\<newline>'' @
                  userProfileTypes],
       dirs = {''shared'', ''shared/types''},
       trace =
         [FsPathExists ''shared/types/request-response-schemas.ts'',
          FsOutputFile ''shared/types/request-response-schemas.ts''
            (''import { z } from "zod";\<newline>'' @
             ''\<newline>'' @
             ''export const ErrorResponseSchema = z.object({\<newline>'' @
             ''  success: z.literal(false),\<newline>'' @
             ''  error: z.string(),\<newline>'' @
             ''  statusCode: z.number(),\<newline>'' @
             ''});\<newline>'' @
             ''\<newline>'' @
             ''export type ErrorResponse = z.infer<typeof ErrorResponseSchema>;\<newline>'' @
             userProfileTypes),
          SpinnerText ''Created API client and schemas file'',
          SpinnerSucceed ''Created API client and updated types'']\<rparr>)\<close>
    by (simp add: emptyWorld_def)
  from t2 b have \<open>schemaStep ''user-profile'' ''schemas.ts'' schemaWorld =
     (Inr (),
      schemaWorld\<lparr>files := (files schemaWorld)(''schemas.ts'' \<mapsto>
                  ''import { z } from "zod";\<newline>'' @ userProfileTypes),
        trace := trace schemaWorld @
         [FsPathExists ''schemas.ts'',
          FsReadFile ''schemas.ts'',
          FsWriteFile ''schemas.ts'' (''import { z } from "zod";\<newline>'' @ userProfileTypes),
          SpinnerText ''Created API client and updated schemas'',
          SpinnerSucceed ''Created API client and updated types'']\<rparr>)\<close>
    by blast
  then have c2: \<open>schemaStep ''user-profile'' ''schemas.ts'' schemaWorld =
     (Inr (),
      \<lparr>files = [''schemas.ts'' \<mapsto> ''import { z } from "zod";\<newline>'' @ userProfileTypes],
       dirs = {},
       trace =
         [FsPathExists ''schemas.ts'',
          FsReadFile ''schemas.ts'',
          FsWriteFile ''schemas.ts'' (''import { z } from "zod";\<newline>'' @ userProfileTypes),
          SpinnerText ''Created API client and updated schemas'',
          SpinnerSucceed ''Created API client and updated types'']\<rparr>)\<close>
    by (simp add: schemaWorld_def)
  from t3 c blockedWorld_parent
  have c3: "fst (schemaStep ''user-profile'' ''shared/types/request-response-schemas.ts''
                   blockedWorld) = Inl (IoError ''shared/types/request-response-schemas.ts'')"
    and c4: "files (snd (schemaStep ''user-profile'' ''shared/types/request-response-schemas.ts''
                 blockedWorld)) = files blockedWorld"
    by blast+
  from pascal_user_profile camel_user_profile a b c c' c1 c2 c3 c4 show ?thesis by blast
qed

section \<open>Evaluating the patterns\<close>

lemmas regex_eval = regexMatch_def inputMappingAt_def honoImportAt_def schemasImportAt_def
  lit_def spaces1_def quoteChar_def optSemicolon_def notBrace_def isWhiteSpace_def

section \<open>Searching in a text\<close>

lemma indexOf_None_iff: "indexOf s p = None \<longleftrightarrow> \<not> sublist p s"
  by (induction s) (auto simp: sublist_Cons_right)

lemma includes_sublist: "includes_str s p \<longleftrightarrow> sublist p s"
  by (simp add: includes_str_def indexOf_None_iff)

lemma indexOf_Some_prefix: "indexOf s p = Some i \<Longrightarrow> i \<le> length s \<and> prefix p (drop i s)"
proof (induction s arbitrary: i)
  case Nil
  then show ?case by (auto split: if_splits)
next
  case (Cons x xs)
  then show ?case by (auto split: if_splits)
qed

lemma lastIndexOf_None_iff: "lastIndexOf s p = None \<longleftrightarrow> \<not> sublist p s"
  by (induction s) (auto simp: sublist_Cons_right split: option.splits)

lemma lastIndexOf_Some_prefix:
  "lastIndexOf s p = Some i \<Longrightarrow> i \<le> length s \<and> prefix p (drop i s)"
proof (induction s arbitrary: i)
  case Nil
  then show ?case by (auto split: if_splits)
next
  case (Cons x xs)
  then show ?case by (auto split: if_splits option.splits)
qed

lemma sub_right: "sublist p ys \<Longrightarrow> sublist p (xs @ ys)"
  by (metis sublist_append_leftI sublist_order.order_trans)

lemma sub_left: "sublist p xs \<Longrightarrow> sublist p (xs @ ys)"
  by (metis sublist_append_rightI sublist_order.order_trans)

lemma sublist_trans: "sublist p q \<Longrightarrow> sublist q r \<Longrightarrow> sublist p r"
  by (rule sublist_order.order_trans)

section \<open>Repeated route patching\<close>

lemma contentful_piece:
  "sublist ''ContentfulStatusCode''
     (''        return sendError(c, result.statusCode as ContentfulStatusCode, result.error);\<newline>'' @ rest)"
  by (rule sub_left) (simp add: sublist_code)

lemma load_schema_piece:
  "sublist (''Load'' @ cap @ ''ResponseSchema'')
     (''  return send(c, Load'' @ cap @ ''ResponseSchema, result, 200);\<newline>'' @ rest)"
proof -
  have "''  return send(c, Load'' @ cap @ ''ResponseSchema, result, 200);\<newline>'' @ rest =
        ''  return send(c, '' @ (''Load'' @ cap @ ''ResponseSchema'') @
        ('', result, 200);\<newline>'' @ rest)"
    by simp
  then show ?thesis by (simp only: sublist_appendI)
qed

lemma routes_has_contentful: "sublist ''ContentfulStatusCode'' (routesToAdd name cap)"
  unfolding routesToAdd_def
  by (rule contentful_piece | rule sub_right)+

lemma routes_has_load_schema:
  "sublist (''Load'' @ cap @ ''ResponseSchema'') (routesToAdd name cap)"
  unfolding routesToAdd_def
  by (rule load_schema_piece | rule sub_right)+

lemma insertRoutes_has_block: "sublist (routesToAdd name cap) (insertRoutes name cap u)"
  by (auto simp: insertRoutes_def split: option.splits)

lemma patchRoutes_has_block: "sublist (routesToAdd name cap) (patchRoutes name cap c)"
  by (simp add: patchRoutes_def insertRoutes_has_block)

lemma second_pass_is_insert:
  "patchRoutes name cap (patchRoutes name cap c) = insertRoutes name cap (patchRoutes name cap c)"
proof -
  let ?once = "patchRoutes name cap c"
  have a: "includes_str ?once ''ContentfulStatusCode''"
    using sublist_trans[OF routes_has_contentful patchRoutes_has_block]
    by (simp add: includes_sublist)
  have b: "includes_str ?once (''Load'' @ cap @ ''ResponseSchema'')"
    using sublist_trans[OF routes_has_load_schema patchRoutes_has_block]
    by (simp add: includes_sublist)
  have "addContentfulImport ?once = ?once"
    using a by (simp add: addContentfulImport_def)
  moreover have "addSchemaImports cap ?once ?once = ?once"
    using b by (simp add: addSchemaImports_def)
  ultimately show ?thesis by (simp add: patchRoutes_def[of name cap ?once])
qed

lemma insertRoutes_length:
  "length (insertRoutes name cap u) =
     length u + length (routesToAdd name cap) +
     (if includes_str u ''app.get(\"*\"'' \<or> includes_str u ''export default'' then 1 else 0)"
proof (cases "indexOf u ''app.get(\"*\"''")
  case None
  note n = None
  then have nc: "\<not> includes_str u ''app.get(\"*\"''" by (simp add: includes_str_def)
  show ?thesis
  proof (cases "lastIndexOf u ''export default''")
    case None
    then have "\<not> includes_str u ''export default''"
      by (simp add: includes_sublist lastIndexOf_None_iff)
    with n nc None show ?thesis by (simp add: insertRoutes_def)
  next
    case (Some i)
    then have "includes_str u ''export default''"
      using lastIndexOf_None_iff[of u "''export default''"] by (simp add: includes_sublist)
    moreover have "i \<le> length u" using lastIndexOf_Some_prefix[OF Some] by simp
    ultimately show ?thesis using n Some by (simp add: insertRoutes_def)
  qed
next
  case (Some i)
  then have "includes_str u ''app.get(\"*\"''" by (simp add: includes_str_def)
  moreover have "i \<le> length u" using indexOf_Some_prefix[OF Some] by simp
  ultimately show ?thesis using Some by (simp add: insertRoutes_def)
qed

lemma routesToAdd_nonempty: "routesToAdd name cap \<noteq> []"
  by (simp add: routesToAdd_def)

lemma insertRoutes_differs: "insertRoutes name cap u \<noteq> u"
proof
  assume "insertRoutes name cap u = u"
  then have "length (insertRoutes name cap u) = length u" by simp
  then show False using insertRoutes_length[of name cap u] routesToAdd_nonempty[of name cap]
    by (simp split: if_splits)
qed

lemma insertRoutes_splits:
  "\<exists>a b. u = a @ b \<and>
     (insertRoutes name cap u = a @ routesToAdd name cap @ ''\<newline>'' @ b \<or>
      insertRoutes name cap u = a @ routesToAdd name cap @ b)"
proof (cases "indexOf u ''app.get(\"*\"''")
  case (Some i)
  then have "insertRoutes name cap u =
               take i u @ routesToAdd name cap @ ''\<newline>'' @ drop i u"
    by (simp add: insertRoutes_def)
  moreover have "u = take i u @ drop i u" by simp
  ultimately show ?thesis by blast
next
  case None
  note n = None
  show ?thesis
  proof (cases "lastIndexOf u ''export default''")
    case (Some i)
    with n have "insertRoutes name cap u =
                   take i u @ routesToAdd name cap @ ''\<newline>'' @ drop i u"
      by (simp add: insertRoutes_def)
    moreover have "u = take i u @ drop i u" by simp
    ultimately show ?thesis by blast
  next
    case None
    with n have "insertRoutes name cap u = u @ routesToAdd name cap @ []"
      by (simp add: insertRoutes_def)
    moreover have "u = u @ []" by simp
    ultimately show ?thesis by blast
  qed
qed

lemma routes_user_profile: "routesToAdd ''user-profile'' ''UserProfile'' = userProfileRoutes"
  by (simp add: routesToAdd_def userProfileRoutes_def)

text \<open>
  Claim C1 does not hold of the code. \<open>addRoutesToIndex\<close> tests for a marker before each
  of its two import steps, but inserts the route-handler block without any test. So a
  second application with the same name is not a no-op: in the text that the first
  application wrote, which holds the block, both import steps find their marker and
  add nothing, and the block is inserted once more (before the first catch-all route,
  else before the last \<^verbatim>\<open>export default\<close>, else at the end). The text after the second
  application is the text after the first with a second copy of the block put in; it
  is longer by the length of the block, plus one line break where an anchor exists,
  and so differs from it.
\<close>

theorem second_patch_repeats_block:
  assumes "toPascalCase name = Inr cap" and "files w routesPath = Some c"
  shows "fst (addRoutesToIndex name routesPath w) = Inr () \<and>
         files (snd (addRoutesToIndex name routesPath w)) routesPath =
           Some (patchRoutes name cap c) \<and>
         fst (addRoutesToIndex name routesPath (snd (addRoutesToIndex name routesPath w))) =
           Inr () \<and>
         files (snd (addRoutesToIndex name routesPath
                       (snd (addRoutesToIndex name routesPath w)))) routesPath =
           Some (insertRoutes name cap (patchRoutes name cap c)) \<and>
         length (insertRoutes name cap (patchRoutes name cap c)) =
           length (patchRoutes name cap c) + length (routesToAdd name cap) +
           (if includes_str (patchRoutes name cap c) ''app.get(\"*\"'' \<or>
               includes_str (patchRoutes name cap c) ''export default'' then 1 else 0) \<and>
         insertRoutes name cap (patchRoutes name cap c) \<noteq> patchRoutes name cap c \<and>
         sublist (routesToAdd name cap) (patchRoutes name cap c) \<and>
         (\<exists>a b. patchRoutes name cap c = a @ b \<and>
            (insertRoutes name cap (patchRoutes name cap c) =
               a @ routesToAdd name cap @ ''\<newline>'' @ b \<or>
             insertRoutes name cap (patchRoutes name cap c) =
               a @ routesToAdd name cap @ b))"
proof -
  let ?w1 = "snd (addRoutesToIndex name routesPath w)"
  let ?once = "patchRoutes name cap c"
  have f1: "fst (addRoutesToIndex name routesPath w) = Inr ()"
    and c1: "files ?w1 routesPath = Some ?once"
    using addRoutesToIndex_patches[OF assms] by simp_all
  have f2: "fst (addRoutesToIndex name routesPath ?w1) = Inr ()"
    and c2: "files (snd (addRoutesToIndex name routesPath ?w1)) routesPath =
               Some (patchRoutes name cap ?once)"
    using addRoutesToIndex_patches[OF assms(1) c1] by simp_all
  have c3: "files (snd (addRoutesToIndex name routesPath ?w1)) routesPath =
              Some (insertRoutes name cap ?once)"
    using c2 by (simp only: second_pass_is_insert)
  note len = insertRoutes_length[of name cap ?once]
  note diff = insertRoutes_differs[of name cap ?once]
  note has = patchRoutes_has_block[of name cap c]
  note again = insertRoutes_splits[of ?once name cap]
  from f1 c1 f2 c3 len diff has again show ?thesis by blast
qed

lemma star_not_in_routes:
  "CHR ''*'' \<notin> set name \<Longrightarrow> CHR ''*'' \<notin> set cap \<Longrightarrow> CHR ''*'' \<notin> set (routesToAdd name cap)"
  by (simp add: routesToAdd_def)

lemma indexOf_None_char: "c \<in> set p \<Longrightarrow> c \<notin> set s \<Longrightarrow> indexOf s p = None"
  using set_mono_sublist[of p s] by (auto simp: indexOf_None_iff)

lemma lastIndexOf_append:
  "lastIndexOf b p = Some i \<Longrightarrow> lastIndexOf (a @ b) p = Some (length a + i)"
  by (induction a) auto

lemma insertRoutes_before_export:
  assumes "CHR ''*'' \<notin> set a" and "CHR ''*'' \<notin> set b"
    and "lastIndexOf b ''export default'' = Some 0"
  shows "insertRoutes name cap (a @ b) = a @ routesToAdd name cap @ ''\<newline>'' @ b"
proof -
  have "indexOf (a @ b) ''app.get(\"*\"'' = None"
    using assms(1,2) by (intro indexOf_None_char[of "CHR ''*''"]) auto
  moreover have "lastIndexOf (a @ b) ''export default'' = Some (length a)"
    using lastIndexOf_append[OF assms(3), of a] by simp
  ultimately show ?thesis by (simp add: insertRoutes_def)
qed

lemma routesText_contentful:
  \<open>addContentfulImport routesText =
     ''import { Hono } from "hono";\<newline>'' @
     ''import { ContentfulStatusCode } from "hono/utils/http-status";\<newline>'' @
     ''const app = new Hono();\<newline>'' @
     ''export default app;\<newline>''\<close>
  by (simp add: routesText_def addContentfulImport_def includes_str_def indexOfFrom_def
      regex_eval contentfulImport_def)

lemma routesText_imports:
  \<open>addSchemaImports ''UserProfile'' routesText (addContentfulImport routesText) =
     routesHead @ ''export default app;\<newline>''\<close>
  unfolding routesText_contentful
  by (simp add: routesText_def addSchemaImports_def includes_str_def
      regex_eval schemaImportToAdd_def routesHead_def)

lemma export_line_last: "lastIndexOf ''export default app;\<newline>'' ''export default'' = Some 0"
  by simp

lemma routesText_once:
  "patchRoutes ''user-profile'' ''UserProfile'' routesText =
     routesHead @ routesToAdd ''user-profile'' ''UserProfile'' @ ''\<newline>'' @
     ''export default app;\<newline>''"
  unfolding patchRoutes_def routesText_imports
  by (rule insertRoutes_before_export[OF _ _ export_line_last]) (simp_all add: routesHead_def)

lemma routesText_twice:
  "insertRoutes ''user-profile'' ''UserProfile''
     (patchRoutes ''user-profile'' ''UserProfile'' routesText) =
     routesHead @ routesToAdd ''user-profile'' ''UserProfile'' @ ''\<newline>'' @
     routesToAdd ''user-profile'' ''UserProfile'' @ ''\<newline>'' @
     ''export default app;\<newline>''"
proof -
  have s: "CHR ''*'' \<notin> set (routesToAdd ''user-profile'' ''UserProfile'')"
    by (rule star_not_in_routes) simp_all
  have "insertRoutes ''user-profile'' ''UserProfile''
          ((routesHead @ routesToAdd ''user-profile'' ''UserProfile'' @ ''\<newline>'') @
           ''export default app;\<newline>'') =
        (routesHead @ routesToAdd ''user-profile'' ''UserProfile'' @ ''\<newline>'') @
        routesToAdd ''user-profile'' ''UserProfile'' @ ''\<newline>'' @
        ''export default app;\<newline>''"
    using s by (intro insertRoutes_before_export[OF _ _ export_line_last])
      (simp_all add: routesHead_def)
  then show ?thesis by (simp add: routesText_once)
qed

lemma routesWorld_file: "files routesWorld ''src/index.ts'' = Some routesText"
  by (simp add: routesWorld_def)

theorem second_patch_repeats_block_witness:
  "toPascalCase ''user-profile'' = Inr ''UserProfile'' \<and>
   files routesWorld ''src/index.ts'' = Some routesText \<and>
   files (snd (addRoutesToIndex ''user-profile'' ''src/index.ts'' routesWorld)) ''src/index.ts'' =
     Some (routesHead @ userProfileRoutes @ ''\<newline>'' @ ''export default app;\<newline>'') \<and>
   files (snd (addRoutesToIndex ''user-profile'' ''src/index.ts''
            (snd (addRoutesToIndex ''user-profile'' ''src/index.ts'' routesWorld))))
         ''src/index.ts'' =
     Some (routesHead @ userProfileRoutes @ ''\<newline>'' @
           userProfileRoutes @ ''\<newline>'' @
           ''export default app;\<newline>'')"
proof -
  note t = second_patch_repeats_block[OF pascal_user_profile routesWorld_file]
  from t have a: "files (snd (addRoutesToIndex ''user-profile'' ''src/index.ts'' routesWorld))
        ''src/index.ts'' = Some (patchRoutes ''user-profile'' ''UserProfile'' routesText)"
    by blast
  from t have b: "files (snd (addRoutesToIndex ''user-profile'' ''src/index.ts''
            (snd (addRoutesToIndex ''user-profile'' ''src/index.ts'' routesWorld))))
         ''src/index.ts'' =
       Some (insertRoutes ''user-profile'' ''UserProfile''
               (patchRoutes ''user-profile'' ''UserProfile'' routesText))"
    by blast
  show ?thesis
    using pascal_user_profile routesWorld_file
      a[unfolded routesText_once routes_user_profile]
      b[unfolded routesText_twice routes_user_profile]
    by blast
qed

text \<open>
  Claim C1 fails on a route file of three lines: the second application with the name
  \<^verbatim>\<open>user-profile\<close> writes a text that holds the route-handler block twice and differs
  from the text the first application wrote.
\<close>

theorem second_patch_counterexample:
  "files (snd (addRoutesToIndex ''user-profile'' ''src/index.ts'' routesWorld)) ''src/index.ts'' =
     Some (routesHead @ userProfileRoutes @ ''\<newline>'' @ ''export default app;\<newline>'') \<and>
   files (snd (addRoutesToIndex ''user-profile'' ''src/index.ts''
            (snd (addRoutesToIndex ''user-profile'' ''src/index.ts'' routesWorld))))
         ''src/index.ts'' =
     Some (routesHead @ userProfileRoutes @ ''\<newline>'' @
           userProfileRoutes @ ''\<newline>'' @
           ''export default app;\<newline>'') \<and>
   files (snd (addRoutesToIndex ''user-profile'' ''src/index.ts''
            (snd (addRoutesToIndex ''user-profile'' ''src/index.ts'' routesWorld))))
         ''src/index.ts'' \<noteq>
   files (snd (addRoutesToIndex ''user-profile'' ''src/index.ts'' routesWorld)) ''src/index.ts''"
proof -
  let ?w1 = "snd (addRoutesToIndex ''user-profile'' ''src/index.ts'' routesWorld)"
  have c1: "files ?w1 ''src/index.ts'' =
              Some (patchRoutes ''user-profile'' ''UserProfile'' routesText)"
    using addRoutesToIndex_patches[OF pascal_user_profile routesWorld_file] by simp
  have c2: "files (snd (addRoutesToIndex ''user-profile'' ''src/index.ts'' ?w1)) ''src/index.ts'' =
              Some (insertRoutes ''user-profile'' ''UserProfile''
                      (patchRoutes ''user-profile'' ''UserProfile'' routesText))"
    using addRoutesToIndex_patches[OF pascal_user_profile c1]
    by (simp add: second_pass_is_insert)
  have d: "insertRoutes ''user-profile'' ''UserProfile''
             (patchRoutes ''user-profile'' ''UserProfile'' routesText) \<noteq>
           patchRoutes ''user-profile'' ''UserProfile'' routesText"
    by (rule insertRoutes_differs)
  have e: "files (snd (addRoutesToIndex ''user-profile'' ''src/index.ts'' ?w1)) ''src/index.ts'' \<noteq>
           files ?w1 ''src/index.ts''"
    using c1 c2 d by simp
  show ?thesis
    using c1[unfolded routesText_once routes_user_profile]
      c2[unfolded routesText_twice routes_user_profile] e
    by blast
qed

section \<open>Texts cut at a separator\<close>

lemma sublist_sep:
  assumes "s \<notin> set p"
  shows "sublist p (a @ s # b) \<longleftrightarrow> sublist p a \<or> sublist p b"
proof
  assume "sublist p (a @ s # b)"
  then consider "sublist p a" | "sublist p (s # b)"
    | xs1 xs2 where "p = xs1 @ xs2" "suffix xs1 a" "prefix xs2 (s # b)"
    by (auto simp: sublist_append)
  then show "sublist p a \<or> sublist p b"
  proof cases
    case 1
    then show ?thesis by simp
  next
    case 2
    then have "prefix p (s # b) \<or> sublist p b" by (simp add: sublist_Cons_right)
    moreover have "prefix p (s # b) \<Longrightarrow> p = []"
      using assms by (cases p) auto
    ultimately show ?thesis by auto
  next
    case 3
    have "xs2 = []" using 3(1,3) assms by (cases xs2) auto
    with 3 show ?thesis by auto
  qed
next
  assume "sublist p a \<or> sublist p b"
  then show "sublist p (a @ s # b)"
    by (metis sub_left sub_right sublist_Cons_right)
qed

lemma indexOfFrom_char:
  assumes "indexOfFrom s [c] from = Some i"
  shows "i < length s \<and> s ! i = c"
proof -
  define k where "k = (case from of None \<Rightarrow> 0 | Some i \<Rightarrow> min i (length s))"
  from assms obtain j where j: "indexOf (drop k s) [c] = Some j" and i: "i = j + k"
    by (auto simp: indexOfFrom_def k_def Let_def)
  from indexOf_Some_prefix[OF j] have "prefix [c] (drop j (drop k s))" by simp
  then obtain r where r: "drop (j + k) s = c # r" by (auto simp: prefix_def)
  then have "j + k < length s" by (metis drop_all leI list.distinct(1))
  moreover from this r have "s ! (j + k) = c"
    by (metis Cons_nth_drop_Suc list.inject)
  ultimately show ?thesis using i by simp
qed

section \<open>The server entry file\<close>

lemma importStatement_no_listen:
  assumes "\<not> sublist ''app.listen'' routeName"
  shows "\<not> sublist ''app.listen'' (importStatement routeName)"
proof (cases "includes_str routeName ''webhook''")
  case True
  then show ?thesis using assms
    by (simp add: importStatement_def routerName_def sublist_Cons_right sublist_sep)
next
  case False
  then show ?thesis using assms
    by (simp add: importStatement_def routerName_def sublist_Cons_right sublist_sep)
qed

lemma addImport_form:
  "addImport routeName content =
     (if includes_str content (importStatement routeName) then content
      else importStatement routeName @ ''\<newline>'' @ content) \<or>
   (\<exists>i < length content. content ! i = CHR ''\<newline>'' \<and>
      addImport routeName content =
        take i content @ ''\<newline>'' @ importStatement routeName @ ''\<newline>'' @
        drop (Suc i) content)"
proof (cases "includes_str content (importStatement routeName)")
  case True
  then show ?thesis by (simp add: addImport_def)
next
  case False
  show ?thesis
  proof (cases "indexOfFrom content ''\<newline>'' (lastIndexOf content ''import '')")
    case None
    with False show ?thesis by (simp add: addImport_def)
  next
    case (Some i)
    from indexOfFrom_char[OF Some] have i: "i < length content" "content ! i = CHR ''\<newline>''"
      by simp_all
    then have "take (Suc i) content = take i content @ ''\<newline>''"
      by (simp add: take_Suc_conv_app_nth)
    with False Some i show ?thesis by (auto simp: addImport_def)
  qed
qed

lemma addImport_no_listen:
  assumes "\<not> sublist ''app.listen'' content" and "\<not> sublist ''app.listen'' routeName"
  shows "\<not> sublist ''app.listen'' (addImport routeName content)"
proof -
  note imp = importStatement_no_listen[OF assms(2)]
  have t: "\<not> sublist ''app.listen'' (take i content)" for i
    using assms(1) sublist_trans[OF _ sublist_take] by blast
  have d: "\<not> sublist ''app.listen'' (drop i content)" for i
    using assms(1) sublist_trans[OF _ sublist_drop] by blast
  from addImport_form[of routeName content] show ?thesis
  proof
    assume "addImport routeName content =
      (if includes_str content (importStatement routeName) then content
       else importStatement routeName @ ''\<newline>'' @ content)"
    then show ?thesis using assms(1) imp by (simp add: sublist_sep)
  next
    assume "\<exists>i < length content. content ! i = CHR ''\<newline>'' \<and>
      addImport routeName content =
        take i content @ ''\<newline>'' @ importStatement routeName @ ''\<newline>'' @
        drop (Suc i) content"
    then show ?thesis using t d imp by (auto simp: sublist_sep)
  qed
qed

lemma addMount_without_listen:
  "\<not> sublist ''app.listen'' content \<Longrightarrow> addMount routeName content = content"
  using indexOf_None_iff[of content "''app.listen''"] by (simp add: addMount_def)

text \<open>
  Claim C10, as the code has it. Let the server entry file exist with a text that holds
  neither the mount statement nor \<^verbatim>\<open>app.listen\<close>, and let the route name not contain
  \<^verbatim>\<open>app.listen\<close>. Then \<open>updateMainServer\<close> writes the file back with the import
  statement inserted after the first line break at or after the last \<^verbatim>\<open>import \<close> (at the
  start of the text when there is none), unless the text already holds that statement,
  in which case the text is written back as it is; it inserts no mount statement and
  the trace gains no warning.
\<close>

theorem mount_silently_skipped:
  assumes "files w serverFile = Some content"
    and "\<not> includes_str content (mountStatement routeName)"
    and "\<not> includes_str content ''app.listen''"
    and "\<not> includes_str routeName ''app.listen''"
  shows "updateMainServer routeName w =
     (Inr (),
      w\<lparr>files := (files w)(serverFile \<mapsto> addImport routeName content),
        trace := trace w @
          [FsPathExists serverFile,
           FsReadFile serverFile,
           FsWriteFile serverFile (addImport routeName content)]\<rparr>) \<and>
     (includes_str content (importStatement routeName) \<longrightarrow>
        addImport routeName content = content) \<and>
     (\<not> includes_str content (importStatement routeName) \<longrightarrow>
        addImport routeName content =
          (case indexOfFrom content ''\<newline>'' (lastIndexOf content ''import '') of
             None \<Rightarrow> importStatement routeName @ ''\<newline>'' @ content
           | Some i \<Rightarrow>
               take (i + 1) content @ importStatement routeName @ ''\<newline>'' @
               drop (i + 1) content))"
proof -
  have "\<not> sublist ''app.listen'' (addImport routeName content)"
    using assms(3,4) by (intro addImport_no_listen) (simp_all add: includes_sublist)
  then have m: "addMount routeName (addImport routeName content) = addImport routeName content"
    by (rule addMount_without_listen)
  have a: "updateMainServer routeName w =
     (Inr (),
      w\<lparr>files := (files w)(serverFile \<mapsto> addImport routeName content),
        trace := trace w @
          [FsPathExists serverFile,
           FsReadFile serverFile,
           FsWriteFile serverFile (addImport routeName content)]\<rparr>)"
    using assms(1) m by (simp add: updateMainServer_def io_defs isPath_def)
  have b: "includes_str content (importStatement routeName) \<longrightarrow>
        addImport routeName content = content"
    by (simp add: addImport_def)
  have c: "\<not> includes_str content (importStatement routeName) \<longrightarrow>
        addImport routeName content =
          (case indexOfFrom content ''\<newline>'' (lastIndexOf content ''import '') of
             None \<Rightarrow> importStatement routeName @ ''\<newline>'' @ content
           | Some i \<Rightarrow>
               take (i + 1) content @ importStatement routeName @ ''\<newline>'' @
               drop (i + 1) content)"
    by (simp add: addImport_def Let_def split: option.splits)
  from a b c show ?thesis by blast
qed

lemma serverWorld_file: "files (serverWorld text) serverFile = Some text"
  by (simp add: serverWorld_def serverFile_def)

lemmas server_eval = addImport_def addMount_def importStatement_def mountStatement_def
  routerName_def includes_str_def indexOfFrom_def

theorem mount_silently_skipped_witness:
  \<open>files (serverWorld ''import { Hono } from "hono";\<newline>const app = new Hono();\<newline>'')
      serverFile = Some ''import { Hono } from "hono";\<newline>const app = new Hono();\<newline>'' \<and>
   \<not> includes_str ''import { Hono } from "hono";\<newline>const app = new Hono();\<newline>''
         (mountStatement ''ai'') \<and>
   \<not> includes_str ''import { Hono } from "hono";\<newline>const app = new Hono();\<newline>''
         ''app.listen'' \<and>
   \<not> includes_str ''ai'' ''app.listen'' \<and>
   files (snd (updateMainServer ''ai''
                 (serverWorld ''import { Hono } from "hono";\<newline>const app = new Hono();\<newline>'')))
         serverFile =
     Some (''import { Hono } from "hono";\<newline>'' @
           ''import { aiRouter } from \'./api/ai\';\<newline>'' @
           ''const app = new Hono();\<newline>'')\<close>
proof -
  let ?text = \<open>''import { Hono } from "hono";\<newline>const app = new Hono();\<newline>''\<close>
  have h1: "files (serverWorld ?text) serverFile = Some ?text" by (rule serverWorld_file)
  have h2: "\<not> includes_str ?text (mountStatement ''ai'')" by (simp add: server_eval)
  have h3: "\<not> includes_str ?text ''app.listen''" by (simp add: server_eval)
  have h4: "\<not> includes_str ''ai'' ''app.listen''" by (simp add: server_eval)
  have r: \<open>addImport ''ai'' ?text =
           ''import { Hono } from "hono";\<newline>'' @
           ''import { aiRouter } from \'./api/ai\';\<newline>'' @
           ''const app = new Hono();\<newline>''\<close>
    by (simp add: server_eval)
  from mount_silently_skipped[OF h1 h2 h3 h4]
  have "files (snd (updateMainServer ''ai'' (serverWorld ?text))) serverFile =
          Some (addImport ''ai'' ?text)"
    by simp
  with h1 h2 h3 h4 r show ?thesis by simp
qed

text \<open>
  Claim C10 as stated fails in two ways. On a text that already holds the import
  statement for \<^verbatim>\<open>ai\<close> (and neither the mount statement nor \<^verbatim>\<open>app.listen\<close>) nothing is
  inserted: the text is written back unchanged. For the route name
  \<^verbatim>\<open>webhooks/app.listen\<close> the import statement itself holds \<^verbatim>\<open>app.listen\<close>, and the
  mount statement is inserted in the middle of it.
\<close>

theorem mount_silently_skipped_counterexample:
  \<open>\<not> includes_str ''import { aiRouter } from \'./api/ai\';\<newline>'' (mountStatement ''ai'') \<and>
   \<not> includes_str ''import { aiRouter } from \'./api/ai\';\<newline>'' ''app.listen'' \<and>
   files (snd (updateMainServer ''ai''
                 (serverWorld ''import { aiRouter } from \'./api/ai\';\<newline>''))) serverFile =
     Some ''import { aiRouter } from \'./api/ai\';\<newline>'' \<and>
   \<not> includes_str ''import { Hono } from "hono";\<newline>'' (mountStatement ''webhooks/app.listen'') \<and>
   \<not> includes_str ''import { Hono } from "hono";\<newline>'' ''app.listen'' \<and>
   files (snd (updateMainServer ''webhooks/app.listen''
                 (serverWorld ''import { Hono } from "hono";\<newline>''))) serverFile =
     Some (''import { Hono } from "hono";\<newline>'' @
           ''import { webhookRouter } from \'./webhooks/'' @
           ''app.route(\'/\', webhookRouter);\<newline>\<newline>'' @
           ''app.listen\';\<newline>'')\<close>
  by (simp add: updateMainServer_def io_defs isPath_def serverWorld_def serverFile_def
      server_eval)

section \<open>A new entry in the build-tool config\<close>

lemma getSubstitution_plain:
  "CHR ''$'' \<notin> set template \<Longrightarrow> getSubstitution matched pre post template = template"
  by (induction matched pre post template rule: getSubstitution.induct) auto

lemma trimEnd_set: "set (trimEnd s) \<subseteq> set s"
proof -
  have "set (dropWhile isWhiteSpace (rev s)) \<subseteq> set (rev s)" by (rule set_dropWhileD[THEN subsetI])
  then show ?thesis by (simp add: trimEnd_def)
qed

lemma vite_entry_added:
  assumes "files w viteConfigPath = Some content"
    and "regexMatch inputMappingAt content = Some (pre, matched, inputContent, post)"
    and "\<not> includes_str inputContent (pageName @ '':'')"
    and "CHR ''$'' \<notin> set inputContent" and "CHR ''$'' \<notin> set pageName"
  shows "updateViteConfig pageName w =
     (Inr (),
      w\<lparr>files := (files w)(viteConfigPath \<mapsto>
              pre @ ''input: {'' @ trimEnd inputContent @ ''\<newline>'' @ newEntry pageName @
              ''\<newline>      }'' @ post),
        trace := trace w @
          [FsPathExists viteConfigPath,
           FsReadFile viteConfigPath,
           FsWriteFile viteConfigPath
             (pre @ ''input: {'' @ trimEnd inputContent @ ''\<newline>'' @ newEntry pageName @
              ''\<newline>      }'' @ post)]\<rparr>)"
proof -
  have "CHR ''$'' \<notin> set (trimEnd inputContent)" using assms(4) trimEnd_set by blast
  then have "CHR ''$'' \<notin> set (''input: {'' @ (trimEnd inputContent @ ''\<newline>'' @ newEntry pageName) @
                               ''\<newline>      }'')"
    using assms(5) by (simp add: newEntry_def)
  then have "replaceRegex inputMappingAt content
               (''input: {'' @ (trimEnd inputContent @ ''\<newline>'' @ newEntry pageName) @
                ''\<newline>      }'') =
             pre @ ''input: {'' @ trimEnd inputContent @ ''\<newline>'' @ newEntry pageName @
             ''\<newline>      }'' @ post"
    using assms(2) by (simp add: replaceRegex_def getSubstitution_plain)
  then show ?thesis
    using assms(1,2,3) by (simp add: updateViteConfig_def io_defs isPath_def Let_def)
qed

text \<open>
  Claim C3 holds for the three forms of the name (\<open>pascal_user_profile\<close>,
  \<open>camel_user_profile\<close>, \<open>snake_user_profile\<close>) and, by \<open>vite_entry_added\<close>, for a
  mapping whose body holds neither the text \<^verbatim>\<open>user-profile:\<close> nor a dollar sign. It
  fails where the presence test of \<open>updateViteConfig\<close> finds the text of the key inside
  a longer key: whenever the body of the mapping holds \<^verbatim>\<open><pageName>:\<close> anywhere, the
  function returns after reading the file and writes nothing.
\<close>

theorem vite_entry_missed:
  assumes "files w viteConfigPath = Some content"
    and "regexMatch inputMappingAt content = Some (pre, matched, inputContent, post)"
    and "includes_str inputContent (pageName @ '':'')"
  shows "updateViteConfig pageName w =
     (Inr (), w\<lparr>trace := trace w @ [FsPathExists viteConfigPath, FsReadFile viteConfigPath]\<rparr>)"
  using assms by (simp add: updateViteConfig_def io_defs isPath_def)

lemma viteWorld_file: "files (viteWorld text) viteConfigPath = Some text"
  by (simp add: viteWorld_def viteConfigPath_def)

lemma baseVite_match:
  \<open>regexMatch inputMappingAt baseViteText =
     Some (''export default defineConfig({\<newline>'' @
           ''  build: {\<newline>'' @
           ''    rollupOptions: {\<newline>'' @
           ''      '',
           ''input: {\<newline>'' @
           ''        main: resolve(__dirname, "src/client/index.html"),\<newline>'' @
           ''      }'',
           ''\<newline>'' @
           ''        main: resolve(__dirname, "src/client/index.html"),\<newline>'' @
           ''      '',
           '',\<newline>'' @
           ''    },\<newline>'' @
           ''  },\<newline>'' @
           ''});\<newline>'')\<close>
  by (simp add: baseViteText_def regex_eval)

lemma adminVite_match:
  \<open>regexMatch inputMappingAt adminViteText =
     Some (''export default defineConfig({\<newline>'' @
           ''  build: {\<newline>'' @
           ''    rollupOptions: {\<newline>'' @
           ''      '',
           ''input: {\<newline>'' @
           ''        main: resolve(__dirname, "src/client/index.html"),\<newline>'' @
           ''        admin-user-profile: resolve(__dirname, "src/client/admin-user-profile/index.html"),\<newline>'' @
           ''      }'',
           ''\<newline>'' @
           ''        main: resolve(__dirname, "src/client/index.html"),\<newline>'' @
           ''        admin-user-profile: resolve(__dirname, "src/client/admin-user-profile/index.html"),\<newline>'' @
           ''      '',
           '',\<newline>'' @
           ''    },\<newline>'' @
           ''  },\<newline>'' @
           ''});\<newline>'')\<close>
  by (simp add: adminViteText_def regex_eval)

lemma admin_body_has_key:
  \<open>includes_str
     (''\<newline>'' @
      ''        main: resolve(__dirname, "src/client/index.html"),\<newline>'' @
      ''        admin-user-profile: resolve(__dirname, "src/client/admin-user-profile/index.html"),\<newline>'' @
      ''      '')
     (''user-profile'' @ '':'')\<close>
proof -
  have \<open>''\<newline>'' @
      ''        main: resolve(__dirname, "src/client/index.html"),\<newline>'' @
      ''        admin-user-profile: resolve(__dirname, "src/client/admin-user-profile/index.html"),\<newline>'' @
      ''      '' =
     (''\<newline>'' @
      ''        main: resolve(__dirname, "src/client/index.html"),\<newline>'' @
      ''        admin-'') @ (''user-profile'' @ '':'') @
     ('' resolve(__dirname, "src/client/admin-user-profile/index.html"),\<newline>'' @
      ''      '')\<close>
    by simp
  then show ?thesis by (simp only: includes_sublist sublist_appendI)
qed

lemma base_body_lacks_key:
  \<open>\<not> includes_str
     (''\<newline>'' @
      ''        main: resolve(__dirname, "src/client/index.html"),\<newline>'' @
      ''      '')
     (''admin-user-profile'' @ '':'')\<close>
  by (simp add: includes_str_def)

lemma base_to_admin:
  "files (snd (updateViteConfig ''admin-user-profile'' (viteWorld baseViteText))) viteConfigPath =
     Some adminViteText"
  using vite_entry_added[OF viteWorld_file baseVite_match base_body_lacks_key]
  by (simp add: adminViteText_def newEntry_def trimEnd_def isWhiteSpace_def)

theorem vite_entry_missed_witness:
  "files (snd (updateViteConfig ''admin-user-profile'' (viteWorld baseViteText))) viteConfigPath =
     Some adminViteText \<and>
   updateViteConfig ''user-profile'' (viteWorld adminViteText) =
     (Inr (),
      (viteWorld adminViteText)
        \<lparr>trace := [FsPathExists ''vite.config.ts'', FsReadFile ''vite.config.ts'']\<rparr>)"
  using vite_entry_missed[OF viteWorld_file adminVite_match admin_body_has_key] base_to_admin
  by (simp add: viteWorld_def viteConfigPath_def)

section \<open>What a match of an import pattern looks like\<close>

lemma regexSearch_Some:
  "regexSearch at s = Some (i, cap, rest) \<Longrightarrow> i \<le> length s \<and> at (drop i s) = Some (cap, rest)"
proof (induction s arbitrary: i)
  case Nil
  then show ?case by auto
next
  case (Cons c cs)
  show ?case
  proof (cases "at (c # cs)")
    case None
    with Cons.prems obtain j where j: "regexSearch at cs = Some (j, cap, rest)" and i: "i = Suc j"
      by auto
    from Cons.IH[OF j] i show ?thesis by simp
  next
    case (Some r)
    with Cons.prems show ?thesis by (cases r) auto
  qed
qed

lemma lit_Some: "lit p s = Some r \<Longrightarrow> s = p @ r"
  by (auto simp: lit_def prefix_def split: if_splits)

lemma spaces1_suffix: "spaces1 s = Some r \<Longrightarrow> suffix r s"
  by (auto simp: spaces1_def suffix_dropWhile intro: suffix_ConsI split: list.splits if_splits)

lemma quoteChar_suffix: "quoteChar s = Some r \<Longrightarrow> suffix r s"
  by (auto simp: quoteChar_def intro: suffix_ConsI split: list.splits if_splits)

lemma optSemicolon_suffix: "suffix (optSemicolon s) s"
  by (auto simp: optSemicolon_def intro: suffix_ConsI split: list.splits)

lemma lit_suffix: "lit p s = Some r \<Longrightarrow> suffix r s"
  by (auto dest: lit_Some simp: suffix_def)

lemma suffix_trans: "suffix a b \<Longrightarrow> suffix b c \<Longrightarrow> suffix a c"
  by (rule suffix_order.trans)

lemma honoImportAt_Some:
  assumes "honoImportAt d = Some (cap, rest)"
  shows "\<exists>r. d = ''import'' @ r \<and> suffix rest r \<and> sublist cap r"
proof -
  from assms obtain r1 r2 r3 r4 r5 r6 r7 r8 r9 r10 where
    s1: "lit ''import'' d = Some r1" and s2: "spaces1 r1 = Some r2"
    and s3: "lit ''{'' r2 = Some r3" and ne: "takeWhile notBrace r3 \<noteq> []"
    and s4: "lit ''}'' (dropWhile notBrace r3) = Some r4" and s5: "spaces1 r4 = Some r5"
    and s6: "lit ''from'' r5 = Some r6" and s7: "spaces1 r6 = Some r7"
    and s8: "quoteChar r7 = Some r8" and s9: "lit ''hono/utils/http-status'' r8 = Some r9"
    and s10: "quoteChar r9 = Some r10"
    and c: "cap = takeWhile notBrace r3" and r: "rest = optSemicolon r10"
    unfolding honoImportAt_def
    by (auto simp: Option.bind_eq_Some_conv split: if_splits)
  have a3: "suffix r3 r1"
    using spaces1_suffix[OF s2] lit_suffix[OF s3] by (rule suffix_trans[rotated])
  have "suffix r4 r3"
    using lit_suffix[OF s4] suffix_dropWhile by (rule suffix_trans)
  moreover have "suffix r5 r4" by (rule spaces1_suffix[OF s5])
  moreover have "suffix r6 r5" by (rule lit_suffix[OF s6])
  moreover have "suffix r7 r6" by (rule spaces1_suffix[OF s7])
  moreover have "suffix r8 r7" by (rule quoteChar_suffix[OF s8])
  moreover have "suffix r9 r8" by (rule lit_suffix[OF s9])
  moreover have "suffix r10 r9" by (rule quoteChar_suffix[OF s10])
  moreover have "suffix rest r10" using r optSemicolon_suffix by simp
  ultimately have "suffix rest r3" by (meson suffix_trans)
  then have "suffix rest r1" using a3 by (rule suffix_trans)
  moreover have "sublist cap r1"
    using c a3 by (metis sublist_takeWhile suffix_imp_sublist sublist_order.order_trans)
  moreover have "d = ''import'' @ r1" by (rule lit_Some[OF s1])
  ultimately show ?thesis by blast
qed

lemma schemasImportAt_Some:
  assumes "schemasImportAt False d = Some (cap, rest)"
  shows "\<exists>r. d = ''import {'' @ r \<and> suffix rest r \<and> sublist cap r"
proof -
  from assms obtain r0 r r1 r2 r3 r4 where
    s0: "lit ''import '' d = Some r0" and s1: "lit ''{'' r0 = Some r"
    and s2: "lit ''} from '' (dropWhile notBrace r) = Some r1" and s3: "quoteChar r1 = Some r2"
    and s4: "lit ''@shared/types/request-response-schemas'' r2 = Some r3"
    and s5: "quoteChar r3 = Some r4" and s6: "lit '';'' r4 = Some rest"
    and c: "cap = takeWhile notBrace r"
    unfolding schemasImportAt_def
    by (auto simp: Option.bind_eq_Some_conv split: if_splits)
  have "suffix r1 r" using lit_suffix[OF s2] suffix_dropWhile by (rule suffix_trans)
  moreover have "suffix r2 r1" by (rule quoteChar_suffix[OF s3])
  moreover have "suffix r3 r2" by (rule lit_suffix[OF s4])
  moreover have "suffix r4 r3" by (rule quoteChar_suffix[OF s5])
  moreover have "suffix rest r4" by (rule lit_suffix[OF s6])
  ultimately have "suffix rest r" by (meson suffix_trans)
  moreover have "sublist cap r" using c by simp
  moreover have "d = ''import {'' @ r" using lit_Some[OF s0] lit_Some[OF s1] by simp
  ultimately show ?thesis by blast
qed

lemma regexMatch_parts:
  assumes "regexMatch at s = Some (pre, matched, cap, post)"
    and "\<And>d cap rest. at d = Some (cap, rest) \<Longrightarrow> \<exists>r. d = p @ r \<and> suffix rest r \<and> sublist cap r"
  shows "prefix p matched \<and> sublist cap s"
proof -
  from assms(1) obtain i where
    i: "regexSearch at s = Some (i, cap, post)"
    and m: "matched = take (length s - i - length post) (drop i s)"
    by (auto simp: regexMatch_def)
  from regexSearch_Some[OF i] have il: "i \<le> length s" and a: "at (drop i s) = Some (cap, post)"
    by simp_all
  from assms(2)[OF a] obtain r where d: "drop i s = p @ r" and sf: "suffix post r"
    and sc: "sublist cap r" by blast
  have "length (drop i s) = length p + length r" using d by simp
  then have len: "length s - i = length p + length r" by simp
  have "length post \<le> length r" using sf by (rule suffix_length_le)
  then have "length p \<le> length s - i - length post" using len by simp
  then have "prefix p matched" using m d by (simp add: prefix_def)
  moreover have "sublist cap s"
    by (metis sc d sublist_appendI append_Nil2 sublist_drop sublist_order.order_trans sub_right)
  ultimately show ?thesis by simp
qed

lemma honoMatch_parts:
  "regexMatch honoImportAt s = Some (pre, matched, cap, post) \<Longrightarrow>
     prefix ''import'' matched \<and> sublist cap s"
  by (erule regexMatch_parts) (rule honoImportAt_Some)

lemma schemasMatch_parts:
  "regexMatch (schemasImportAt False) s = Some (pre, matched, cap, post) \<Longrightarrow>
     prefix ''import {'' matched \<and> sublist cap s"
  by (erule regexMatch_parts) (rule schemasImportAt_Some)

lemma trimEnd_prefix: "prefix (trimEnd s) s"
proof -
  have "suffix (dropWhile isWhiteSpace (rev s)) (rev s)" by (rule suffix_dropWhile)
  then show ?thesis by (simp add: trimEnd_def suffix_to_prefix)
qed

lemma trim_sublist: "sublist (trim s) s"
  unfolding trim_def
  by (metis trimEnd_prefix prefix_imp_sublist sublist_dropWhile sublist_order.order_trans)

lemma stripTrailingComma_prefix: "prefix (stripTrailingComma s) s"
  by (induction s) auto

lemma cleaned_sublist: "sublist (stripTrailingComma (trim s)) s"
  by (metis stripTrailingComma_prefix prefix_imp_sublist trim_sublist sublist_order.order_trans)

lemma suffix_split: "suffix r s \<Longrightarrow> \<exists>p. s = p @ r"
  by (auto simp: suffix_def)

lemma quoteChar_Some: "quoteChar s = Some r \<Longrightarrow> \<exists>q. s = q # r \<and> (q = CHR 0x22 \<or> q = CHR 0x27)"
  by (auto simp: quoteChar_def split: list.splits if_splits)

lemma optSemicolon_split: "\<exists>z. s = z @ optSemicolon s \<and> (z = [] \<or> z = '';'')"
  by (auto simp: optSemicolon_def split: list.splits)

lemma honoImportAt_shape:
  assumes "honoImportAt d = Some (cap, rest)"
  shows "\<exists>a q z. d = (CHR ''i'' # a @ CHR ''s'' # q # z) @ rest \<and>
           (q = CHR 0x22 \<or> q = CHR 0x27) \<and> (z = [] \<or> z = '';'')"
proof -
  from assms obtain r1 r2 r3 r4 r5 r6 r7 r8 r9 r10 where
    s1: "lit ''import'' d = Some r1" and s2: "spaces1 r1 = Some r2"
    and s3: "lit ''{'' r2 = Some r3"
    and s4: "lit ''}'' (dropWhile notBrace r3) = Some r4" and s5: "spaces1 r4 = Some r5"
    and s6: "lit ''from'' r5 = Some r6" and s7: "spaces1 r6 = Some r7"
    and s8: "quoteChar r7 = Some r8" and s9: "lit ''hono/utils/http-status'' r8 = Some r9"
    and s10: "quoteChar r9 = Some r10" and r: "rest = optSemicolon r10"
    unfolding honoImportAt_def
    by (auto simp: Option.bind_eq_Some_conv split: if_splits)
  have "suffix r4 r3" using lit_suffix[OF s4] suffix_dropWhile by (rule suffix_trans)
  moreover have "suffix r3 r1"
    using spaces1_suffix[OF s2] lit_suffix[OF s3] by (rule suffix_trans[rotated])
  moreover have "suffix r5 r4" by (rule spaces1_suffix[OF s5])
  moreover have "suffix r6 r5" by (rule lit_suffix[OF s6])
  moreover have "suffix r7 r6" by (rule spaces1_suffix[OF s7])
  moreover have "suffix r8 r7" by (rule quoteChar_suffix[OF s8])
  ultimately have "suffix r8 r1" by (meson suffix_trans)
  then obtain p where p: "r1 = p @ r8" using suffix_split by blast
  from quoteChar_Some[OF s10] obtain q where q: "r9 = q # r10"
    and qq: "q = CHR 0x22 \<or> q = CHR 0x27" by blast
  from optSemicolon_split[of r10] r obtain z where z: "r10 = z @ rest"
    and zz: "z = [] \<or> z = '';''" by auto
  have "d = (CHR ''i'' # (''mport'' @ p @ ''hono/utils/http-statu'') @ CHR ''s'' # q # z) @ rest"
    using lit_Some[OF s1] p lit_Some[OF s9] q z by simp
  with qq zz show ?thesis by blast
qed

lemma schemasImportAt_shape:
  assumes "schemasImportAt False d = Some (cap, rest)"
  shows "\<exists>a q z. d = (CHR ''i'' # a @ CHR ''s'' # q # z) @ rest \<and>
           (q = CHR 0x22 \<or> q = CHR 0x27) \<and> (z = [] \<or> z = '';'')"
proof -
  from assms obtain r0 r r1 r2 r3 r4 where
    s0: "lit ''import '' d = Some r0" and s1: "lit ''{'' r0 = Some r"
    and s2: "lit ''} from '' (dropWhile notBrace r) = Some r1" and s3: "quoteChar r1 = Some r2"
    and s4: "lit ''@shared/types/request-response-schemas'' r2 = Some r3"
    and s5: "quoteChar r3 = Some r4" and s6: "lit '';'' r4 = Some rest"
    unfolding schemasImportAt_def
    by (auto simp: Option.bind_eq_Some_conv split: if_splits)
  have "suffix r1 r" using lit_suffix[OF s2] suffix_dropWhile by (rule suffix_trans)
  moreover have "suffix r r0" by (rule lit_suffix[OF s1])
  moreover have "suffix r2 r1" by (rule quoteChar_suffix[OF s3])
  ultimately have "suffix r2 r0" by (meson suffix_trans)
  then obtain p where p: "r0 = p @ r2" using suffix_split by blast
  from quoteChar_Some[OF s5] obtain q where q: "r3 = q # r4"
    and qq: "q = CHR 0x22 \<or> q = CHR 0x27" by blast
  have "d = (CHR ''i'' # (''mport '' @ p @ ''@shared/types/request-response-schema'') @
               CHR ''s'' # q # '';'') @ rest"
    using lit_Some[OF s0] p lit_Some[OF s4] q lit_Some[OF s6] by simp
  with qq show ?thesis by blast
qed

lemma regexMatch_matched:
  assumes "regexMatch at s = Some (pre, matched, cap, post)"
    and "\<And>d cap rest. at d = Some (cap, rest) \<Longrightarrow> \<exists>x. d = x @ rest \<and> P x"
  shows "P matched"
proof -
  from assms(1) obtain i where
    i: "regexSearch at s = Some (i, cap, post)"
    and m: "matched = take (length s - i - length post) (drop i s)"
    by (auto simp: regexMatch_def)
  from regexSearch_Some[OF i] have il: "i \<le> length s" and a: "at (drop i s) = Some (cap, post)"
    by simp_all
  from assms(2)[OF a] obtain x where d: "drop i s = x @ post" and px: "P x" by blast
  have "length (drop i s) = length x + length post" using d by simp
  then have "length s - i - length post = length x" by simp
  then have "matched = x" using m d by simp
  then show ?thesis using px by simp
qed

lemma honoMatch_shape:
  assumes "regexMatch honoImportAt s = Some (pre, matched, cap, post)"
  shows "\<exists>a q z. matched = CHR ''i'' # a @ CHR ''s'' # q # z \<and>
           (q = CHR 0x22 \<or> q = CHR 0x27) \<and> (z = [] \<or> z = '';'')"
  by (rule regexMatch_matched[OF assms]) (drule honoImportAt_shape, blast)

lemma schemasMatch_shape:
  assumes "regexMatch (schemasImportAt False) s = Some (pre, matched, cap, post)"
  shows "\<exists>a q z. matched = CHR ''i'' # a @ CHR ''s'' # q # z \<and>
           (q = CHR 0x22 \<or> q = CHR 0x27) \<and> (z = [] \<or> z = '';'')"
  by (rule regexMatch_matched[OF assms]) (drule schemasImportAt_shape, blast)

section \<open>Import steps keep a text free of anchors\<close>

lemma anchorFree_iff:
  "anchorFree s \<longleftrightarrow> \<not> sublist ''app.get(\"*\"'' s \<and> \<not> sublist ''export default'' s"
  by (simp add: anchorFree_def includes_sublist)

lemma AF_sep:
  "s \<in> set ''\<newline>{,;LSi'' \<Longrightarrow> anchorFree (a @ s # b) \<longleftrightarrow> anchorFree a \<and> anchorFree b"
  by (auto simp: anchorFree_iff sublist_sep)

lemma AF_seps:
  "anchorFree (a @ CHR ''\<newline>'' # b) \<longleftrightarrow> anchorFree a \<and> anchorFree b"
  "anchorFree (a @ CHR ''{'' # b) \<longleftrightarrow> anchorFree a \<and> anchorFree b"
  "anchorFree (a @ CHR '','' # b) \<longleftrightarrow> anchorFree a \<and> anchorFree b"
  "anchorFree (a @ CHR '';'' # b) \<longleftrightarrow> anchorFree a \<and> anchorFree b"
  by (simp_all add: AF_sep)

lemma AF_sub: "sublist x y \<Longrightarrow> anchorFree y \<Longrightarrow> anchorFree x"
  using sublist_trans by (auto simp: anchorFree_iff)

lemma AF_alnum: "set x \<subseteq> alnumChars \<Longrightarrow> anchorFree x"
proof -
  assume a: "set x \<subseteq> alnumChars"
  have "CHR ''.'' \<notin> alnumChars" "CHR '' '' \<notin> alnumChars"
    by (simp_all add: alnumChars_def lowerLetters_def upperLetters_def digitChars_def)
  with a have "CHR ''.'' \<notin> set x" "CHR '' '' \<notin> set x" by auto
  then show ?thesis
    using set_mono_sublist[of "''app.get(\"*\"''" x] set_mono_sublist[of "''export default''" x]
    by (auto simp: anchorFree_iff)
qed

lemma AF_cons_space: "anchorFree a \<Longrightarrow> anchorFree (CHR '' '' # a)"
  by (simp add: anchorFree_iff sublist_Cons_right)

lemma AF_snoc_space: "anchorFree a \<Longrightarrow> anchorFree (a @ '' '')"
  by (auto simp: anchorFree_iff sublist_snoc suffix_def)

lemma AF_join: "anchorFree a \<Longrightarrow> anchorFree b \<Longrightarrow> anchorFree (a @ '',\<newline>'' @ b)"
  using AF_sep[of "CHR '',''" a "CHR ''\<newline>'' # b"] AF_sep[of "CHR ''\<newline>''" "[]" b]
  by (simp add: anchorFree_iff)

lemma AF_line: "anchorFree a \<Longrightarrow> anchorFree b \<Longrightarrow> anchorFree (a @ ''\<newline>'' @ b)"
  using AF_sep[of "CHR ''\<newline>''" a b] by simp

lemma alnum_literals:
  "set x \<subseteq> alnumChars \<Longrightarrow> set (''oad'' @ x @ ''ResponseSchema'') \<subseteq> alnumChars"
  "set x \<subseteq> alnumChars \<Longrightarrow> set (''ave'' @ x @ ''RequestSchema'') \<subseteq> alnumChars"
  "set x \<subseteq> alnumChars \<Longrightarrow> set (''ave'' @ x @ ''ResponseSchema'') \<subseteq> alnumChars"
  by (auto simp: alnumChars_def lowerLetters_def upperLetters_def digitChars_def)

lemma AF_spaces: "anchorFree ''  ''"
  by (simp add: anchorFree_iff sublist_code)

lemma AF_schema_names:
  assumes "set x \<subseteq> alnumChars"
  shows "anchorFree (''  Load'' @ x @ ''ResponseSchema'')"
    and "anchorFree (''  Save'' @ x @ ''RequestSchema'')"
    and "anchorFree (''  Save'' @ x @ ''ResponseSchema'')"
proof -
  have 1: "anchorFree (''oad'' @ x @ ''ResponseSchema'')"
    using assms by (intro AF_alnum alnum_literals)
  have 2: "anchorFree (''ave'' @ x @ ''RequestSchema'')"
    using assms by (intro AF_alnum alnum_literals)
  have 3: "anchorFree (''ave'' @ x @ ''ResponseSchema'')"
    using assms by (intro AF_alnum alnum_literals)
  show "anchorFree (''  Load'' @ x @ ''ResponseSchema'')"
    using 1 AF_spaces AF_sep[of "CHR ''L''" "''  ''" "''oad'' @ x @ ''ResponseSchema''"]
    by simp
  show "anchorFree (''  Save'' @ x @ ''RequestSchema'')"
    using 2 AF_spaces AF_sep[of "CHR ''S''" "''  ''" "''ave'' @ x @ ''RequestSchema''"]
    by simp
  show "anchorFree (''  Save'' @ x @ ''ResponseSchema'')"
    using 3 AF_spaces AF_sep[of "CHR ''S''" "''  ''" "''ave'' @ x @ ''ResponseSchema''"]
    by simp
qed

lemma AF_from_hono: \<open>anchorFree '' ContentfulStatusCode } from "hono/utils/http-status"''\<close>
  by (simp add: anchorFree_iff sublist_code)

lemma AF_contentful_line:
  \<open>anchorFree ''import { ContentfulStatusCode } from "hono/utils/http-status";''\<close>
  by (simp add: anchorFree_iff sublist_code)

lemma AF_from_schemas: \<open>anchorFree ''} from "@shared/types/request-response-schemas"''\<close>
  by (simp add: anchorFree_iff sublist_code)

lemma AF_mport: "anchorFree ''mport {''"
  by (simp add: anchorFree_iff sublist_code)

lemma AF_take: "anchorFree c \<Longrightarrow> anchorFree (take n c)"
  by (rule AF_sub[OF sublist_take])

lemma AF_drop: "anchorFree c \<Longrightarrow> anchorFree (drop n c)"
  by (rule AF_sub[OF sublist_drop])

lemma AF_before_match:
  assumes "anchorFree c" and "prefix m (drop i c)" and "prefix p m"
  shows "anchorFree (take i c @ p)"
proof -
  from assms(2,3) obtain z where "drop i c = p @ z" by (auto simp: prefix_def)
  then have "c = (take i c @ p) @ z" by (metis append_take_drop_id append.assoc)
  then have "sublist (take i c @ p) c" by (metis sublist_append_rightI)
  then show ?thesis using assms(1) by (rule AF_sub)
qed

lemma AF_Nil: "anchorFree []"
  by (simp add: anchorFree_iff)

lemma AF_sep2:
  "s \<in> set ''s$&'' \<Longrightarrow> anchorFree (a @ s # b) \<longleftrightarrow> anchorFree a \<and> anchorFree b"
  by (auto simp: anchorFree_iff sublist_sep)

lemma AF_cons_quote:
  "q = CHR 0x22 \<or> q = CHR 0x27 \<Longrightarrow> anchorFree (q # b) \<longleftrightarrow> anchorFree b"
  by (auto simp: anchorFree_iff sublist_Cons_right)

lemma AF_matched:
  assumes "m = CHR ''i'' # a @ CHR ''s'' # q # z"
    and "q = CHR 0x22 \<or> q = CHR 0x27" and "z = [] \<or> z = '';''"
  shows "anchorFree (x @ m @ y) \<longleftrightarrow> anchorFree x \<and> anchorFree a \<and> anchorFree y"
proof -
  have "anchorFree (z @ y) \<longleftrightarrow> anchorFree y"
    using assms(3) AF_sep[of "CHR '';''" "[]" y] by (auto simp: AF_Nil)
  then have "anchorFree (q # z @ y) \<longleftrightarrow> anchorFree y"
    using AF_cons_quote[OF assms(2)] by simp
  then have "anchorFree (a @ CHR ''s'' # (q # z @ y)) \<longleftrightarrow> anchorFree a \<and> anchorFree y"
    using AF_sep2[of "CHR ''s''" a "q # z @ y"] by simp
  then have "anchorFree (x @ CHR ''i'' # (a @ CHR ''s'' # (q # z @ y))) \<longleftrightarrow>
             anchorFree x \<and> anchorFree a \<and> anchorFree y"
    using AF_sep[of "CHR ''i''" x "a @ CHR ''s'' # (q # z @ y)"] by simp
  then show ?thesis by (simp add: assms(1))
qed

lemma getSubstitution_anchorFree:
  "m = CHR ''i'' # a @ CHR ''s'' # q # z \<Longrightarrow> q = CHR 0x22 \<or> q = CHR 0x27 \<Longrightarrow>
   z = [] \<or> z = '';'' \<Longrightarrow> anchorFree a \<Longrightarrow>
   \<not> sublist [CHR ''$'', CHR 0x60] r \<Longrightarrow> \<not> sublist [CHR ''$'', CHR 0x27] r \<Longrightarrow>
   anchorFree (x @ r @ y) \<Longrightarrow>
   anchorFree (x @ getSubstitution m pre post r @ y)"
proof (induction m pre post r arbitrary: x rule: getSubstitution.induct)
  case (1 matched pre post)
  then show ?case by simp
next
  case (2 matched pre post c)
  then show ?case by simp
next
  case (3 matched pre post c d t)
  note shape = "3.prems"(1,2,3,4)
  from "3.prems"(5) have n1: "\<not> sublist [CHR ''$'', CHR 0x60] (d # t)"
    and m1: "\<not> prefix [CHR ''$'', CHR 0x60] (c # d # t)"
    by (simp_all add: sublist_Cons_right)
  from n1 have n1': "\<not> sublist [CHR ''$'', CHR 0x60] t" by (simp add: sublist_Cons_right)
  from "3.prems"(6) have n2: "\<not> sublist [CHR ''$'', CHR 0x27] (d # t)"
    and m2: "\<not> prefix [CHR ''$'', CHR 0x27] (c # d # t)"
    by (simp_all add: sublist_Cons_right)
  from n2 have n2': "\<not> sublist [CHR ''$'', CHR 0x27] t" by (simp add: sublist_Cons_right)
  note af = "3.prems"(7)
  show ?case
  proof (cases "c = CHR ''$''")
    case False
    have "anchorFree ((x @ [c]) @ getSubstitution matched pre post (d # t) @ y)"
      using "3.IH"(1)[OF False shape n1 n2, of "x @ [c]"] af by simp
    then show ?thesis using False by simp
  next
    case True
    note c = True
    from af c have ax: "anchorFree x" and ad: "anchorFree (d # t @ y)"
      using AF_sep2[of "CHR ''$''" x "d # t @ y"] by simp_all
    show ?thesis
    proof (cases "d = CHR ''$''")
      case True
      from ad True have "anchorFree ([] @ t @ y)"
        using AF_sep2[of "CHR ''$''" "[]" "t @ y"] by simp
      from "3.IH"(2)[OF _ True shape n1' n2' this] c
      have "anchorFree (getSubstitution matched pre post t @ y)" by simp
      then show ?thesis
        using c True ax AF_sep2[of "CHR ''$''" x "getSubstitution matched pre post t @ y"]
        by simp
    next
      case False
      note d1 = False
      show ?thesis
      proof (cases "d = CHR ''&''")
        case True
        from ad True have "anchorFree ([] @ t @ y)"
          using AF_sep2[of "CHR ''&''" "[]" "t @ y"] by simp
        from "3.IH"(3)[OF _ d1 True shape n1' n2' this] c
        have "anchorFree (getSubstitution matched pre post t @ y)" by simp
        then have "anchorFree (x @ matched @ getSubstitution matched pre post t @ y)"
          using AF_matched[OF shape(1,2,3)] ax shape(4) by simp
        then show ?thesis using c d1 True by simp
      next
        case False
        note d2 = False
        from m1 c have d3: "d \<noteq> CHR 0x60" by auto
        from m2 c have d4: "d \<noteq> CHR 0x27" by auto
        have "anchorFree ((x @ [c]) @ getSubstitution matched pre post (d # t) @ y)"
          using "3.IH"(6)[OF _ d1 d2 d3 d4 shape n1 n2, of "x @ [c]"] af c by simp
        then show ?thesis using c d1 d2 d3 d4 by simp
      qed
    qed
  qed
qed


lemma replaceString_anchorFree:
  assumes "anchorFree u"
    and "m = CHR ''i'' # a @ CHR ''s'' # q # z"
    and "q = CHR 0x22 \<or> q = CHR 0x27" and "z = [] \<or> z = '';''"
    and "\<not> sublist [CHR ''$'', CHR 0x60] r" and "\<not> sublist [CHR ''$'', CHR 0x27] r"
    and "\<And>i. prefix m (drop i u) \<Longrightarrow> anchorFree (take i u @ r @ drop (i + length m) u)"
  shows "anchorFree (replaceString u m r)"
proof (cases "indexOf u m")
  case None
  then show ?thesis using assms(1) by (simp add: replaceString_def)
next
  case (Some i)
  from indexOf_Some_prefix[OF Some] have p: "prefix m (drop i u)" by simp
  then have "sublist m u"
    by (metis prefix_imp_sublist sublist_drop sublist_order.order_trans)
  then have "anchorFree m" using assms(1) by (rule AF_sub)
  then have aa: "anchorFree a"
    using AF_matched[OF assms(2,3,4), of "[]" "[]"] by simp
  have "anchorFree (take i u @
          getSubstitution m (take i u) (drop (i + length m) u) r @ drop (i + length m) u)"
    by (rule getSubstitution_anchorFree[OF assms(2,3,4) aa assms(5,6) assms(7)[OF p]])
  then show ?thesis using Some by (simp add: replaceString_def Let_def)
qed

lemma sublist_padded_left:
  "set a \<inter> set p = {} \<Longrightarrow> p \<noteq> [] \<Longrightarrow> sublist p (a @ x) \<longleftrightarrow> sublist p x"
proof (induction a)
  case Nil
  then show ?case by simp
next
  case (Cons c a)
  then have "c \<notin> set p" by auto
  from sublist_sep[OF this, of "[]" "a @ x"] Cons show ?case by simp
qed

lemma sublist_padded_right:
  "set b \<inter> set p = {} \<Longrightarrow> p \<noteq> [] \<Longrightarrow> sublist p (x @ b) \<longleftrightarrow> sublist p x"
proof (induction b rule: rev_induct)
  case Nil
  then show ?case by simp
next
  case (snoc c b)
  then have "c \<notin> set p" by auto
  from sublist_sep[OF this, of "x @ b" "[]"] snoc show ?case by simp
qed

lemma sublist_padded:
  "set a \<inter> set p = {} \<Longrightarrow> set b \<inter> set p = {} \<Longrightarrow> p \<noteq> [] \<Longrightarrow>
   sublist p (a @ x @ b) \<longleftrightarrow> sublist p x"
  by (simp add: sublist_padded_left sublist_padded_right)


lemma quote_not_alnum: "CHR 0x60 \<notin> alnumChars" "CHR 0x27 \<notin> alnumChars" "CHR ''$'' \<notin> alnumChars"
  by (simp_all add: alnumChars_def lowerLetters_def upperLetters_def digitChars_def)

lemma addContentfulImport_anchorFree:
  assumes "anchorFree c"
    and "\<forall>l \<in> set (rewrittenImportLists x c).
           \<not> includes_str l [CHR ''$'', CHR 0x60] \<and> \<not> includes_str l [CHR ''$'', CHR 0x27]"
  shows "anchorFree (addContentfulImport c)"
proof (cases "includes_str c ''ContentfulStatusCode''")
  case True
  then show ?thesis using assms(1) by (simp add: addContentfulImport_def)
next
  case False
  note nc = False
  show ?thesis
  proof (cases "regexMatch honoImportAt c")
    case None
    show ?thesis
    proof (cases "indexOfFrom c ''\<newline>'' (indexOf c ''import'')")
      case None
      with nc \<open>regexMatch honoImportAt c = None\<close> assms(1) show ?thesis
        by (simp add: addContentfulImport_def)
    next
      case (Some e)
      from indexOfFrom_char[OF Some] have e: "e < length c" "c ! e = CHR ''\<newline>''" by simp_all
      then have t: "take (Suc e) c = take e c @ ''\<newline>''" by (simp add: take_Suc_conv_app_nth)
      have r: \<open>addContentfulImport c =
          take e c @ CHR ''\<newline>'' #
            (''import { ContentfulStatusCode } from "hono/utils/http-status";'' @
             CHR ''\<newline>'' # drop (Suc e) c)\<close>
        using nc \<open>regexMatch honoImportAt c = None\<close> Some t
        by (simp add: addContentfulImport_def contentfulImport_def)
      show ?thesis
        unfolding r
        by (simp only: AF_seps) (use assms(1) AF_contentful_line AF_take AF_drop in simp)
    qed
  next
    case (Some mt)
    then obtain pre m cap post where
      mt: "regexMatch honoImportAt c = Some (pre, m, cap, post)" by (cases mt) auto
    from honoMatch_parts[OF mt] have pm: "prefix ''import'' m" and sc: "sublist cap c" by simp_all
    from honoMatch_shape[OF mt] obtain a q z where
      shape: "m = CHR ''i'' # a @ CHR ''s'' # q # z" "q = CHR 0x22 \<or> q = CHR 0x27"
        "z = [] \<or> z = '';''" by blast
    from assms(2) nc mt have nl: \<open>\<not> sublist [CHR ''$'', CHR 0x60] cap\<close> \<open>\<not> sublist [CHR ''$'', CHR 0x27] cap\<close>
      by (simp_all add: rewrittenImportLists_def includes_sublist)
    let ?X = "stripTrailingComma (trim cap)"
    let ?R = \<open>''import { '' @ (?X @ '', ContentfulStatusCode'') @
              '' } from "hono/utils/http-status";''\<close>
    have sx: "sublist ?X c" using cleaned_sublist sc by (rule sublist_trans)
    have nx: \<open>\<not> sublist [CHR ''$'', CHR 0x60] ?X\<close> \<open>\<not> sublist [CHR ''$'', CHR 0x27] ?X\<close>
      using nl cleaned_sublist[of cap] sublist_trans by blast+
    show ?thesis
    proof (cases "includes_str (trim cap) ''ContentfulStatusCode''")
      case True
      with nc mt assms(1) show ?thesis by (simp add: addContentfulImport_def)
    next
      case False
      with nc mt have r: "addContentfulImport c = replaceString c m ?R"
        by (simp add: addContentfulImport_def Let_def)
      have R: \<open>?R = ''import { '' @ ?X @ '', ContentfulStatusCode } from "hono/utils/http-status";''\<close>
        by simp
      have nr1: "\<not> sublist [CHR ''$'', CHR 0x60] ?R"
        unfolding R by (subst sublist_padded) (simp_all add: nx)
      have nr2: "\<not> sublist [CHR ''$'', CHR 0x27] ?R"
        unfolding R by (subst sublist_padded) (simp_all add: nx)
      note nr = nr1 nr2
      have "anchorFree (take i c @ ?R @ drop (i + length m) c)" if i: "prefix m (drop i c)" for i
      proof -
        have a1: "anchorFree ((take i c @ ''import'') @ '' '')"
          by (rule AF_snoc_space) (rule AF_before_match[OF assms(1) i pm])
        have a2: "anchorFree (CHR '' '' # ?X)"
          by (rule AF_cons_space) (rule AF_sub[OF sx assms(1)])
        have a3: "anchorFree (drop (i + length m) c)" by (rule AF_drop[OF assms(1)])
        have f: \<open>take i c @ ?R @ drop (i + length m) c =
             ((take i c @ ''import'') @ '' '') @ CHR ''{'' #
               ((CHR '' '' # ?X) @ CHR '','' #
                 ('' ContentfulStatusCode } from "hono/utils/http-status"'' @ CHR '';'' #
                    drop (i + length m) c))\<close>
          by simp
        show ?thesis
          unfolding f by (simp only: AF_seps) (use a1 a2 a3 AF_from_hono in simp)
      qed
      from replaceString_anchorFree[OF assms(1) shape nr this] r show ?thesis by simp
    qed
  qed
qed

lemma AF_sep_i: "anchorFree (a @ CHR ''i'' # b) \<longleftrightarrow> anchorFree a \<and> anchorFree b"
  by (simp add: AF_sep)

lemma AF_mport_space: "anchorFree ''mport ''"
  by (simp add: anchorFree_iff sublist_code)

lemma addSchemaImports_anchorFree:
  assumes "anchorFree c" and "anchorFree u"
    and "\<forall>l \<in> set (rewrittenImportLists x c).
           \<not> includes_str l [CHR ''$'', CHR 0x60] \<and> \<not> includes_str l [CHR ''$'', CHR 0x27]"
    and "set x \<subseteq> alnumChars"
  shows "anchorFree (addSchemaImports x c u)"
proof (cases "includes_str c (''Load'' @ x @ ''ResponseSchema'')")
  case True
  then show ?thesis using assms(2) by (simp add: addSchemaImports_def)
next
  case False
  note nc = False
  note names = AF_schema_names[OF assms(4)]
  have dx: "CHR ''$'' \<notin> set x" "CHR 0x60 \<notin> set x" "CHR 0x27 \<notin> set x"
    using assms(4) quote_not_alnum by auto
  show ?thesis
  proof (cases "regexMatch (schemasImportAt False) c")
    case None
    note nm = None
    show ?thesis
    proof (cases "indexOf u ''import''")
      case None
      with nc nm assms(2) show ?thesis by (simp add: addSchemaImports_def)
    next
      case (Some i)
      with nc nm have r: "addSchemaImports x c u = take i u @ schemaImportToAdd x @ drop i u"
        by (simp add: addSchemaImports_def)
      have f: \<open>take i u @ schemaImportToAdd x @ drop i u =
          take i u @ CHR ''i'' #
            (''mport '' @ CHR ''{'' #
              ([] @ CHR ''\<newline>'' #
                ((''  Load'' @ x @ ''ResponseSchema'') @ CHR '','' #
                  ([] @ CHR ''\<newline>'' #
                    ((''  Save'' @ x @ ''RequestSchema'') @ CHR '','' #
                      ([] @ CHR ''\<newline>'' #
                        ((''  Save'' @ x @ ''ResponseSchema'') @ CHR '','' #
                          ([] @ CHR ''\<newline>'' #
                            (''} from "@shared/types/request-response-schemas"'' @ CHR '';'' #
                              ([] @ CHR ''\<newline>'' # drop i u))))))))))\<close>
        by (simp add: schemaImportToAdd_def)
      show ?thesis
        unfolding r f
        by (simp only: AF_seps AF_sep_i)
          (use names assms(2) AF_Nil AF_mport_space AF_from_schemas AF_take AF_drop in simp)
    qed
  next
    case (Some mt)
    then obtain pre m cap post where
      mt: "regexMatch (schemasImportAt False) c = Some (pre, m, cap, post)" by (cases mt) auto
    from schemasMatch_parts[OF mt] have pm: "prefix ''import {'' m" and sc: "sublist cap c"
      by simp_all
    from pm have pm': "prefix ''import '' m" by (auto simp: prefix_def)
    from schemasMatch_shape[OF mt] obtain a q z where
      shape: "m = CHR ''i'' # a @ CHR ''s'' # q # z" "q = CHR 0x22 \<or> q = CHR 0x27"
        "z = [] \<or> z = '';''" by blast
    from assms(3) nc mt
    have nl: "\<not> sublist [CHR ''$'', CHR 0x60] cap" "\<not> sublist [CHR ''$'', CHR 0x27] cap"
      by (simp_all add: rewrittenImportLists_def includes_sublist)
    let ?X = "stripTrailingComma (trim cap)"
    let ?R = \<open>''import {'' @
              (?X @ '',\<newline>'' @
               ''  Load'' @ x @ ''ResponseSchema,\<newline>'' @
               ''  Save'' @ x @ ''RequestSchema,\<newline>'' @
               ''  Save'' @ x @ ''ResponseSchema'') @ ''\<newline>'' @
              ''} from "@shared/types/request-response-schemas";''\<close>
    let ?B = \<open>'',\<newline>  Load'' @ x @ ''ResponseSchema,\<newline>  Save'' @ x @
              ''RequestSchema,\<newline>  Save'' @ x @
              ''ResponseSchema\<newline>} from "@shared/types/request-response-schemas";''\<close>
    have sx: "sublist ?X c" using cleaned_sublist sc by (rule sublist_trans)
    have nx: "\<not> sublist [CHR ''$'', CHR 0x60] ?X" "\<not> sublist [CHR ''$'', CHR 0x27] ?X"
      using nl cleaned_sublist[of cap] sublist_trans by blast+
    have r: "addSchemaImports x c u = replaceString u m ?R"
      using nc mt by (simp add: addSchemaImports_def Let_def)
    have R: "?R = ''import {'' @ ?X @ ?B" by simp
    have nr1: "\<not> sublist [CHR ''$'', CHR 0x60] ?R"
      unfolding R by (subst sublist_padded) (use dx nx in auto)
    have nr2: "\<not> sublist [CHR ''$'', CHR 0x27] ?R"
      unfolding R by (subst sublist_padded) (use dx nx in auto)
    have "anchorFree (take i u @ ?R @ drop (i + length m) u)" if i: "prefix m (drop i u)" for i
    proof -
      have a1: "anchorFree (take i u @ ''import '')"
        by (rule AF_before_match[OF assms(2) i pm'])
      have a2: "anchorFree ?X" by (rule AF_sub[OF sx assms(1)])
      have a3: "anchorFree (drop (i + length m) u)" by (rule AF_drop[OF assms(2)])
      have f: \<open>take i u @ ?R @ drop (i + length m) u =
          (take i u @ ''import '') @ CHR ''{'' #
            (?X @ CHR '','' #
              ([] @ CHR ''\<newline>'' #
                ((''  Load'' @ x @ ''ResponseSchema'') @ CHR '','' #
                  ([] @ CHR ''\<newline>'' #
                    ((''  Save'' @ x @ ''RequestSchema'') @ CHR '','' #
                      ([] @ CHR ''\<newline>'' #
                        ((''  Save'' @ x @ ''ResponseSchema'') @ CHR ''\<newline>'' #
                          (''} from "@shared/types/request-response-schemas"'' @ CHR '';'' #
                             drop (i + length m) u))))))))\<close>
        by simp
      show ?thesis
        unfolding f
        by (simp only: AF_seps) (use names a1 a2 a3 AF_Nil AF_from_schemas in simp)
    qed
    from replaceString_anchorFree[OF assms(2) shape nr1 nr2 this] r show ?thesis by simp
  qed
qed

lemma toPascalCase_alnum:
  assumes "toPascalCase name = Inr cap"
  shows "set cap \<subseteq> alnumChars"
proof -
  from assms have n: "find (\<lambda>part. \<not> segmentOk part) (nameParts name) = None"
    and c: "cap = concat (map capitalize (nameParts name))"
    by (auto simp: toPascalCase_def Let_def split: if_splits option.splits)
  from n have "\<forall>p \<in> set (nameParts name). segmentOk p" by (simp add: find_None_iff)
  then show ?thesis using c capitalize_chars by (fastforce simp: alnumChars_def)
qed

lemma insertRoutes_anchorFree:
  assumes "anchorFree u"
  shows "insertRoutes name cap u = u @ routesToAdd name cap"
proof -
  from assms have "indexOf u ''app.get(\"*\"'' = None"
    and "lastIndexOf u ''export default'' = None"
    by (simp_all add: anchorFree_iff indexOf_None_iff lastIndexOf_None_iff)
  then show ?thesis by (simp add: insertRoutes_def)
qed

lemma patchRoutes_appends:
  assumes "anchorFree c"
    and "\<forall>l \<in> set (rewrittenImportLists cap c).
           \<not> includes_str l [CHR ''$'', CHR 0x60] \<and> \<not> includes_str l [CHR ''$'', CHR 0x27]"
    and "toPascalCase name = Inr cap"
  shows "patchRoutes name cap c =
           addSchemaImports cap c (addContentfulImport c) @ routesToAdd name cap"
proof -
  have "anchorFree (addContentfulImport c)"
    by (rule addContentfulImport_anchorFree[OF assms(1,2)])
  then have "anchorFree (addSchemaImports cap c (addContentfulImport c))"
    using assms(1,2) toPascalCase_alnum[OF assms(3)]
    by (intro addSchemaImports_anchorFree)
  then show ?thesis unfolding patchRoutes_def by (rule insertRoutes_anchorFree)
qed

section \<open>A route file without an anchor\<close>

text \<open>
  Claim C2, as the code has it. Let the route file hold neither a catch-all route nor
  \<^verbatim>\<open>export default\<close>, and let no import list that an import step rewrites hold a dollar
  sign followed by a backquote or by an apostrophe: in a replacement text of
  \<^verbatim>\<open>String.replace\<close> these two stand for the text before and after the match. Then
  \<open>addRoutesToIndex\<close> returns normally and writes the text with its imports updated and
  the route block appended at the end. It emits no warning: the trace gains the start
  of the spinner, the three calls on the file and the spinner's success line.
\<close>

theorem routes_appended_silently:
  assumes "toPascalCase name = Inr cap" and "files w routesPath = Some c"
    and "\<not> includes_str c ''app.get(\"*\"''" and "\<not> includes_str c ''export default''"
    and "\<forall>l \<in> set (rewrittenImportLists cap c).
           \<not> includes_str l [CHR ''$'', CHR 0x60] \<and> \<not> includes_str l [CHR ''$'', CHR 0x27]"
  shows "addRoutesToIndex name routesPath w =
     (Inr (),
      w\<lparr>files := (files w)(routesPath \<mapsto>
              addSchemaImports cap c (addContentfulImport c) @ routesToAdd name cap),
        trace := trace w @
          [SpinnerStart ''Adding routes to index.ts...'',
           FsPathExists routesPath,
           FsReadFile routesPath,
           FsWriteFile routesPath
             (addSchemaImports cap c (addContentfulImport c) @ routesToAdd name cap),
           SpinnerSucceed ''Added routes to index.ts'']\<rparr>)"
proof -
  have "anchorFree c" using assms(3,4) by (simp add: anchorFree_def)
  from patchRoutes_appends[OF this assms(5,1)] addRoutesToIndex_patches[OF assms(1,2)]
  show ?thesis by simp
qed

lemma plain_anchorFree: "anchorFree plainRoutesText"
  by (simp add: anchorFree_def includes_str_def plainRoutesText_def)

lemma plain_lists: "rewrittenImportLists ''UserProfile'' plainRoutesText = []"
  by (simp add: rewrittenImportLists_def plainRoutesText_def includes_str_def regex_eval)

lemma plain_imports:
  "addSchemaImports ''UserProfile'' plainRoutesText (addContentfulImport plainRoutesText) =
     routesHead"
proof -
  have \<open>addContentfulImport plainRoutesText =
     ''import { Hono } from "hono";\<newline>'' @
     ''import { ContentfulStatusCode } from "hono/utils/http-status";\<newline>'' @
     ''const app = new Hono();\<newline>''\<close>
    by (simp add: plainRoutesText_def addContentfulImport_def includes_str_def indexOfFrom_def
        regex_eval contentfulImport_def)
  then show ?thesis
    by (simp add: plainRoutesText_def addSchemaImports_def includes_str_def
        regex_eval schemaImportToAdd_def routesHead_def)
qed

lemma template_anchorFree: "anchorFree templateRoutesText"
  by (simp add: anchorFree_def includes_str_def templateRoutesText_def)

lemma template_lists: "rewrittenImportLists ''UserProfile'' templateRoutesText = ['' $fetch '']"
  by (simp add: rewrittenImportLists_def templateRoutesText_def includes_str_def regex_eval)

lemma template_imports:
  "addSchemaImports ''UserProfile'' templateRoutesText (addContentfulImport templateRoutesText) =
     templateHead"
proof -
  have \<open>addContentfulImport templateRoutesText =
     ''import { $fetch, ContentfulStatusCode } from "hono/utils/http-status";\<newline>'' @
     ''const greet = (n) => `hi ${n}`;\<newline>''\<close>
    by (simp add: templateRoutesText_def addContentfulImport_def includes_str_def regex_eval
        trim_def trimEnd_def replaceString_def)
  then show ?thesis
    by (simp add: templateRoutesText_def addSchemaImports_def includes_str_def
        regex_eval schemaImportToAdd_def templateHead_def)
qed

theorem routes_appended_silently_witness:
  "toPascalCase ''user-profile'' = Inr ''UserProfile'' \<and>
   files (routesFileWorld plainRoutesText) ''src/index.ts'' = Some plainRoutesText \<and>
   \<not> includes_str plainRoutesText ''app.get(\"*\"'' \<and>
   \<not> includes_str plainRoutesText ''export default'' \<and>
   rewrittenImportLists ''UserProfile'' plainRoutesText = [] \<and>
   addRoutesToIndex ''user-profile'' ''src/index.ts'' (routesFileWorld plainRoutesText) =
     (Inr (),
      \<lparr>files = [''src/index.ts'' \<mapsto> routesHead @ userProfileRoutes],
       dirs = {},
       trace =
         [SpinnerStart ''Adding routes to index.ts...'',
          FsPathExists ''src/index.ts'',
          FsReadFile ''src/index.ts'',
          FsWriteFile ''src/index.ts'' (routesHead @ userProfileRoutes),
          SpinnerSucceed ''Added routes to index.ts'']\<rparr>) \<and>
   files (routesFileWorld templateRoutesText) ''src/index.ts'' = Some templateRoutesText \<and>
   \<not> includes_str templateRoutesText ''app.get(\"*\"'' \<and>
   \<not> includes_str templateRoutesText ''export default'' \<and>
   rewrittenImportLists ''UserProfile'' templateRoutesText = ['' $fetch ''] \<and>
   addRoutesToIndex ''user-profile'' ''src/index.ts'' (routesFileWorld templateRoutesText) =
     (Inr (),
      \<lparr>files = [''src/index.ts'' \<mapsto> templateHead @ userProfileRoutes],
       dirs = {},
       trace =
         [SpinnerStart ''Adding routes to index.ts...'',
          FsPathExists ''src/index.ts'',
          FsReadFile ''src/index.ts'',
          FsWriteFile ''src/index.ts'' (templateHead @ userProfileRoutes),
          SpinnerSucceed ''Added routes to index.ts'']\<rparr>)"
proof -
  have a: "\<not> includes_str plainRoutesText ''app.get(\"*\"''"
    and b: "\<not> includes_str plainRoutesText ''export default''"
    using plain_anchorFree by (simp_all add: anchorFree_def)
  have c: "\<forall>l \<in> set (rewrittenImportLists ''UserProfile'' plainRoutesText).
             \<not> includes_str l [CHR ''$'', CHR 0x60] \<and> \<not> includes_str l [CHR ''$'', CHR 0x27]"
    by (simp add: plain_lists)
  from routes_appended_silently[OF pascal_user_profile routesFileWorld_file a b c]
  have d: "addRoutesToIndex ''user-profile'' ''src/index.ts'' (routesFileWorld plainRoutesText) =
     (Inr (),
      \<lparr>files = [''src/index.ts'' \<mapsto> routesHead @ userProfileRoutes],
       dirs = {},
       trace =
         [SpinnerStart ''Adding routes to index.ts...'',
          FsPathExists ''src/index.ts'',
          FsReadFile ''src/index.ts'',
          FsWriteFile ''src/index.ts'' (routesHead @ userProfileRoutes),
          SpinnerSucceed ''Added routes to index.ts'']\<rparr>)"
    unfolding plain_imports routes_user_profile by (simp add: routesFileWorld_def)
  have a': "\<not> includes_str templateRoutesText ''app.get(\"*\"''"
    and b': "\<not> includes_str templateRoutesText ''export default''"
    using template_anchorFree by (simp_all add: anchorFree_def)
  have c': "\<forall>l \<in> set (rewrittenImportLists ''UserProfile'' templateRoutesText).
             \<not> includes_str l [CHR ''$'', CHR 0x60] \<and> \<not> includes_str l [CHR ''$'', CHR 0x27]"
    by (simp add: template_lists includes_str_def)
  from routes_appended_silently[OF pascal_user_profile routesFileWorld_file a' b' c']
  have d': "addRoutesToIndex ''user-profile'' ''src/index.ts''
              (routesFileWorld templateRoutesText) =
     (Inr (),
      \<lparr>files = [''src/index.ts'' \<mapsto> templateHead @ userProfileRoutes],
       dirs = {},
       trace =
         [SpinnerStart ''Adding routes to index.ts...'',
          FsPathExists ''src/index.ts'',
          FsReadFile ''src/index.ts'',
          FsWriteFile ''src/index.ts'' (templateHead @ userProfileRoutes),
          SpinnerSucceed ''Added routes to index.ts'']\<rparr>)"
    unfolding template_imports routes_user_profile by (simp add: routesFileWorld_def)
  from pascal_user_profile routesFileWorld_file[of plainRoutesText] a b plain_lists d
    routesFileWorld_file[of templateRoutesText] a' b' template_lists d'
  show ?thesis by blast
qed

lemma dollar_patched:
  \<open>patchRoutes ''user-profile'' ''UserProfile'' dollarRoutesText =
     ''import {'' @ routesToAdd ''user-profile'' ''UserProfile'' @ ''\<newline>'' @
     ''app.get("*",\<newline>'' @
     ''  LoadUserProfileResponseSchema,\<newline>'' @
     ''  SaveUserProfileRequestSchema,\<newline>'' @
     ''  SaveUserProfileResponseSchema\<newline>'' @
     ''} from "@shared/types/request-response-schemas";"*"''\<close>
proof -
  have a: "addContentfulImport dollarRoutesText = dollarRoutesText"
    by (simp add: dollarRoutesText_def addContentfulImport_def includes_str_def indexOfFrom_def
        regex_eval)
  have b: \<open>addSchemaImports ''UserProfile'' dollarRoutesText dollarRoutesText =
     ''import {app.get("*",\<newline>'' @
     ''  LoadUserProfileResponseSchema,\<newline>'' @
     ''  SaveUserProfileRequestSchema,\<newline>'' @
     ''  SaveUserProfileResponseSchema\<newline>'' @
     ''} from "@shared/types/request-response-schemas";"*"''\<close>
    by (simp add: dollarRoutesText_def addSchemaImports_def includes_str_def regex_eval
        trim_def trimEnd_def replaceString_def)
  show ?thesis
    unfolding patchRoutes_def a b by (simp add: insertRoutes_def)
qed

lemma backtick_patched:
  \<open>patchRoutes ''user-profile'' ''UserProfile'' backtickRoutesText =
     ''"*"import {\<newline>'' @
     ''  LoadUserProfileResponseSchema,\<newline>'' @
     ''  SaveUserProfileRequestSchema,\<newline>'' @
     ''  SaveUserProfileResponseSchema,\<newline>'' @
     ''} from "@shared/types/request-response-schemas";\<newline>'' @
     ''import { '' @ routesToAdd ''user-profile'' ''UserProfile'' @ ''\<newline>'' @
     ''app.get("*", ContentfulStatusCode } from "hono/utils/http-status";''\<close>
proof -
  have a: \<open>addContentfulImport backtickRoutesText =
     ''"*"import { app.get("*", ContentfulStatusCode } from "hono/utils/http-status";''\<close>
    by (simp add: backtickRoutesText_def addContentfulImport_def includes_str_def regex_eval
        trim_def trimEnd_def replaceString_def)
  have b: \<open>addSchemaImports ''UserProfile'' backtickRoutesText
       ''"*"import { app.get("*", ContentfulStatusCode } from "hono/utils/http-status";'' =
     ''"*"import {\<newline>'' @
     ''  LoadUserProfileResponseSchema,\<newline>'' @
     ''  SaveUserProfileRequestSchema,\<newline>'' @
     ''  SaveUserProfileResponseSchema,\<newline>'' @
     ''} from "@shared/types/request-response-schemas";\<newline>'' @
     ''import { app.get("*", ContentfulStatusCode } from "hono/utils/http-status";''\<close>
    by (simp add: backtickRoutesText_def addSchemaImports_def includes_str_def regex_eval
        schemaImportToAdd_def)
  show ?thesis
    unfolding patchRoutes_def a b by (simp add: insertRoutes_def)
qed

text \<open>
  Claim C2 as stated fails in two ways. On a route file of two lines with no anchor the
  block is appended, but the trace holds no warning: the spinner reports success. On a
  one-line file with no anchor whose import list ends in a dollar sign and an
  apostrophe, the replacement text of \<^verbatim>\<open>String.replace\<close> expands the two to the rest of
  the file, a catch-all pattern appears, and the block is written into the import
  statement, not at the end of the file. The same happens with a dollar sign and a
  backquote, which expand to the start of the file.
\<close>

theorem routes_appended_counterexample:
  \<open>\<not> includes_str plainRoutesText ''app.get("*"'' \<and>
   \<not> includes_str plainRoutesText ''export default'' \<and>
   trace (snd (addRoutesToIndex ''user-profile'' ''src/index.ts''
                 (routesFileWorld plainRoutesText))) =
     [SpinnerStart ''Adding routes to index.ts...'',
      FsPathExists ''src/index.ts'',
      FsReadFile ''src/index.ts'',
      FsWriteFile ''src/index.ts'' (routesHead @ userProfileRoutes),
      SpinnerSucceed ''Added routes to index.ts''] \<and>
   \<not> includes_str dollarRoutesText ''app.get("*"'' \<and>
   \<not> includes_str dollarRoutesText ''export default'' \<and>
   files (snd (addRoutesToIndex ''user-profile'' ''src/index.ts''
                 (routesFileWorld dollarRoutesText))) ''src/index.ts'' =
     Some (''import {'' @ userProfileRoutes @ ''\<newline>'' @
           ''app.get("*",\<newline>'' @
           ''  LoadUserProfileResponseSchema,\<newline>'' @
           ''  SaveUserProfileRequestSchema,\<newline>'' @
           ''  SaveUserProfileResponseSchema\<newline>'' @
           ''} from "@shared/types/request-response-schemas";"*"'') \<and>
   \<not> includes_str backtickRoutesText ''app.get("*"'' \<and>
   \<not> includes_str backtickRoutesText ''export default'' \<and>
   files (snd (addRoutesToIndex ''user-profile'' ''src/index.ts''
                 (routesFileWorld backtickRoutesText))) ''src/index.ts'' =
     Some (''"*"import {\<newline>'' @
           ''  LoadUserProfileResponseSchema,\<newline>'' @
           ''  SaveUserProfileRequestSchema,\<newline>'' @
           ''  SaveUserProfileResponseSchema,\<newline>'' @
           ''} from "@shared/types/request-response-schemas";\<newline>'' @
           ''import { '' @ userProfileRoutes @ ''\<newline>'' @
           ''app.get("*", ContentfulStatusCode } from "hono/utils/http-status";'')\<close>
proof -
  have a: \<open>\<not> includes_str plainRoutesText ''app.get("*"''\<close>
    and b: "\<not> includes_str plainRoutesText ''export default''"
    using plain_anchorFree by (simp_all add: anchorFree_def)
  have l: "\<forall>l \<in> set (rewrittenImportLists ''UserProfile'' plainRoutesText).
             \<not> includes_str l [CHR ''$'', CHR 0x60] \<and> \<not> includes_str l [CHR ''$'', CHR 0x27]"
    by (simp add: plain_lists)
  have c: "patchRoutes ''user-profile'' ''UserProfile'' plainRoutesText =
             routesHead @ userProfileRoutes"
    using patchRoutes_appends[OF plain_anchorFree l pascal_user_profile]
    unfolding plain_imports routes_user_profile .
  have d: "trace (snd (addRoutesToIndex ''user-profile'' ''src/index.ts''
                 (routesFileWorld plainRoutesText))) =
     [SpinnerStart ''Adding routes to index.ts...'',
      FsPathExists ''src/index.ts'',
      FsReadFile ''src/index.ts'',
      FsWriteFile ''src/index.ts'' (routesHead @ userProfileRoutes),
      SpinnerSucceed ''Added routes to index.ts'']"
    using addRoutesToIndex_patches[OF pascal_user_profile routesFileWorld_file, of plainRoutesText]
    unfolding c by (simp add: routesFileWorld_def)
  have e: \<open>\<not> includes_str dollarRoutesText ''app.get("*"''\<close>
    and f: "\<not> includes_str dollarRoutesText ''export default''"
    by (simp_all add: includes_str_def dollarRoutesText_def)
  have g: "files (snd (addRoutesToIndex ''user-profile'' ''src/index.ts''
                 (routesFileWorld dollarRoutesText))) ''src/index.ts'' =
             Some (patchRoutes ''user-profile'' ''UserProfile'' dollarRoutesText)"
    using addRoutesToIndex_patches[OF pascal_user_profile routesFileWorld_file, of dollarRoutesText]
    by simp
  have e': \<open>\<not> includes_str backtickRoutesText ''app.get("*"''\<close>
    and f': "\<not> includes_str backtickRoutesText ''export default''"
    by (simp_all add: includes_str_def backtickRoutesText_def)
  have g': "files (snd (addRoutesToIndex ''user-profile'' ''src/index.ts''
                 (routesFileWorld backtickRoutesText))) ''src/index.ts'' =
             Some (patchRoutes ''user-profile'' ''UserProfile'' backtickRoutesText)"
    using addRoutesToIndex_patches[OF pascal_user_profile routesFileWorld_file,
        of backtickRoutesText]
    by simp
  from a b d e f g[unfolded dollar_patched routes_user_profile]
    e' f' g'[unfolded backtick_patched routes_user_profile]
  show ?thesis by blast
qed

section \<open>The mapping pattern, declaratively\<close>

lemma regexSearch_finds:
  "i \<le> length s \<Longrightarrow> at (drop i s) \<noteq> None \<Longrightarrow> regexSearch at s \<noteq> None"
proof (induction s arbitrary: i)
  case Nil
  then show ?case by auto
next
  case (Cons c cs)
  show ?case
  proof (cases "at (c # cs)")
    case None
    with Cons.prems obtain j where "i = Suc j" by (cases i) auto
    with Cons.prems Cons.IH[of j] None show ?thesis by auto
  next
    case (Some r)
    then show ?thesis by (cases r) auto
  qed
qed

lemma inputMappingAt_accepts:
  assumes "list_all isWhiteSpace ws" and "list_all notBrace body"
  shows "inputMappingAt (''input:'' @ ws @ ''{'' @ body @ ''}'' @ post) = Some (body, post)"
proof -
  have w: "dropWhile isWhiteSpace (ws @ ''{'' @ body @ ''}'' @ post) = ''{'' @ body @ ''}'' @ post"
    using assms(1) by (simp add: dropWhile_append list_all_iff isWhiteSpace_def)
  have t: "takeWhile notBrace (body @ ''}'' @ post) = body"
    using assms(2) by (simp add: takeWhile_append list_all_iff notBrace_def)
  have d: "dropWhile notBrace (body @ ''}'' @ post) = ''}'' @ post"
    using assms(2) by (simp add: dropWhile_append list_all_iff notBrace_def)
  have l1: "lit ''input:'' (''input:'' @ ws @ ''{'' @ body @ ''}'' @ post) =
              Some (ws @ ''{'' @ body @ ''}'' @ post)"
    by (simp add: lit_def)
  have l2: "lit ''{'' (''{'' @ body @ ''}'' @ post) = Some (body @ ''}'' @ post)"
    by (simp add: lit_def)
  have l3: "lit ''}'' (''}'' @ post) = Some post"
    by (simp add: lit_def)
  show ?thesis
    unfolding inputMappingAt_def l1 by (simp only: Option.bind.simps w l2 t d l3)
qed

lemma inputMappingAt_shape:
  assumes "inputMappingAt d = Some (body, post)"
  shows "\<exists>ws. d = ''input:'' @ ws @ ''{'' @ body @ ''}'' @ post \<and>
              list_all isWhiteSpace ws \<and> list_all notBrace body"
proof -
  from assms obtain r1 r2 where
    s1: "lit ''input:'' d = Some r1" and s2: "lit ''{'' (dropWhile isWhiteSpace r1) = Some r2"
    and s3: "lit ''}'' (dropWhile notBrace r2) = Some post"
    and b: "body = takeWhile notBrace r2"
    unfolding inputMappingAt_def by (auto simp: Option.bind_eq_Some_conv)
  have "r2 = takeWhile notBrace r2 @ dropWhile notBrace r2" by simp
  then have r2: "r2 = body @ ''}'' @ post" using lit_Some[OF s3] b by simp
  have "r1 = takeWhile isWhiteSpace r1 @ dropWhile isWhiteSpace r1" by simp
  then have r1: "r1 = takeWhile isWhiteSpace r1 @ ''{'' @ r2" using lit_Some[OF s2] by simp
  have "d = ''input:'' @ takeWhile isWhiteSpace r1 @ ''{'' @ body @ ''}'' @ post"
    using lit_Some[OF s1] r1 r2 by simp
  moreover have "list_all isWhiteSpace (takeWhile isWhiteSpace r1)"
    by (simp add: list_all_iff) (meson set_takeWhileD)
  moreover have "list_all notBrace body"
    unfolding b by (simp add: list_all_iff) (meson set_takeWhileD)
  ultimately show ?thesis by blast
qed

lemma inputMapping_match_iff:
  "regexMatch inputMappingAt s \<noteq> None \<longleftrightarrow>
     (\<exists>pre ws body post.
        s = pre @ ''input:'' @ ws @ ''{'' @ body @ ''}'' @ post \<and>
        list_all isWhiteSpace ws \<and> list_all notBrace body)"
proof
  assume "regexMatch inputMappingAt s \<noteq> None"
  then obtain i cap rest where "regexSearch inputMappingAt s = Some (i, cap, rest)"
    by (auto simp: regexMatch_def)
  from regexSearch_Some[OF this] have "inputMappingAt (drop i s) = Some (cap, rest)" by simp
  from inputMappingAt_shape[OF this] obtain ws where
    "drop i s = ''input:'' @ ws @ ''{'' @ cap @ ''}'' @ rest"
    "list_all isWhiteSpace ws" "list_all notBrace cap" by blast
  moreover have "s = take i s @ drop i s" by simp
  ultimately show "\<exists>pre ws body post.
        s = pre @ ''input:'' @ ws @ ''{'' @ body @ ''}'' @ post \<and>
        list_all isWhiteSpace ws \<and> list_all notBrace body"
    by metis
next
  assume "\<exists>pre ws body post.
        s = pre @ ''input:'' @ ws @ ''{'' @ body @ ''}'' @ post \<and>
        list_all isWhiteSpace ws \<and> list_all notBrace body"
  then obtain pre ws body post where
    s: "s = pre @ ''input:'' @ ws @ ''{'' @ body @ ''}'' @ post"
    and w: "list_all isWhiteSpace ws" and b: "list_all notBrace body" by blast
  have "inputMappingAt (drop (length pre) s) \<noteq> None"
    using inputMappingAt_accepts[OF w b, of post] s by simp
  moreover have "length pre \<le> length s" using s by simp
  ultimately have "regexSearch inputMappingAt s \<noteq> None" by (intro regexSearch_finds)
  then show "regexMatch inputMappingAt s \<noteq> None" by (simp add: regexMatch_def)
qed

text \<open>
  Claim C9. When \<^verbatim>\<open>vite.config.ts\<close> exists and the pattern \<^verbatim>\<open>input: { ... }\<close> has no
  match in its text (by \<open>inputMapping_match_iff\<close>: no part of the text is \<^verbatim>\<open>input:\<close>,
  white space, an opening brace, characters other than a closing brace, and a closing
  brace), \<open>updateViteConfig\<close> writes one warning to the console and returns; the world
  changes by the trace only, and the trace gains no write.
\<close>

theorem vite_no_mapping_warns:
  assumes "files w viteConfigPath = Some content"
    and "regexMatch inputMappingAt content = None"
  shows "updateViteConfig pageName w =
     (Inr (),
      w\<lparr>trace := trace w @
         [FsPathExists viteConfigPath,
          FsReadFile viteConfigPath,
          ConsoleWarn (''Could not find rollupOptions.input in vite.config.ts. '' @
                       ''Please manually add the page.'')]\<rparr>)"
  using assms by (simp add: updateViteConfig_def io_defs isPath_def)

lemma plainVite_file:
  "files plainViteWorld viteConfigPath = Some ''export default defineConfig({ plugins: [solid()] });''"
  by (simp add: plainViteWorld_def viteConfigPath_def)

lemma plainVite_no_match:
  "regexMatch inputMappingAt ''export default defineConfig({ plugins: [solid()] });'' = None"
  by (simp add: regex_eval)

theorem vite_no_mapping_warns_witness:
  "files plainViteWorld viteConfigPath = Some ''export default defineConfig({ plugins: [solid()] });'' \<and>
   regexMatch inputMappingAt ''export default defineConfig({ plugins: [solid()] });'' = None \<and>
   updateViteConfig ''user-profile'' plainViteWorld =
     (Inr (),
      plainViteWorld\<lparr>trace :=
         [FsPathExists ''vite.config.ts'',
          FsReadFile ''vite.config.ts'',
          ConsoleWarn (''Could not find rollupOptions.input in vite.config.ts. '' @
                       ''Please manually add the page.'')]\<rparr>)"
  using vite_no_mapping_warns[OF plainVite_file plainVite_no_match, of "''user-profile''"]
    plainVite_file plainVite_no_match
  by (simp add: plainViteWorld_def viteConfigPath_def)

section \<open>The database schema files\<close>

text \<open>
  \<open>addToSchema\<close> serves the pricing and the assistant commands, not the dashboard flow.
  It also creates a missing file, with a preamble of its own, and puts a line break
  between the text it found and the text it adds, where nothing is in the way of the
  path.
\<close>

lemma addToSchema_text:
  assumes "schemaFile kind \<notin> dirs w"
    and "\<forall>d \<in> set (dirPrefixes [] (schemaFile kind)). files w d = None"
  shows "files (snd (addToSchema kind content w)) (schemaFile kind) =
     (if isPath w (schemaFile kind)
      then map_option (\<lambda>existingContent. existingContent @ ''\<newline>'' @ content)
             (files w (schemaFile kind))
      else Some (baseSchema @ ''\<newline>'' @ content))"
  using assms
  by (cases "files w (schemaFile kind)")
    (simp_all add: addToSchema_def io_defs isPath_def list_ex_iff)

end
